(* ===== verification/Sift_Prelude.thy ===== *)
theory Sift_Prelude
  imports Main "HOL-Library.Product_Lexorder" "HOL-Library.Multiset"
begin

text \<open>
  Shared vocabulary of the development.

  \<^item> Rust strings and byte slices are both \<open>string\<close>: a \<open>char\<close> is exactly one byte, so a
    Rust \<open>String\<close> is the list of its UTF-8 bytes and \<open>len()\<close> is \<open>length\<close>.
  \<^item> \<open>Result<T, E>\<close> is \<open>('e, 'a) res\<close>: \<open>Inl (Raise e)\<close> is \<open>Err(e)\<close>, \<open>Inl (Panic why)\<close> is a
    panic (a failed assertion or an out-of-range subslice) and \<open>Inr a\<close> is \<open>Ok(a)\<close>.
  \<^item> unsigned machine integers are \<open>nat\<close>, with the truncation of every \<open>as\<close> cast written out.
\<close>

named_theorems byte_simps \<open>reading and writing little-endian integers and byte slices\<close>
named_theorems res_simps \<open>evaluation of results\<close>

section \<open>Results\<close>

datatype 'e fault = Raise 'e | Panic string

type_synonym bytes = string
type_synonym ('e, 'a) res = "'e fault + 'a"

definition bind_res :: "('e, 'a) res \<Rightarrow> ('a \<Rightarrow> ('e, 'b) res) \<Rightarrow> ('e, 'b) res" where
  "bind_res m f = (case m of Inl e \<Rightarrow> Inl e | Inr a \<Rightarrow> f a)"

definition map_err :: "('e \<Rightarrow> 'f) \<Rightarrow> ('e, 'a) res \<Rightarrow> ('f, 'a) res" where
  "map_err g m = (case m of Inl (Raise e) \<Rightarrow> Inl (Raise (g e)) | Inl (Panic w) \<Rightarrow> Inl (Panic w)
                          | Inr a \<Rightarrow> Inr a)"

definition is_ok :: "('e, 'a) res \<Rightarrow> bool" where
  "is_ok m = (case m of Inl _ \<Rightarrow> False | Inr _ \<Rightarrow> True)"

lemma bind_res_simps [simp, res_simps]:
  "bind_res (Inl e) f = Inl e"
  "bind_res (Inr a) f = f a"
  by (simp_all add: bind_res_def)

lemma bind_res_Inr_conv:
  "bind_res m f = Inr b \<longleftrightarrow> (\<exists>a. m = Inr a \<and> f a = Inr b)"
  by (cases m) auto

lemma map_err_simps [simp, res_simps]:
  "map_err g (Inr a) = Inr a"
  "map_err g (Inl (Raise e)) = Inl (Raise (g e))"
  "map_err g (Inl (Panic w)) = Inl (Panic w)"
  by (simp_all add: map_err_def)

lemma map_err_Inr_iff [simp]: "map_err g m = Inr a \<longleftrightarrow> m = Inr a"
  by (auto simp: map_err_def split: sum.splits fault.splits)

lemma is_ok_simps [simp, res_simps]: "is_ok (Inl e) = False" "is_ok (Inr a) = True"
  by (simp_all add: is_ok_def)

text \<open>Collecting an iterator of results: the first error ends it.\<close>

fun map_res :: "('a \<Rightarrow> ('e, 'b) res) \<Rightarrow> 'a list \<Rightarrow> ('e, 'b list) res" where
  "map_res f [] = Inr []"
| "map_res f (x # xs) = bind_res (f x) (\<lambda>y. bind_res (map_res f xs) (\<lambda>ys. Inr (y # ys)))"

lemma map_res_Inr: "(\<And>x. x \<in> set xs \<Longrightarrow> f x = Inr (g x)) \<Longrightarrow> map_res f xs = Inr (map g xs)"
  by (induction xs) auto

lemma map_res_projr: "map_res f xs = Inr ys \<Longrightarrow> ys = map (\<lambda>x. projr (f x)) xs"
  by (induction xs arbitrary: ys) (auto simp: bind_res_Inr_conv)

section \<open>Little-endian integers\<close>

text \<open>\<open>to_le_bytes\<close> of a \<open>k\<close>-byte integer and \<open>from_le_bytes\<close>.\<close>

lemma of_char_less_256: "(of_char c :: nat) < 256"
proof -
  have "of_char c \<in> (range of_char :: nat set)" by simp
  then show ?thesis by (simp only: range_nat_of_char atLeastLessThan_iff)
qed

primrec le_bytes :: "nat \<Rightarrow> nat \<Rightarrow> bytes" where
  "le_bytes 0 n = []"
| "le_bytes (Suc k) n = char_of (n mod 256) # le_bytes k (n div 256)"

primrec le_nat :: "bytes \<Rightarrow> nat" where
  "le_nat [] = 0"
| "le_nat (b # bs) = of_char b + 256 * le_nat bs"

lemma length_le_bytes [simp, byte_simps]: "length (le_bytes k n) = k"
  by (induction k arbitrary: n) auto

lemma le_nat_le_bytes [byte_simps]: "le_nat (le_bytes k n) = n mod 256 ^ k"
proof (induction k arbitrary: n)
  case 0
  then show ?case by simp
next
  case (Suc k)
  have "n mod 256 + 256 * (n div 256 mod 256 ^ k) = n mod (256 * 256 ^ k)"
    by (metis mod_mult2_eq add.commute)
  then show ?case using Suc by simp
qed

lemma le_nat_le_bytes_id [simp, byte_simps]: "n < 256 ^ k \<Longrightarrow> le_nat (le_bytes k n) = n"
  by (simp add: le_nat_le_bytes)

lemma le_nat_bound: "le_nat bs < 256 ^ length bs"
proof (induction bs)
  case Nil
  then show ?case by simp
next
  case (Cons b bs)
  have "(of_char b :: nat) < 256" by (rule of_char_less_256)
  moreover have "256 * le_nat bs + 256 \<le> 256 * 256 ^ length bs" using Cons by simp
  ultimately show ?case unfolding le_nat.simps list.size Nat.add_0_right add_Suc_right power_Suc
    by linarith
qed

lemma le_bytes_le_nat [simp, byte_simps]: "le_bytes (length bs) (le_nat bs) = bs"
proof (induction bs)
  case Nil
  then show ?case by simp
next
  case (Cons b bs)
  have b: "(of_char b :: nat) < 256" by (rule of_char_less_256)
  then have m: "(of_char b + 256 * le_nat bs) mod 256 = of_char b"
    and d: "(of_char b + 256 * le_nat bs) div 256 = le_nat bs"
    by simp_all
  show ?case using Cons by (simp only: le_nat.simps list.size le_bytes.simps m d
      add_Suc_right Nat.add_0_right char_of_char)
qed

section \<open>Byte slices\<close>

text \<open>\<open>subslice i j xs\<close> is \<open>xs[i..j]\<close>; \<open>write_at off src xs\<close> is \<open>xs[off..off+src.len()].copy_from_slice(src)\<close>
  where the range is in bounds; \<open>set_len n xs\<close> is \<open>File::set_len\<close>: truncate, or extend with zeros.\<close>

definition subslice :: "nat \<Rightarrow> nat \<Rightarrow> 'a list \<Rightarrow> 'a list" where
  "subslice i j xs = take (j - i) (drop i xs)"

definition write_at :: "nat \<Rightarrow> 'a list \<Rightarrow> 'a list \<Rightarrow> 'a list" where
  "write_at off src xs = take off xs @ src @ drop (off + length src) xs"

definition set_len :: "nat \<Rightarrow> bytes \<Rightarrow> bytes" where
  "set_len n xs = take n xs @ replicate (n - length xs) (char_of (0::nat))"

lemma length_subslice [simp, byte_simps]: "length (subslice i j xs) = min (j - i) (length xs - i)"
  by (simp add: subslice_def)

lemma length_write_at [simp, byte_simps]:
  "off + length src \<le> length xs \<Longrightarrow> length (write_at off src xs) = length xs"
  by (simp add: write_at_def)

lemma length_set_len [simp, byte_simps]: "length (set_len n xs) = n"
  by (simp add: set_len_def)

lemma subslice_write_at_same [simp, byte_simps]:
  "off + length src \<le> length xs \<Longrightarrow> j = off + length src \<Longrightarrow> subslice off j (write_at off src xs) = src"
  by (simp add: subslice_def write_at_def)

lemma subslice_write_at_before [byte_simps]:
  "j \<le> off \<Longrightarrow> off \<le> length xs \<Longrightarrow> subslice i j (write_at off src xs) = subslice i j xs"
  by (cases "i \<le> j") (simp_all add: subslice_def write_at_def take_drop min_def)

lemma subslice_write_at_after [byte_simps]:
  assumes "off + length src \<le> i" "off + length src \<le> length xs"
  shows "subslice i j (write_at off src xs) = subslice i j xs"
proof -
  have "drop i (write_at off src xs) = drop i xs"
    using assms by (simp add: write_at_def)
  then show ?thesis by (simp add: subslice_def)
qed

lemma subslice_set_len [byte_simps]:
  "j \<le> length xs \<Longrightarrow> j \<le> n \<Longrightarrow> subslice i j (set_len n xs) = subslice i j xs"
  by (cases "i \<le> j") (simp_all add: subslice_def set_len_def take_drop min_def)

lemma subslice_0 [simp]: "subslice 0 j xs = take j xs"
  by (simp add: subslice_def)

lemma subslice_append_right [byte_simps]:
  "length xs = i \<Longrightarrow> subslice i j (xs @ ys) = take (j - i) ys"
  by (simp add: subslice_def)

lemma subslice_append_left [byte_simps]:
  "j \<le> length xs \<Longrightarrow> subslice i j (xs @ ys) = subslice i j xs"
  by (simp add: subslice_def)

section \<open>Lists\<close>

lemma map_nth_upt [simp]: "map ((!) xs) [0..<length xs] = xs"
  by (rule map_nth)

lemma map_upt_Suc_append: "map f [0..<Suc n] = map f [0..<n] @ [f n]"
  by simp

lemma map_of_append_None: "map_of xs k = None \<Longrightarrow> map_of (xs @ ys) k = map_of ys k"
  by (induction xs) (auto split: if_splits)

lemma sorted_key_unique:
  assumes "mset xs = mset ys" "inj_on f (set xs)" "sorted (map f xs)" "sorted (map f ys)"
  shows "xs = ys"
proof -
  have "mset (map f xs) = mset (map f ys)" using assms(1) by simp
  then have eq: "map f xs = map f ys"
    using assms(3,4) by (metis properties_for_sort)
  have s: "set xs = set ys" using assms(1) by (metis set_mset_mset)
  show ?thesis using eq assms(2) s by (metis inj_on_map_eq_map sup.idem)
qed

lemma filter_unique: "distinct xs \<Longrightarrow> x \<in> set xs \<Longrightarrow> filter (\<lambda>c. c = x) xs = [x]"
  by (induction xs) (auto simp: filter_empty_conv)

end
