(* ===== verification/Utf8_Text.thy ===== *)
theory Utf8_Text
  imports Sift_Prelude
begin

text \<open>
  UTF-8 as Rust's \<open>str\<close> has it: which byte sequences are well formed (\<open>str::from_utf8\<close>), where a
  string may be cut (\<open>is_char_boundary\<close>) and how many characters it has (\<open>chars().count()\<close>).
\<close>

definition byte_in :: "nat \<Rightarrow> nat \<Rightarrow> char \<Rightarrow> bool" where
  "byte_in lo hi c \<longleftrightarrow> lo \<le> of_char c \<and> of_char c \<le> hi"

definition is_cont :: "char \<Rightarrow> bool" where
  "is_cont c = byte_in 0x80 0xBF c"

text \<open>The width of the well-formed character a byte sequence starts with.\<close>

definition utf8_step :: "bytes \<Rightarrow> nat option" where
  "utf8_step bs = (case bs of [] \<Rightarrow> None | c # r \<Rightarrow>
     if byte_in 0 0x7F c then Some 1
     else if byte_in 0xC2 0xDF c then
       (case r of a # _ \<Rightarrow> if is_cont a then Some 2 else None | [] \<Rightarrow> None)
     else if byte_in 0xE0 0xEF c then
       (case r of a # b # _ \<Rightarrow>
          if (if of_char c = (0xE0::nat) then byte_in 0xA0 0xBF a
              else if of_char c = (0xED::nat) then byte_in 0x80 0x9F a else is_cont a) \<and> is_cont b
          then Some 3 else None | _ \<Rightarrow> None)
     else if byte_in 0xF0 0xF4 c then
       (case r of a # b # d # _ \<Rightarrow>
          if (if of_char c = (0xF0::nat) then byte_in 0x90 0xBF a
              else if of_char c = (0xF4::nat) then byte_in 0x80 0x8F a else is_cont a)
             \<and> is_cont b \<and> is_cont d
          then Some 4 else None | _ \<Rightarrow> None)
     else None)"

lemma utf8_step_bounds: "utf8_step bs = Some k \<Longrightarrow> 0 < k \<and> k \<le> length bs"
  by (auto simp: utf8_step_def split: list.splits if_splits)

function valid_utf8 :: "bytes \<Rightarrow> bool" where
  "valid_utf8 bs = (bs = [] \<or>
     (case utf8_step bs of None \<Rightarrow> False | Some k \<Rightarrow> valid_utf8 (drop k bs)))"
  by pat_completeness auto
termination
  by (relation "measure length") (auto dest: utf8_step_bounds)

declare valid_utf8.simps [simp del]

definition is_char_boundary :: "bytes \<Rightarrow> nat \<Rightarrow> bool" where
  "is_char_boundary bs i \<longleftrightarrow> i = 0 \<or> i = length bs \<or> (i < length bs \<and> \<not> is_cont (bs ! i))"

text \<open>\<open>chars().count()\<close>: every character has exactly one byte that is not a continuation byte.\<close>

definition char_count :: "bytes \<Rightarrow> nat" where
  "char_count bs = length (filter (\<lambda>c. \<not> is_cont c) bs)"

lemma valid_utf8_Nil [simp]: "valid_utf8 []"
  by (simp add: valid_utf8.simps)

lemma char_count_le: "char_count bs \<le> length bs"
  by (simp add: char_count_def)

text \<open>All bytes of a character but the first are continuation bytes.\<close>

lemma byte_in_cont: "byte_in lo hi c \<Longrightarrow> 0x80 \<le> lo \<Longrightarrow> hi \<le> 0xBF \<Longrightarrow> is_cont c"
  by (auto simp: byte_in_def is_cont_def)

lemma utf8_step_cont:
  assumes "utf8_step bs = Some k" "0 < j" "j < k"
  shows "is_cont (bs ! j)"
  using assms
  by (auto simp: utf8_step_def less_Suc_eq numeral_eq_Suc nth_Cons'
      intro: byte_in_cont split: list.splits if_splits)

text \<open>A well-formed first character is read the same way from any prefix that holds all of it.\<close>

lemma utf8_step_take:
  assumes "utf8_step bs = Some k" "k \<le> n"
  shows "utf8_step (take n bs) = Some k"
proof -
  obtain m where n: "n = k + m" using assms(2) le_Suc_ex by blast
  consider c r where "bs = c # r" "k = 1" | c a r where "bs = c # a # r" "k = 2"
    | c a b r where "bs = c # a # b # r" "k = 3" | c a b d r where "bs = c # a # b # d # r" "k = 4"
    using assms(1) by (auto simp: utf8_step_def split: list.splits if_splits)
  then show ?thesis
  proof cases
    case (1 c r)
    then have "n = Suc m" using n by simp
    then show ?thesis using assms(1) 1 by (auto simp: utf8_step_def split: list.splits if_splits)
  next
    case (2 c a r)
    then have "n = Suc (Suc m)" using n by simp
    then show ?thesis using assms(1) 2 by (auto simp: utf8_step_def split: list.splits if_splits)
  next
    case (3 c a b r)
    then have "n = Suc (Suc (Suc m))" using n by simp
    then show ?thesis using assms(1) 3 by (auto simp: utf8_step_def split: list.splits if_splits)
  next
    case (4 c a b d r)
    then have "n = Suc (Suc (Suc (Suc m)))" using n by simp
    then show ?thesis using assms(1) 4 by (auto simp: utf8_step_def split: list.splits if_splits)
  qed
qed

lemma valid_utf8_take:
  "valid_utf8 bs \<Longrightarrow> is_char_boundary bs n \<Longrightarrow> valid_utf8 (take n bs)"
proof (induction bs arbitrary: n rule: valid_utf8.induct)
  case (1 bs)
  show ?case
  proof (cases "n = 0 \<or> bs = []")
    case True
    then show ?thesis by auto
  next
    case False
    then obtain k where k: "utf8_step bs = Some k" and v: "valid_utf8 (drop k bs)"
      using "1.prems"(1) by (auto simp: valid_utf8.simps [of bs] split: option.splits)
    have kn: "k \<le> n"
    proof (rule ccontr)
      assume "\<not> k \<le> n"
      then have "is_cont (bs ! n)" "n < length bs"
        using utf8_step_cont [OF k] utf8_step_bounds [OF k] False by auto
      then show False using "1.prems"(2) False by (auto simp: is_char_boundary_def)
    qed
    have "is_char_boundary (drop k bs) (n - k)"
      using "1.prems"(2) kn utf8_step_bounds [OF k] False
      by (auto simp: is_char_boundary_def)
    then have "valid_utf8 (take (n - k) (drop k bs))"
      using "1.IH" [OF k v] by blast
    then have "valid_utf8 (drop k (take n bs))" by (simp add: drop_take)
    moreover have "utf8_step (take n bs) = Some k" using k kn by (rule utf8_step_take)
    ultimately show ?thesis by (subst valid_utf8.simps) simp
  qed
qed

section \<open>Lines, splitting and decimal numbers\<close>

text \<open>\<open>split_on c\<close> is \<open>str::split(c)\<close>; \<open>lines\<close> is \<open>str::lines\<close>: a final empty piece is dropped and one
  trailing carriage return is removed from a line that ended in a newline.\<close>

definition newline :: char where "newline = CHR 0x0A"
definition carriage_return :: char where "carriage_return = CHR 0x0D"

fun split_on :: "char \<Rightarrow> string \<Rightarrow> string list" where
  "split_on c [] = [[]]"
| "split_on c (x # xs) =
     (if x = c then [] # split_on c xs
      else (case split_on c xs of [] \<Rightarrow> [[x]] | p # ps \<Rightarrow> (x # p) # ps))"

definition strip_cr :: "string \<Rightarrow> string" where
  "strip_cr l = (if l \<noteq> [] \<and> last l = carriage_return then butlast l else l)"

definition lines :: "string \<Rightarrow> string list" where
  "lines s = (let ps = split_on newline s
              in map strip_cr (butlast ps) @ (if last ps = [] then [] else [last ps]))"

definition strip_prefix :: "string \<Rightarrow> string \<Rightarrow> string option" where
  "strip_prefix p s = (if take (length p) s = p then Some (drop (length p) s) else None)"

definition starts_with :: "string \<Rightarrow> string \<Rightarrow> bool" where
  "starts_with p s \<longleftrightarrow> take (length p) s = p"

definition digit :: "nat \<Rightarrow> char" where
  "digit d = char_of (48 + d)"

fun show_nat :: "nat \<Rightarrow> string" where
  "show_nat n = (if n < 10 then [digit n] else show_nat (n div 10) @ [digit (n mod 10)])"

declare show_nat.simps [simp del]

definition digit_val :: "char \<Rightarrow> nat option" where
  "digit_val c = (if byte_in 48 57 c then Some (of_char c - 48) else None)"

fun parse_digits :: "nat \<Rightarrow> nat \<Rightarrow> string \<Rightarrow> nat option" where
  "parse_digits lim acc [] = Some acc"
| "parse_digits lim acc (c # cs) =
     (case digit_val c of None \<Rightarrow> None
      | Some d \<Rightarrow> (if acc * 10 + d < lim then parse_digits lim (acc * 10 + d) cs else None))"

text \<open>\<open>str::parse\<close> for an unsigned integer below \<open>lim\<close>: digits with an optional plus sign.\<close>

definition parse_uint :: "nat \<Rightarrow> string \<Rightarrow> nat option" where
  "parse_uint lim s = (case s of [] \<Rightarrow> None
     | c # cs \<Rightarrow> if c = CHR ''+'' then (if cs = [] then None else parse_digits lim 0 cs)
                else parse_digits lim 0 (c # cs))"

lemma split_on_nonempty [simp]: "split_on c xs \<noteq> []"
  by (induction xs) (auto split: list.splits)

lemma split_on_no_sep: "c \<notin> set xs \<Longrightarrow> split_on c xs = [xs]"
  by (induction xs) auto

lemma split_on_append: "c \<notin> set xs \<Longrightarrow> split_on c (xs @ c # ys) = xs # split_on c ys"
  by (induction xs) auto

lemma split_on_pieces: "p \<in> set (split_on c xs) \<Longrightarrow> c \<notin> set p"
  by (induction xs arbitrary: p) (auto split: list.splits if_splits)

lemma lines_Nil [simp]: "lines [] = []"
  by (simp add: lines_def)

lemma lines_append:
  assumes "newline \<notin> set l"
  shows "lines (l @ newline # r) = strip_cr l # lines r"
  using assms by (simp add: lines_def split_on_append Let_def)

lemma lines_append2:
  assumes "newline \<notin> set l" "carriage_return \<notin> set l"
  shows "lines (l @ [newline] @ r) = l # lines r"
proof -
  have "strip_cr l = l" using assms(2) unfolding strip_cr_def by (metis last_in_set)
  then show ?thesis using lines_append [OF assms(1), of r] by simp
qed

lemma digit_val_digit [simp]: "d < 10 \<Longrightarrow> digit_val (digit d) = Some d"
  by (simp add: digit_val_def digit_def byte_in_def)

lemma digit_not_plus: "d < 10 \<Longrightarrow> digit d \<noteq> CHR ''+''"
proof
  assume "d < 10" "digit d = CHR ''+''"
  then have "(of_char (digit d) :: nat) = of_char (CHR ''+'')" by simp
  then show False using \<open>d < 10\<close> by (simp add: digit_def)
qed

lemma parse_digits_append:
  "parse_digits lim acc (xs @ [c]) =
     (case parse_digits lim acc xs of None \<Rightarrow> None | Some n \<Rightarrow> parse_digits lim n [c])"
  by (induction xs arbitrary: acc) (auto split: option.splits)

lemma parse_digits_show: "n < lim \<Longrightarrow> parse_digits lim 0 (show_nat n) = Some n"
proof (induction n rule: show_nat.induct)
  case (1 n)
  show ?case
  proof (cases "n < 10")
    case True
    then show ?thesis using "1.prems" by (simp add: show_nat.simps [of n])
  next
    case False
    have "n div 10 < lim" using "1.prems" by (meson div_le_dividend le_less_trans)
    then have ih: "parse_digits lim 0 (show_nat (n div 10)) = Some (n div 10)"
      using "1.IH" False by blast
    show ?thesis using False "1.prems"
      by (subst show_nat.simps) (simp add: parse_digits_append ih)
  qed
qed

lemma show_nat_hd: "\<exists>d. d < 10 \<and> show_nat n \<noteq> [] \<and> hd (show_nat n) = digit d"
proof (induction n rule: show_nat.induct)
  case (1 n)
  then show ?case by (subst (1 2) show_nat.simps) (auto simp: hd_append)
qed

text \<open>Printing an integer and parsing it back.\<close>

lemma parse_uint_show: "n < lim \<Longrightarrow> parse_uint lim (show_nat n) = Some n"
proof -
  assume n: "n < lim"
  obtain d where d: "d < 10" "show_nat n \<noteq> []" "hd (show_nat n) = digit d"
    using show_nat_hd by blast
  then obtain cs where cs: "show_nat n = digit d # cs" by (cases "show_nat n") auto
  then show ?thesis using parse_digits_show [OF n] digit_not_plus [OF d(1)]
    by (simp add: parse_uint_def)
qed

section \<open>ASCII\<close>

definition is_ascii :: "char \<Rightarrow> bool" where
  "is_ascii c \<longleftrightarrow> of_char c < (128::nat)"

lemma valid_utf8_ascii: "list_all is_ascii bs \<Longrightarrow> valid_utf8 bs"
proof (induction bs)
  case (Cons c bs)
  have "utf8_step (c # bs) = Some 1"
    using Cons.prems by (simp add: utf8_step_def byte_in_def is_ascii_def)
  then show ?case using Cons by (subst valid_utf8.simps) simp
qed simp

section \<open>Characters\<close>

text \<open>\<open>str::chars\<close>: the characters of a well-formed string, each as its bytes.\<close>

function chars :: "bytes \<Rightarrow> bytes list" where
  "chars bs = (case utf8_step bs of None \<Rightarrow> [] | Some k \<Rightarrow> take k bs # chars (drop k bs))"
  by pat_completeness auto
termination
proof (relation "measure length")
  fix bs k assume "utf8_step bs = Some k"
  then show "(drop k bs, bs) \<in> measure length" using utf8_step_bounds [of bs k] by auto
qed simp

declare chars.simps [simp del]

lemma chars_Nil [simp]: "chars [] = []"
  by (simp add: chars.simps utf8_step_def)

lemma concat_chars: "valid_utf8 bs \<Longrightarrow> concat (chars bs) = bs"
proof (induction bs rule: valid_utf8.induct)
  case (1 bs)
  show ?case
  proof (cases "bs = []")
    case False
    then obtain k where k: "utf8_step bs = Some k" "valid_utf8 (drop k bs)"
      using "1.prems" by (auto simp: valid_utf8.simps [of bs] split: option.splits)
    have "concat (chars (drop k bs)) = drop k bs" by (rule "1.IH" [OF k(1) k(2)])
    then show ?thesis by (subst chars.simps) (simp add: k)
  qed simp
qed

lemma chars_nonempty: "c \<in> set (chars bs) \<Longrightarrow> c \<noteq> []"
proof (induction bs rule: chars.induct)
  case (1 bs)
  show ?case
  proof (cases "utf8_step bs")
    case None
    then show ?thesis using "1.prems" by (simp add: chars.simps [of bs])
  next
    case (Some k)
    then show ?thesis using "1.prems" "1.IH" [OF Some] utf8_step_bounds [OF Some]
      by (auto simp: chars.simps [of bs])
  qed
qed

definition is_upper :: "char \<Rightarrow> bool" where "is_upper c = byte_in 65 90 c"
definition is_lower :: "char \<Rightarrow> bool" where "is_lower c = byte_in 97 122 c"
definition is_digit :: "char \<Rightarrow> bool" where "is_digit c = byte_in 48 57 c"
definition is_alnum :: "char \<Rightarrow> bool" where "is_alnum c \<longleftrightarrow> is_upper c \<or> is_lower c \<or> is_digit c"

definition lower_char :: "char \<Rightarrow> char" where
  "lower_char c = (if is_upper c then char_of ((of_char c :: nat) + 32) else c)"

definition to_ascii_lowercase :: "string \<Rightarrow> string" where
  "to_ascii_lowercase s = map lower_char s"

text \<open>\<open>char::is_whitespace\<close>: the Unicode characters with the property White\_Space.\<close>

definition is_whitespace :: "bytes \<Rightarrow> bool" where
  "is_whitespace ch = (case map of_char ch of
      [a] \<Rightarrow> (9 \<le> a \<and> a \<le> 13) \<or> a = (32::nat)
    | [a, b] \<Rightarrow> a = 0xC2 \<and> (b = 0x85 \<or> b = 0xA0)
    | [a, b, c] \<Rightarrow> (a = 0xE1 \<and> b = 0x9A \<and> c = 0x80) \<or>
        (a = 0xE2 \<and> b = 0x80 \<and> (0x80 \<le> c \<and> c \<le> 0x8A \<or> c = 0xA8 \<or> c = 0xA9 \<or> c = 0xAF)) \<or>
        (a = 0xE2 \<and> b = 0x81 \<and> c = 0x9F) \<or> (a = 0xE3 \<and> b = 0x80 \<and> c = 0x80)
    | _ \<Rightarrow> False)"

text \<open>\<open>split\<close> with a predicate on characters: the pieces between separators, empty ones included.\<close>

fun split_chars :: "(bytes \<Rightarrow> bool) \<Rightarrow> bytes list \<Rightarrow> bytes list list" where
  "split_chars P [] = [[]]"
| "split_chars P (c # cs) =
     (if P c then [] # split_chars P cs
      else case split_chars P cs of [] \<Rightarrow> [[c]] | p # ps \<Rightarrow> (c # p) # ps)"

definition split_whitespace :: "string \<Rightarrow> string list" where
  "split_whitespace s = map concat (filter (\<lambda>w. w \<noteq> []) (split_chars is_whitespace (chars s)))"

lemma split_chars_nonempty [simp]: "split_chars P cs \<noteq> []"
  by (induction cs) (auto split: list.splits)

lemma split_chars_piece: "p \<in> set (split_chars P cs) \<Longrightarrow> c \<in> set p \<Longrightarrow> \<not> P c \<and> c \<in> set cs"
proof (induction cs arbitrary: p)
  case (Cons d cs)
  show ?case
  proof (cases "P d")
    case False
    obtain q qs where q: "split_chars P cs = q # qs" by (cases "split_chars P cs") auto
    then have "c \<in> set q \<Longrightarrow> \<not> P c \<and> c \<in> set cs" using Cons.IH [of q] by simp
    then show ?thesis using Cons.prems Cons.IH [of p] False q by auto
  qed (use Cons in auto)
qed simp

lemma split_whitespace_nonempty: "w \<in> set (split_whitespace s) \<Longrightarrow> w \<noteq> []"
proof -
  assume "w \<in> set (split_whitespace s)"
  then obtain p where p: "w = concat p" "p \<noteq> []" "p \<in> set (split_chars is_whitespace (chars s))"
    by (auto simp: split_whitespace_def)
  then have "hd p \<in> set (chars s)" using split_chars_piece [OF p(3), of "hd p"] by simp
  then have "hd p \<noteq> []" by (rule chars_nonempty)
  then show ?thesis using p by (cases p) auto
qed

end
