(* ===== verification/Float_Model.thy ===== *)
theory Float_Model
  imports Sift_Prelude "Complex_Main" "HOL-Library.Word"
begin

text \<open>
  The binary floating-point numbers the program computes with: \<open>f16\<close> (the stored embeddings),
  \<open>f32\<close> (scores) and \<open>f64\<close> (fractions). A number is its bit pattern; addition,
  multiplication and division compute the exact rational result and round it to nearest, ties to
  even, with infinities, signed zeros and NaN as IEEE 754 has them. NaN results use the canonical
  quiet NaN. \<open>total_cmp\<close> is the integer comparison that Rust's \<open>f32::total_cmp\<close> performs.
\<close>

section \<open>Formats and fields\<close>

datatype fmt = Fmt (mbits: nat) (xbits: nat)

abbreviation F16 :: fmt where "F16 \<equiv> Fmt 10 5"
abbreviation F32 :: fmt where "F32 \<equiv> Fmt 23 8"
abbreviation F64 :: fmt where "F64 \<equiv> Fmt 52 11"

type_synonym f16 = "16 word"
type_synonym f32 = "32 word"
type_synonym f64 = "64 word"

definition fp_signbit :: "fmt \<Rightarrow> int" where
  "fp_signbit f = 2 ^ (xbits f + mbits f)"

definition fp_neg :: "fmt \<Rightarrow> int \<Rightarrow> bool" where
  "fp_neg f b \<longleftrightarrow> fp_signbit f \<le> b"

definition fp_mag_bits :: "fmt \<Rightarrow> int \<Rightarrow> int" where
  "fp_mag_bits f b = b mod fp_signbit f"

definition fp_expo :: "fmt \<Rightarrow> int \<Rightarrow> int" where
  "fp_expo f b = fp_mag_bits f b div 2 ^ mbits f"

definition fp_frac :: "fmt \<Rightarrow> int \<Rightarrow> int" where
  "fp_frac f b = b mod 2 ^ mbits f"

definition fp_bias :: "fmt \<Rightarrow> int" where
  "fp_bias f = 2 ^ (xbits f - 1) - 1"

definition fp_inf :: "fmt \<Rightarrow> int" where
  "fp_inf f = (2 ^ xbits f - 1) * 2 ^ mbits f"

definition fp_nan :: "fmt \<Rightarrow> int" where
  "fp_nan f = fp_inf f + 2 ^ (mbits f - 1)"

definition fp_is_nan :: "fmt \<Rightarrow> int \<Rightarrow> bool" where
  "fp_is_nan f b \<longleftrightarrow> fp_inf f < fp_mag_bits f b"

definition fp_is_inf :: "fmt \<Rightarrow> int \<Rightarrow> bool" where
  "fp_is_inf f b \<longleftrightarrow> fp_mag_bits f b = fp_inf f"

definition fp_is_finite :: "fmt \<Rightarrow> int \<Rightarrow> bool" where
  "fp_is_finite f b \<longleftrightarrow> fp_mag_bits f b < fp_inf f"

text \<open>Powers of two by repeated squaring, so that concrete arithmetic evaluates quickly.\<close>

function pow2i :: "int \<Rightarrow> int" where
  "pow2i e = (if e \<le> 0 then 1 else let p = pow2i (e div 2) in if even e then p * p else 2 * (p * p))"
  by pat_completeness auto
termination
  by (relation "measure nat") auto

declare pow2i.simps [simp del]

definition pow2 :: "int \<Rightarrow> rat" where
  "pow2 e = (if 0 \<le> e then of_int (pow2i e) else 1 / of_int (pow2i (- e)))"

lemma pow2i_power: "pow2i e = 2 ^ nat e"
proof (induction e rule: pow2i.induct)
  case (1 e)
  show ?case
  proof (cases "e \<le> 0")
    case False
    have h: "pow2i (e div 2) = 2 ^ nat (e div 2)" using 1 False by simp
    have "nat e = nat (e div 2) + nat (e div 2) + (if even e then 0 else 1)"
      using False by (auto elim!: evenE oddE simp: nat_add_distrib nat_mult_distrib)
    then show ?thesis using False h by (subst pow2i.simps) (simp add: Let_def power_add)
  qed (simp add: pow2i.simps)
qed

lemma pow2_powi: "pow2 e = 2 powi e"
  by (auto simp: pow2_def pow2i_power power_int_def power_one_over)

text \<open>The magnitude of a finite pattern, as an exact rational; subnormals have exponent field 0.\<close>

definition fp_mag :: "fmt \<Rightarrow> int \<Rightarrow> rat" where
  "fp_mag f b =
     (if fp_expo f b = 0
      then of_int (fp_frac f b) * pow2 (1 - fp_bias f - int (mbits f))
      else of_int (2 ^ mbits f + fp_frac f b) *
           pow2 (fp_expo f b - fp_bias f - int (mbits f)))"

definition fp_val :: "fmt \<Rightarrow> int \<Rightarrow> rat" where
  "fp_val f b = (if fp_neg f b then - fp_mag f b else fp_mag f b)"

section \<open>Rounding\<close>

function bitlen :: "int \<Rightarrow> int" where
  "bitlen n = (if n \<le> 0 then 0 else 1 + bitlen (n div 2))"
  by pat_completeness auto
termination
  by (relation "measure nat") auto

declare bitlen.simps [simp del]

definition ilog2_from :: "rat \<Rightarrow> int \<Rightarrow> int" where
  "ilog2_from q e = (if q < pow2 e then e - 1 else e)"

definition ilog2 :: "rat \<Rightarrow> int" where
  "ilog2 q = (case quotient_of q of (a, b) \<Rightarrow> ilog2_from q (bitlen a - bitlen b))"

definition half_even :: "int \<Rightarrow> rat \<Rightarrow> int" where
  "half_even n d = (if d < 1 / 2 then n else if 1 / 2 < d then n + 1 else if even n then n else n + 1)"

definition round_half_even :: "rat \<Rightarrow> int" where
  "round_half_even r = half_even \<lfloor>r\<rfloor> (r - of_int \<lfloor>r\<rfloor>)"

text \<open>
  The pattern nearest to a non-negative rational. With the exponent \<open>e\<close> clamped to the smallest
  normal one, adding the rounded significand to the exponent field covers subnormals, normals and
  the carry into the next binade by one formula; what exceeds the largest finite pattern is infinity.
\<close>

definition fp_encode :: "fmt \<Rightarrow> int \<Rightarrow> int \<Rightarrow> int" where
  "fp_encode f e n = min (fp_inf f) ((e + fp_bias f - 1) * 2 ^ mbits f + n)"

definition fp_round_at :: "fmt \<Rightarrow> rat \<Rightarrow> int \<Rightarrow> int" where
  "fp_round_at f q e = fp_encode f e (round_half_even (q / pow2 (e - int (mbits f))))"

definition fp_round :: "fmt \<Rightarrow> rat \<Rightarrow> int" where
  "fp_round f q = (if q \<le> 0 then 0 else fp_round_at f q (max (1 - fp_bias f) (ilog2 q)))"

section \<open>Arithmetic\<close>

definition fp_pack :: "fmt \<Rightarrow> bool \<Rightarrow> int \<Rightarrow> int" where
  "fp_pack f s m = (if s then fp_signbit f + m else m)"

definition fp_of_sum :: "fmt \<Rightarrow> bool \<Rightarrow> rat \<Rightarrow> int" where
  "fp_of_sum f zero_neg q =
     (if q = 0 then fp_pack f zero_neg 0 else fp_pack f (q < 0) (fp_round f \<bar>q\<bar>))"

definition fp_add :: "fmt \<Rightarrow> int \<Rightarrow> int \<Rightarrow> int" where
  "fp_add f a b =
     (if fp_is_nan f a \<or> fp_is_nan f b then fp_nan f
      else if fp_is_inf f a then
        (if fp_is_inf f b \<and> fp_neg f a \<noteq> fp_neg f b then fp_nan f else a)
      else if fp_is_inf f b then b
      else fp_of_sum f (fp_neg f a \<and> fp_neg f b) (fp_val f a + fp_val f b))"

definition fp_mul :: "fmt \<Rightarrow> int \<Rightarrow> int \<Rightarrow> int" where
  "fp_mul f a b =
     (let s = (fp_neg f a \<noteq> fp_neg f b)
      in if fp_is_nan f a \<or> fp_is_nan f b then fp_nan f
         else if fp_is_inf f a then (if fp_mag_bits f b = 0 then fp_nan f else fp_pack f s (fp_inf f))
         else if fp_is_inf f b then (if fp_mag_bits f a = 0 then fp_nan f else fp_pack f s (fp_inf f))
         else fp_pack f s (fp_round f (fp_mag f a * fp_mag f b)))"

definition fp_div :: "fmt \<Rightarrow> int \<Rightarrow> int \<Rightarrow> int" where
  "fp_div f a b =
     (let s = (fp_neg f a \<noteq> fp_neg f b)
      in if fp_is_nan f a \<or> fp_is_nan f b then fp_nan f
         else if fp_is_inf f a then (if fp_is_inf f b then fp_nan f else fp_pack f s (fp_inf f))
         else if fp_is_inf f b then fp_pack f s 0
         else if fp_mag_bits f b = 0 then
           (if fp_mag_bits f a = 0 then fp_nan f else fp_pack f s (fp_inf f))
         else fp_pack f s (fp_round f (fp_mag f a / fp_mag f b)))"

text \<open>Numeric order: \<open>>\<close> is false when an operand is NaN, and the two zeros are equal.\<close>

definition fp_key :: "fmt \<Rightarrow> int \<Rightarrow> int" where
  "fp_key f b = (if fp_neg f b then - fp_mag_bits f b else fp_mag_bits f b)"

definition fp_gt :: "fmt \<Rightarrow> int \<Rightarrow> int \<Rightarrow> bool" where
  "fp_gt f a b \<longleftrightarrow> \<not> fp_is_nan f a \<and> \<not> fp_is_nan f b \<and> fp_key f b < fp_key f a"

section \<open>The machine types\<close>

definition f32_add :: "f32 \<Rightarrow> f32 \<Rightarrow> f32" where
  "f32_add a b = word_of_int (fp_add F32 (uint a) (uint b))"

definition f32_mul :: "f32 \<Rightarrow> f32 \<Rightarrow> f32" where
  "f32_mul a b = word_of_int (fp_mul F32 (uint a) (uint b))"

definition f32_div :: "f32 \<Rightarrow> f32 \<Rightarrow> f32" where
  "f32_div a b = word_of_int (fp_div F32 (uint a) (uint b))"

definition f32_of_nat :: "nat \<Rightarrow> f32" where
  "f32_of_nat n = word_of_int (fp_round F32 (of_nat n))"

definition f32_is_finite :: "f32 \<Rightarrow> bool" where
  "f32_is_finite a = fp_is_finite F32 (uint a)"

definition f64_of_nat :: "nat \<Rightarrow> f64" where
  "f64_of_nat n = word_of_int (fp_round F64 (of_nat n))"

definition f64_div :: "f64 \<Rightarrow> f64 \<Rightarrow> f64" where
  "f64_div a b = word_of_int (fp_div F64 (uint a) (uint b))"

definition f64_gt :: "f64 \<Rightarrow> f64 \<Rightarrow> bool" where
  "f64_gt a b = fp_gt F64 (uint a) (uint b)"

text \<open>\<open>f16::to_f32\<close> is exact: every half is representable as a single.\<close>

definition f16_to_f32 :: "f16 \<Rightarrow> f32" where
  "f16_to_f32 h =
     (let b = uint h; s = fp_neg F16 b
      in word_of_int
           (if fp_is_nan F16 b then fp_pack F32 s (fp_nan F32)
            else if fp_is_inf F16 b then fp_pack F32 s (fp_inf F32)
            else fp_pack F32 s (fp_round F32 (fp_mag F16 b))))"

abbreviation f32_zero :: f32 where "f32_zero \<equiv> 0"
abbreviation f32_one :: f32 where "f32_one \<equiv> 0x3F800000"
abbreviation f32_neg_zero :: f32 where "f32_neg_zero \<equiv> 0x80000000"

text \<open>\<open>Iterator::sum\<close> folds from the left, starting from negative zero.\<close>

definition f32_sum :: "f32 list \<Rightarrow> f32" where
  "f32_sum xs = foldl f32_add f32_neg_zero xs"

section \<open>The total order\<close>

text \<open>
  \<open>total_cmp\<close> compares the patterns as signed integers after flipping the value bits of
  negative ones. As an integer key: non-negative patterns are themselves, a negative pattern with
  value bits \<open>m\<close> is \<open>- m - 1\<close>.
\<close>

definition total_key :: "f32 \<Rightarrow> int" where
  "total_key a = (if fp_neg F32 (uint a) then - fp_mag_bits F32 (uint a) - 1
                  else fp_mag_bits F32 (uint a))"

lemma fp_signbit_F32: "fp_signbit F32 = 2 ^ 31"
  by (simp add: fp_signbit_def)

lemma fp_mag_bits_nonneg [simp]: "0 \<le> fp_mag_bits f b"
  by (simp add: fp_mag_bits_def fp_signbit_def)

lemma total_key_inj [simp]: "total_key a = total_key b \<longleftrightarrow> a = b"
proof
  have split: "uint c = (if fp_neg F32 (uint c) then 2 ^ 31 else 0) + fp_mag_bits F32 (uint c)" for c :: f32
  proof (cases "fp_neg F32 (uint c)")
    case True
    have "uint c < 2 ^ 31 + 2 ^ 31" using uint_bounded [of c] by simp
    then have "uint c mod 2 ^ 31 = uint c - 2 ^ 31"
      using True by (intro int_mod_pos_eq [where q = 1]) (simp_all add: fp_neg_def fp_signbit_def)
    then show ?thesis using True by (simp add: fp_signbit_def fp_mag_bits_def)
  next
    case False
    then show ?thesis by (simp add: fp_neg_def fp_signbit_def fp_mag_bits_def)
  qed
  assume "total_key a = total_key b"
  then have "fp_neg F32 (uint a) = fp_neg F32 (uint b) \<and>
             fp_mag_bits F32 (uint a) = fp_mag_bits F32 (uint b)"
    using fp_mag_bits_nonneg [of F32 "uint a"] fp_mag_bits_nonneg [of F32 "uint b"]
    by (auto simp: total_key_def simp del: fp_mag_bits_nonneg split: if_splits)
  then have "uint a = uint b" using split [of a] split [of b] by simp
  then show "a = b" by (simp add: word_uint_eq_iff)
qed simp

lemma total_key_inj_on [simp]: "inj_on total_key A"
  by (rule inj_onI) simp

end
