(* ===== verification/Matrix.thy ===== *)
theory Matrix
  imports Utf8_Text Float_Model
begin

text \<open>
  The fp16 embedding matrix (\<open>crates/storage/src/matrix.rs\<close>) and the error type of the storage
  crate (\<open>error.rs\<close>). The memory-mapped file is its byte content: a shared mapping and the file
  hold the same bytes, so \<open>mmap\<close> carries the content and whether it was mapped for writing, and the
  operations that reopen the file by path take those bytes. The interface \<open>row_matrix\<close> is what the
  chunk store relies on; it is interpreted on the byte-level operations.
\<close>

section \<open>Errors\<close>

datatype io_kind = InvalidInput | InvalidData | PermissionDenied | AlreadyExists | NotFound | IoOther

datatype integrity =
    Integrity_Ok (live_count: nat)
  | Broken (orphan_rows: "nat list") (missing_rows: "nat list") (duplicate_rows: "nat list")

datatype store_error =
    DimensionMismatch (expected_dims: nat) (got_dims: nat)
  | ModelMismatch (expected_model: string) (got_model: string)
  | SchemaVersion (expected_version: nat) (got_version: nat)
  | Corrupt integrity
  | Io io_kind string
  | Sqlite string

section \<open>Header\<close>

record matrix_header =
  h_magic :: bytes
  h_format_version :: nat
  h_dims :: nat
  h_rows :: nat
  h_model_id :: string

definition MATRIX_FORMAT_VERSION :: nat where "MATRIX_FORMAT_VERSION = 1"
definition MAGIC :: bytes where "MAGIC = ''SIFTEMB'' @ [char_of (0::nat)]"
definition MODEL_ID_CAPACITY :: nat where "MODEL_ID_CAPACITY = 256"
definition HEADER_SIZE :: nat where "HEADER_SIZE = 288"
definition GROW_BLOCK_ROWS :: nat where "GROW_BLOCK_ROWS = 1024"

lemmas matrix_consts = MATRIX_FORMAT_VERSION_def MODEL_ID_CAPACITY_def HEADER_SIZE_def GROW_BLOCK_ROWS_def

definition encode :: "matrix_header \<Rightarrow> (store_error, bytes) res" where
  "encode h =
     (if MODEL_ID_CAPACITY < length (h_model_id h)
      then Inl (Raise (Io InvalidInput ''model_id exceeds maximum length''))
      else let buf = replicate HEADER_SIZE (char_of (0::nat));
               buf = write_at 0 (h_magic h) buf;
               buf = write_at 8 (le_bytes 4 (h_format_version h)) buf;
               buf = write_at 12 (le_bytes 4 (h_dims h)) buf;
               buf = write_at 16 (le_bytes 8 (h_rows h)) buf;
               mid = h_model_id h;
               buf = write_at 24 (le_bytes 4 (length mid)) buf;
               buf = write_at 28 mid buf
           in Inr buf)"

definition no_integrity :: integrity where
  "no_integrity = Broken [] [] []"

definition decode :: "bytes \<Rightarrow> (store_error, matrix_header) res" where
  "decode bytes =
     (if length bytes < HEADER_SIZE then Inl (Raise (Corrupt no_integrity))
      else let magic = subslice 0 8 bytes in
      if magic \<noteq> MAGIC then Inl (Raise (Corrupt no_integrity))
      else let format_version = le_nat (subslice 8 12 bytes) in
      if format_version \<noteq> MATRIX_FORMAT_VERSION
      then Inl (Raise (SchemaVersion MATRIX_FORMAT_VERSION format_version))
      else let dims = le_nat (subslice 12 16 bytes);
               rows = le_nat (subslice 16 24 bytes);
               model_len = le_nat (subslice 24 28 bytes) in
      if MODEL_ID_CAPACITY < model_len then Inl (Raise (Corrupt no_integrity))
      else if \<not> valid_utf8 (subslice 28 (28 + model_len) bytes)
      then Inl (Raise (Io InvalidData ''model_id is not valid UTF-8''))
      else Inr \<lparr>h_magic = magic, h_format_version = format_version, h_dims = dims, h_rows = rows,
                h_model_id = subslice 28 (28 + model_len) bytes\<rparr>)"

text \<open>The headers the program builds: the fixed magic and version, fields within their widths.\<close>

definition header_ok :: "matrix_header \<Rightarrow> bool" where
  "header_ok h \<longleftrightarrow> h_magic h = MAGIC \<and> h_format_version h = MATRIX_FORMAT_VERSION \<and>
     h_dims h < 2 ^ 32 \<and> h_rows h < 2 ^ 64 \<and> length (h_model_id h) \<le> MODEL_ID_CAPACITY \<and>
     valid_utf8 (h_model_id h)"

lemma length_MAGIC [simp]: "length MAGIC = 8"
  by (simp add: MAGIC_def)

lemma encode_ok:
  assumes "header_ok h"
  obtains b where "encode h = Inr b" "length b = HEADER_SIZE"
proof -
  have "length (h_model_id h) \<le> 256" using assms by (simp add: header_ok_def matrix_consts)
  then show ?thesis using that assms
    by (auto simp: encode_def header_ok_def matrix_consts Let_def not_less)
qed

text \<open>Decoding reads back what encoding wrote, whatever follows the header in the file.\<close>

lemma decode_encode_append:
  assumes h: "header_ok h" and e: "encode h = Inr b"
  shows "decode (b @ rest) = Inr h"
proof -
  have l: "length (h_model_id h) \<le> 256" and d: "h_dims h < 2 ^ 32" and r: "h_rows h < 2 ^ 64"
    and v: "valid_utf8 (h_model_id h)"
    and mv: "h_magic h = MAGIC" "h_format_version h = 1"
    using h by (auto simp: header_ok_def matrix_consts)
  define m where "m = h_model_id h"
  define b5 where "b5 = write_at 16 (le_bytes 8 (h_rows h)) (write_at 12 (le_bytes 4 (h_dims h))
     (write_at 8 (le_bytes 4 1) (write_at 0 MAGIC (replicate 288 (char_of (0::nat))))))"
  define b6 where "b6 = write_at 24 (le_bytes 4 (length m)) b5"
  have b: "b = write_at 28 m b6"
    using e l mv by (auto simp: encode_def Let_def matrix_consts b5_def b6_def m_def)
  have L5: "length b5 = 288" by (simp add: b5_def)
  have L6: "length b6 = 288" by (simp add: b6_def L5)
  have L: "length b = 288" using l by (simp add: b L6 m_def)
  have s0: "take 8 b = MAGIC"
  proof -
    have "subslice 0 8 b = MAGIC"
      unfolding b b6_def b5_def
      by (simp add: subslice_write_at_before subslice_write_at_same [of 0 MAGIC _ 8, unfolded subslice_0] del: subslice_0)
    then show ?thesis by simp
  qed
  have s8: "subslice 8 12 b = le_bytes 4 1"
    unfolding b b6_def b5_def by (simp add: subslice_write_at_before)
  have s12: "subslice 12 16 b = le_bytes 4 (h_dims h)"
    unfolding b b6_def b5_def by (simp add: subslice_write_at_before)
  have s16: "subslice 16 24 b = le_bytes 8 (h_rows h)"
    unfolding b b6_def b5_def by (simp add: subslice_write_at_before)
  have s24: "subslice 24 28 b = le_bytes 4 (length m)"
    unfolding b b6_def by (simp add: subslice_write_at_before L5)
  have s28: "subslice 28 (28 + length m) b = m"
    unfolding b using l by (simp add: L6 m_def)
  have n: "le_nat (le_bytes 4 1) = 1" "le_nat (le_bytes 4 (h_dims h)) = h_dims h"
    "le_nat (le_bytes 8 (h_rows h)) = h_rows h" "le_nat (le_bytes 4 (length m)) = length m"
    using l d r by (simp_all add: m_def)
  have ap: "subslice i j (b @ rest) = subslice i j b" if "j \<le> 288" for i j
    using that by (simp add: subslice_append_left L)
  have s0': "subslice 0 8 (b @ rest) = MAGIC" using s0 ap [of 8 0] by simp
  have "length m \<le> 256" using l by (simp add: m_def)
  then show ?thesis
    by (simp add: decode_def Let_def matrix_consts L s0' [simplified] s0 ap s8 s12 s16 s24 s28 n v [folded m_def] mv
        flip: m_def)
qed

text \<open>A header that decodes is a header the program could have written.\<close>

lemma decode_header_ok: "decode bs = Inr h \<Longrightarrow> header_ok h"
proof -
  assume d: "decode bs = Inr h"
  have b4: "le_nat (subslice 12 16 bs) < 2 ^ 32"
    using le_nat_bound [of "subslice 12 16 bs"] power_increasing [of "length (subslice 12 16 bs)" 4 "256::nat"]
    by simp
  have b8: "le_nat (subslice 16 24 bs) < 2 ^ 64"
    using le_nat_bound [of "subslice 16 24 bs"] power_increasing [of "length (subslice 16 24 bs)" 8 "256::nat"]
    by simp
  show ?thesis using d b4 b8
    by (auto simp: decode_def Let_def header_ok_def matrix_consts split: if_splits)
qed

section \<open>Matrix operations\<close>

datatype mmap = MapRead bytes | MapWrite bytes

fun as_bytes :: "mmap \<Rightarrow> bytes" where
  "as_bytes (MapRead m) = m"
| "as_bytes (MapWrite m) = m"

fun as_bytes_mut :: "mmap \<Rightarrow> (store_error, bytes) res" where
  "as_bytes_mut (MapWrite m) = Inr m"
| "as_bytes_mut (MapRead m) = Inl (Raise (Io PermissionDenied ''matrix opened read-only''))"

record embedding_matrix =
  mx_header :: matrix_header
  mx_capacity_rows :: nat
  mx_map :: mmap

fun f16_slice_as_bytes :: "f16 list \<Rightarrow> bytes" where
  "f16_slice_as_bytes [] = []"
| "f16_slice_as_bytes (v # vs) = le_bytes 2 (unat v) @ f16_slice_as_bytes vs"

fun f16_of_bytes :: "bytes \<Rightarrow> f16 list" where
  "f16_of_bytes (a # b # r) = word_of_nat (le_nat [a, b]) # f16_of_bytes r"
| "f16_of_bytes _ = []"

definition bytes_as_f16_slice :: "bytes \<Rightarrow> (store_error, f16 list) res" where
  "bytes_as_f16_slice bs =
     (if even (length bs) then Inr (f16_of_bytes bs) else Inl (Panic ''bytes_as_f16_slice''))"

definition checked_slice :: "nat \<Rightarrow> nat \<Rightarrow> bytes \<Rightarrow> (store_error, bytes) res" where
  \<comment> \<open>Rust slicing: the range must lie inside the slice\<close>
  "checked_slice i j bs = (if i \<le> j \<and> j \<le> length bs then Inr (subslice i j bs) else Inl (Panic ''slice''))"

definition create :: "nat \<Rightarrow> string \<Rightarrow> (store_error, embedding_matrix) res" where
  "create dims model_id =
     (let header = \<lparr>h_magic = MAGIC, h_format_version = MATRIX_FORMAT_VERSION, h_dims = dims,
                    h_rows = 0, h_model_id = model_id\<rparr>;
          capacity_rows = GROW_BLOCK_ROWS;
          file = set_len (HEADER_SIZE + capacity_rows * dims * 2) []
      in bind_res (encode header) (\<lambda>encoded.
           Inr \<lparr>mx_header = header, mx_capacity_rows = capacity_rows,
                mx_map = MapWrite (write_at 0 encoded file)\<rparr>))"

definition file_capacity :: "matrix_header \<Rightarrow> bytes \<Rightarrow> nat" where
  "file_capacity header file =
     (if h_dims header = 0 then 0 else (length file - HEADER_SIZE) div (h_dims header * 2))"

definition open_read :: "bytes \<Rightarrow> (store_error, embedding_matrix) res" where
  "open_read file =
     bind_res (decode file) (\<lambda>header.
       Inr \<lparr>mx_header = header, mx_capacity_rows = file_capacity header file, mx_map = MapRead file\<rparr>)"

definition open_mut :: "bytes \<Rightarrow> (store_error, embedding_matrix) res" where
  "open_mut file =
     bind_res (decode file) (\<lambda>header.
       Inr \<lparr>mx_header = header, mx_capacity_rows = file_capacity header file, mx_map = MapWrite file\<rparr>)"

definition grow :: "embedding_matrix \<Rightarrow> embedding_matrix" where
  "grow m =
     (let new_capacity = mx_capacity_rows m + GROW_BLOCK_ROWS;
          file_len = HEADER_SIZE + new_capacity * h_dims (mx_header m) * 2
      in m\<lparr>mx_map := MapWrite (set_len file_len (as_bytes (mx_map m))),
           mx_capacity_rows := new_capacity\<rparr>)"

definition write_header :: "embedding_matrix \<Rightarrow> (store_error, embedding_matrix) res" where
  "write_header m =
     bind_res (encode (mx_header m)) (\<lambda>encoded.
     bind_res (as_bytes_mut (mx_map m)) (\<lambda>bytes.
       if length bytes < HEADER_SIZE then Inl (Panic ''write_header'')
       else Inr (m\<lparr>mx_map := MapWrite (write_at 0 encoded bytes)\<rparr>)))"

definition append_row :: "embedding_matrix \<Rightarrow> f16 list \<Rightarrow> (store_error, nat \<times> embedding_matrix) res" where
  "append_row m vector =
     (let dims = h_dims (mx_header m) in
      if length vector \<noteq> dims then Inl (Raise (DimensionMismatch dims (length vector mod 2 ^ 32)))
      else let m = (if mx_capacity_rows m \<le> h_rows (mx_header m) then grow m else m);
               row = h_rows (mx_header m);
               offset = HEADER_SIZE + row * dims * 2
      in bind_res (as_bytes_mut (mx_map m)) (\<lambda>bytes.
         if length bytes < offset + dims * 2 then Inl (Panic ''append'')
         else let m = m\<lparr>mx_map := MapWrite (write_at offset (f16_slice_as_bytes vector) bytes),
                        mx_header := (mx_header m)\<lparr>h_rows := row + 1\<rparr>\<rparr>
         in bind_res (write_header m) (\<lambda>m. Inr (row, m))))"

definition matrix_row :: "embedding_matrix \<Rightarrow> nat \<Rightarrow> (store_error, f16 list) res" where
  "matrix_row m r =
     (if h_rows (mx_header m) \<le> r then Inl (Raise (Io InvalidInput ''row out of range''))
      else let dims = h_dims (mx_header m); offset = HEADER_SIZE + r * dims * 2
      in bind_res (checked_slice offset (offset + dims * 2) (as_bytes (mx_map m))) bytes_as_f16_slice)"

definition as_slice :: "embedding_matrix \<Rightarrow> (store_error, f16 list) res" where
  "as_slice m =
     (let n = h_rows (mx_header m) * h_dims (mx_header m)
      in if n = 0 then Inr []
         else bind_res (checked_slice HEADER_SIZE (HEADER_SIZE + n * 2) (as_bytes (mx_map m)))
                bytes_as_f16_slice)"

definition matrix_dims :: "embedding_matrix \<Rightarrow> nat" where
  "matrix_dims m = h_dims (mx_header m)"

definition matrix_model_id :: "embedding_matrix \<Rightarrow> string" where
  "matrix_model_id m = h_model_id (mx_header m)"

definition matrix_rows :: "embedding_matrix \<Rightarrow> nat" where
  "matrix_rows m = h_rows (mx_header m)"

definition set_rows_for_test_corruption :: "embedding_matrix \<Rightarrow> nat \<Rightarrow> (store_error, embedding_matrix) res" where
  "set_rows_for_test_corruption m rows = write_header (m\<lparr>mx_header := (mx_header m)\<lparr>h_rows := rows\<rparr>\<rparr>)"

definition flush :: "embedding_matrix \<Rightarrow> (store_error, embedding_matrix) res" where
  "flush m = write_header m"

definition rewrite_header_on_disk :: "bytes \<Rightarrow> matrix_header \<Rightarrow> (store_error, bytes) res" where
  "rewrite_header_on_disk file header =
     bind_res (encode header) (\<lambda>encoded. Inr (write_at 0 encoded file))"

definition rewrite_header_for_test :: "bytes \<Rightarrow> nat \<Rightarrow> string \<Rightarrow> nat \<Rightarrow> (store_error, bytes) res" where
  "rewrite_header_for_test file dims model_id rows =
     rewrite_header_on_disk file \<lparr>h_magic = MAGIC, h_format_version = MATRIX_FORMAT_VERSION,
       h_dims = dims, h_rows = rows, h_model_id = model_id\<rparr>"

fun append_all :: "('m \<Rightarrow> 'v \<Rightarrow> ('e, nat \<times> 'm) res) \<Rightarrow> 'm \<Rightarrow> 'v list \<Rightarrow> ('e, 'm) res" where
  "append_all ap m [] = Inr m"
| "append_all ap m (v # vs) = bind_res (ap m v) (\<lambda>(_, m'). append_all ap m' vs)"

definition create_compacted :: "nat \<Rightarrow> string \<Rightarrow> f16 list list \<Rightarrow> (store_error, embedding_matrix) res" where
  "create_compacted dims model_id vectors =
     bind_res (create dims model_id) (\<lambda>m.
     bind_res (append_all append_row m vectors) (\<lambda>m.
     let used = HEADER_SIZE + h_rows (mx_header m) * dims * 2
     in bind_res (flush m) (\<lambda>m.
        Inr (m\<lparr>mx_map := MapWrite (set_len used (as_bytes (mx_map m))),
               mx_capacity_rows := h_rows (mx_header m)\<rparr>))))"

section \<open>Rows as half-precision vectors\<close>

lemma length_f16_slice_as_bytes [simp]: "length (f16_slice_as_bytes v) = 2 * length v"
  by (induction v) auto

lemma f16_le_bytes: "le_bytes 2 (unat (v :: f16)) = [char_of (unat v mod 256), char_of (unat v div 256 mod 256)]"
  by (simp add: numeral_2_eq_2)

lemma f16_of_slice_as_bytes [simp]: "f16_of_bytes (f16_slice_as_bytes v @ r) = v @ f16_of_bytes r"
proof (induction v)
  case (Cons a v)
  have lt: "unat a < 256 ^ 2" using unsigned_less [of a] by simp
  have "le_nat [char_of (unat a mod 256), char_of (unat a div 256 mod 256)] = unat a"
    using le_nat_le_bytes_id [OF lt] by (simp only: f16_le_bytes)
  then have "word_of_nat (le_nat [char_of (unat a mod 256), char_of (unat a div 256 mod 256)]) = a"
    by (simp only:) simp
  then show ?case using Cons by (simp only: f16_slice_as_bytes.simps f16_le_bytes append_Cons
      append_Nil f16_of_bytes.simps)
qed simp

lemma f16_roundtrip [simp]: "f16_of_bytes (f16_slice_as_bytes v) = v"
  using f16_of_slice_as_bytes [of v "[]"] by simp

lemma f16_of_bytes_append:
  "even (length xs) \<Longrightarrow> f16_of_bytes (xs @ ys) = f16_of_bytes xs @ f16_of_bytes ys"
  by (induction xs rule: f16_of_bytes.induct) auto

lemma length_f16_of_bytes: "length (f16_of_bytes bs) = length bs div 2"
  by (induction bs rule: f16_of_bytes.induct) auto

section \<open>Invariant and abstract view\<close>

text \<open>
  A matrix the program holds open for writing: its header is well formed and equal to the header
  bytes of the file, every row up to the capacity lies inside the file, and the rows in use fit the
  capacity. \<open>matrix_view\<close> is the list of its rows.
\<close>

definition matrix_inv :: "embedding_matrix \<Rightarrow> bool" where
  "matrix_inv m \<longleftrightarrow>
     header_ok (mx_header m) \<and>
     (case mx_map m of MapRead _ \<Rightarrow> False | MapWrite b \<Rightarrow>
        HEADER_SIZE \<le> length b \<and> encode (mx_header m) = Inr (take HEADER_SIZE b) \<and>
        HEADER_SIZE + mx_capacity_rows m * h_dims (mx_header m) * 2 \<le> length b) \<and>
     (0 < h_dims (mx_header m) \<longrightarrow> h_rows (mx_header m) \<le> mx_capacity_rows m)"

definition row_bytes :: "embedding_matrix \<Rightarrow> nat \<Rightarrow> bytes" where
  "row_bytes m r =
     (let dims = h_dims (mx_header m); offset = HEADER_SIZE + r * dims * 2
      in subslice offset (offset + dims * 2) (as_bytes (mx_map m)))"

definition matrix_view :: "embedding_matrix \<Rightarrow> f16 list list" where
  "matrix_view m = map (\<lambda>r. f16_of_bytes (row_bytes m r)) [0..<h_rows (mx_header m)]"

lemma length_matrix_view [simp]: "length (matrix_view m) = matrix_rows m"
  by (simp add: matrix_view_def matrix_rows_def)

lemma matrix_inv_row_range:
  assumes "matrix_inv m" "r < h_rows (mx_header m)"
  shows "HEADER_SIZE + r * h_dims (mx_header m) * 2 + h_dims (mx_header m) * 2 \<le> length (as_bytes (mx_map m))"
proof (cases "h_dims (mx_header m) = 0")
  case True
  then show ?thesis using assms by (auto simp: matrix_inv_def split: mmap.splits)
next
  case False
  then have "Suc r \<le> mx_capacity_rows m" using assms by (auto simp: matrix_inv_def)
  then have "Suc r * h_dims (mx_header m) \<le> mx_capacity_rows m * h_dims (mx_header m)"
    by (rule mult_le_mono1)
  then show ?thesis using assms(1) by (auto simp: matrix_inv_def split: mmap.splits)
qed

lemma row_matrix_view:
  assumes "matrix_inv m" "r < matrix_rows m"
  shows "matrix_row m r = Inr (matrix_view m ! r)"
  using assms matrix_inv_row_range [of m r]
  by (auto simp: matrix_row_def matrix_rows_def matrix_view_def row_bytes_def checked_slice_def
      bytes_as_f16_slice_def Let_def)

lemma grow_inv:
  assumes "matrix_inv m"
  shows "matrix_inv (grow m)" "matrix_view (grow m) = matrix_view m"
    "mx_header (grow m) = mx_header m" "h_rows (mx_header m) \<le> mx_capacity_rows m \<Longrightarrow>
     h_rows (mx_header m) < mx_capacity_rows (grow m)"
proof -
  obtain b where b: "mx_map m = MapWrite b" "HEADER_SIZE \<le> length b"
    "encode (mx_header m) = Inr (take HEADER_SIZE b)" and h: "header_ok (mx_header m)"
    "0 < h_dims (mx_header m) \<longrightarrow> h_rows (mx_header m) \<le> mx_capacity_rows m"
    using assms by (auto simp: matrix_inv_def split: mmap.splits)
  define n where "n = HEADER_SIZE + (mx_capacity_rows m + GROW_BLOCK_ROWS) * h_dims (mx_header m) * 2"
  have g: "grow m = m\<lparr>mx_map := MapWrite (set_len n b),
      mx_capacity_rows := mx_capacity_rows m + GROW_BLOCK_ROWS\<rparr>"
    by (simp add: grow_def b(1) n_def Let_def)
  have "take HEADER_SIZE (set_len n b) = take HEADER_SIZE b"
    using subslice_set_len [of HEADER_SIZE b n 0] b(2) by (simp add: n_def)
  then show "matrix_inv (grow m)"
    using h b by (auto simp: matrix_inv_def g n_def)
  show "mx_header (grow m) = mx_header m" by (simp add: g)
  show "matrix_view (grow m) = matrix_view m"
  proof (unfold matrix_view_def, simp add: g, intro ballI)
    fix r assume r: "r \<in> {0..<h_rows (mx_header m)}"
    have "HEADER_SIZE + r * h_dims (mx_header m) * 2 + h_dims (mx_header m) * 2 \<le> n"
    proof (cases "h_dims (mx_header m) = 0")
      case False
      then have "Suc r \<le> mx_capacity_rows m + GROW_BLOCK_ROWS" using r h(2) by simp
      then have "Suc r * h_dims (mx_header m) \<le> (mx_capacity_rows m + GROW_BLOCK_ROWS) * h_dims (mx_header m)"
        by (rule mult_le_mono1)
      then show ?thesis by (simp add: n_def)
    qed (simp add: n_def)
    moreover have "HEADER_SIZE + r * h_dims (mx_header m) * 2 + h_dims (mx_header m) * 2 \<le> length b"
      using matrix_inv_row_range [OF assms, of r] r b(1) by simp
    ultimately show "f16_of_bytes (row_bytes (m\<lparr>mx_map := MapWrite (set_len n b),
        mx_capacity_rows := mx_capacity_rows m + GROW_BLOCK_ROWS\<rparr>) r) = f16_of_bytes (row_bytes m r)"
      by (simp add: row_bytes_def Let_def b(1) subslice_set_len)
  qed
  show "h_rows (mx_header m) \<le> mx_capacity_rows m \<Longrightarrow> h_rows (mx_header m) < mx_capacity_rows (grow m)"
    by (simp add: g GROW_BLOCK_ROWS_def)
qed

section \<open>Appending\<close>

lemma header_ok_rows [simp]: "header_ok h \<Longrightarrow> n < 2 ^ 64 \<Longrightarrow> header_ok (h\<lparr>h_rows := n\<rparr>)"
  by (simp add: header_ok_def)

text \<open>Rewriting the header of a file leaves every byte after it in place.\<close>

lemma write_header_ok:
  assumes "header_ok (mx_header m)" "mx_map m = MapWrite b" "HEADER_SIZE \<le> length b"
  obtains e where "encode (mx_header m) = Inr e" "length e = HEADER_SIZE"
    "write_header m = Inr (m\<lparr>mx_map := MapWrite (write_at 0 e b)\<rparr>)"
    "length (write_at 0 e b) = length b" "take HEADER_SIZE (write_at 0 e b) = e"
    "\<And>i j. HEADER_SIZE \<le> i \<Longrightarrow> subslice i j (write_at 0 e b) = subslice i j b"
proof -
  obtain e where e: "encode (mx_header m) = Inr e" "length e = HEADER_SIZE"
    using assms(1) by (rule encode_ok)
  have "subslice i j (write_at 0 e b) = subslice i j b" if "HEADER_SIZE \<le> i" for i j
    using that assms(3) e(2) by (intro subslice_write_at_after) auto
  moreover have "take HEADER_SIZE (write_at 0 e b) = e"
    using e(2) by (simp add: write_at_def)
  ultimately show ?thesis
    using that [OF e] assms e by (simp add: write_header_def)
qed

lemma append_row_room:
  assumes inv: "matrix_inv m" and room: "h_rows (mx_header m) < mx_capacity_rows m"
    and len: "length v = h_dims (mx_header m)" and lim: "h_rows (mx_header m) + 1 < 2 ^ 64"
  shows "\<exists>m'. append_row m v = Inr (h_rows (mx_header m), m') \<and> matrix_inv m' \<and>
     mx_header m' = (mx_header m)\<lparr>h_rows := h_rows (mx_header m) + 1\<rparr> \<and>
     matrix_view m' = matrix_view m @ [v]"
proof -
  let ?h = "mx_header m" let ?d = "h_dims ?h" let ?n = "h_rows ?h"
  let ?o = "HEADER_SIZE + ?n * ?d * 2"
  obtain b where b: "mx_map m = MapWrite b" "HEADER_SIZE \<le> length b" and h: "header_ok ?h"
    and cap: "HEADER_SIZE + mx_capacity_rows m * ?d * 2 \<le> length b"
    using inv by (auto simp: matrix_inv_def split: mmap.splits)
  have "Suc ?n * ?d \<le> mx_capacity_rows m * ?d" using room by (intro mult_le_mono1) simp
  then have fit: "?o + ?d * 2 \<le> length b" using cap by simp
  define b1 where "b1 = write_at ?o (f16_slice_as_bytes v) b"
  have lb1: "length b1 = length b" using fit len by (simp add: b1_def)
  define m1 where "m1 = m\<lparr>mx_map := MapWrite b1, mx_header := ?h\<lparr>h_rows := ?n + 1\<rparr>\<rparr>"
  have h1: "header_ok (mx_header m1)" using h lim by (simp add: m1_def)
  obtain e where e: "encode (mx_header m1) = Inr e" "length e = HEADER_SIZE"
    "write_header m1 = Inr (m1\<lparr>mx_map := MapWrite (write_at 0 e b1)\<rparr>)"
    "length (write_at 0 e b1) = length b1" "take HEADER_SIZE (write_at 0 e b1) = e"
    "\<And>i j. HEADER_SIZE \<le> i \<Longrightarrow> subslice i j (write_at 0 e b1) = subslice i j b1"
    using write_header_ok [OF h1, of b1] b(2) lb1 by (auto simp: m1_def)
  define m2 where "m2 = m1\<lparr>mx_map := MapWrite (write_at 0 e b1)\<rparr>"
  have m1': "m\<lparr>mx_map := MapWrite b1, mx_header := ?h\<lparr>h_rows := Suc ?n\<rparr>\<rparr> = m1"
    by (simp add: m1_def)
  have a: "append_row m v = Inr (?n, m2)"
    using len room b(1) fit e(3)
    by (simp add: append_row_def Let_def m2_def m1' flip: b1_def)
  have old: "row_bytes m2 r = row_bytes m r" if "r < ?n" for r
  proof -
    have "Suc r * ?d \<le> ?n * ?d" using that by (intro mult_le_mono1) simp
    then have "subslice (HEADER_SIZE + r * ?d * 2) (HEADER_SIZE + r * ?d * 2 + ?d * 2) b1 =
        subslice (HEADER_SIZE + r * ?d * 2) (HEADER_SIZE + r * ?d * 2 + ?d * 2) b"
      using fit unfolding b1_def by (intro subslice_write_at_before) auto
    then show ?thesis
      by (simp add: row_bytes_def m2_def m1_def e(6) b(1) Let_def)
  qed
  have "subslice ?o (?o + ?d * 2) b1 = f16_slice_as_bytes v"
    using fit len unfolding b1_def by (intro subslice_write_at_same) auto
  then have new: "row_bytes m2 ?n = f16_slice_as_bytes v"
    by (simp add: row_bytes_def m2_def m1_def e(6) Let_def)
  have "matrix_view m2 = matrix_view m @ [v]"
    using old new by (simp add: matrix_view_def m2_def m1_def)
  moreover have "matrix_inv m2"
    using h1 b lb1 e cap room by (auto simp: matrix_inv_def m2_def m1_def)
  ultimately show ?thesis using a by (auto simp: m2_def m1_def)
qed

lemma append_row_ok:
  assumes inv: "matrix_inv m" and len: "length v = matrix_dims m" and lim: "matrix_rows m + 1 < 2 ^ 64"
  shows "\<exists>m'. append_row m v = Inr (matrix_rows m, m') \<and> matrix_inv m' \<and>
     mx_header m' = (mx_header m)\<lparr>h_rows := matrix_rows m + 1\<rparr> \<and>
     matrix_view m' = matrix_view m @ [v]"
proof (cases "h_rows (mx_header m) < mx_capacity_rows m")
  case True
  then show ?thesis using append_row_room [OF inv True] len lim
    by (simp add: matrix_dims_def matrix_rows_def)
next
  case False
  have eq: "append_row m v = append_row (grow m) v" if "h_rows (mx_header m) < mx_capacity_rows (grow m)"
    using False that by (simp add: append_row_def grow_inv(3) [OF inv] Let_def)
  show ?thesis
  proof (cases "h_dims (mx_header m) = 0")
    case False
    then have "h_rows (mx_header m) \<le> mx_capacity_rows m" using inv by (simp add: matrix_inv_def)
    then have r: "h_rows (mx_header m) < mx_capacity_rows (grow m)" by (rule grow_inv(4) [OF inv])
    then show ?thesis using append_row_room [OF grow_inv(1) [OF inv]] len lim eq
      by (simp add: grow_inv(2,3) [OF inv] matrix_dims_def matrix_rows_def)
  next
    case True
    \<comment> \<open>zero-width rows occupy no bytes, so the capacity bound is immaterial\<close>
    define g where "g = (grow m)\<lparr>mx_capacity_rows := h_rows (mx_header m) + 1\<rparr>"
    have "matrix_inv g" "mx_header g = mx_header m" "matrix_view g = matrix_view m"
      using grow_inv(1-3) [OF inv] True
      by (auto simp: g_def matrix_inv_def matrix_view_def row_bytes_def split: mmap.splits)
    then obtain m' where m': "append_row g v = Inr (h_rows (mx_header m), m')" "matrix_inv m'"
      "mx_header m' = (mx_header m)\<lparr>h_rows := h_rows (mx_header m) + 1\<rparr>"
      "matrix_view m' = matrix_view m @ [v]"
      using append_row_room [of g v] len lim by (auto simp: g_def matrix_dims_def matrix_rows_def)
    have "append_row m v = Inr (h_rows (mx_header m), m'\<lparr>mx_capacity_rows := mx_capacity_rows (grow m)\<rparr>)"
      using m'(1) False True
      by (auto simp: append_row_def g_def grow_inv(3) [OF inv] Let_def write_header_def
          bind_res_Inr_conv split: if_splits)
    moreover have "matrix_inv (m'\<lparr>mx_capacity_rows := mx_capacity_rows (grow m)\<rparr>)"
      using m'(2,3) True by (auto simp: matrix_inv_def split: mmap.splits)
    ultimately show ?thesis using m'(3,4)
      by (auto simp: matrix_rows_def matrix_view_def row_bytes_def)
  qed
qed

section \<open>Reopening and rolling back\<close>

text \<open>A matrix opened from the file of an open matrix has the same header and the same rows.\<close>

lemma open_mut_file:
  assumes "matrix_inv m"
  shows "\<exists>m'. open_mut (as_bytes (mx_map m)) = Inr m' \<and> mx_header m' = mx_header m \<and>
     as_bytes (mx_map m') = as_bytes (mx_map m) \<and> matrix_inv m' \<and> matrix_view m' = matrix_view m"
proof -
  let ?h = "mx_header m"
  obtain b where b: "mx_map m = MapWrite b" "HEADER_SIZE \<le> length b"
    "encode ?h = Inr (take HEADER_SIZE b)" and h: "header_ok ?h"
    and cap: "HEADER_SIZE + mx_capacity_rows m * h_dims ?h * 2 \<le> length b"
    and rc: "0 < h_dims ?h \<longrightarrow> h_rows ?h \<le> mx_capacity_rows m"
    using assms by (auto simp: matrix_inv_def split: mmap.splits)
  have d: "decode b = Inr ?h"
    using decode_encode_append [OF h b(3), of "drop HEADER_SIZE b"] by simp
  define m' where "m' = \<lparr>mx_header = ?h, mx_capacity_rows = file_capacity ?h b, mx_map = MapWrite b\<rparr>"
  have o: "open_mut (as_bytes (mx_map m)) = Inr m'" by (simp add: open_mut_def b(1) d m'_def)
  have fc: "HEADER_SIZE + file_capacity ?h b * h_dims ?h * 2 \<le> length b"
  proof -
    have "(length b - HEADER_SIZE) div (h_dims ?h * 2) * (h_dims ?h * 2) \<le> length b - HEADER_SIZE"
      by simp
    then show ?thesis using b(2) by (auto simp: file_capacity_def ac_simps)
  qed
  have "h_rows ?h \<le> file_capacity ?h b" if "0 < h_dims ?h"
  proof -
    have "mx_capacity_rows m * (h_dims ?h * 2) \<le> length b - HEADER_SIZE"
      using cap b(2) by (simp add: ac_simps)
    then have "mx_capacity_rows m \<le> (length b - HEADER_SIZE) div (h_dims ?h * 2)"
      using that by (simp add: less_eq_div_iff_mult_less_eq)
    then show ?thesis using that rc by (simp add: file_capacity_def)
  qed
  then have "matrix_inv m'" using b h fc by (simp add: matrix_inv_def m'_def)
  then show ?thesis using o
    by (auto simp: m'_def matrix_view_def row_bytes_def b(1))
qed

text \<open>
  Rewriting the header on disk with a smaller row count and reopening drops exactly the rows from
  that count on: this is how the store rolls a failed batch back and reclaims trailing rows.
\<close>

lemma truncate_rows:
  assumes inv: "matrix_inv m" and n: "n \<le> matrix_rows m"
  shows "\<exists>f m'. rewrite_header_on_disk (as_bytes (mx_map m)) ((mx_header m)\<lparr>h_rows := n\<rparr>) = Inr f \<and>
     open_mut f = Inr m' \<and> matrix_inv m' \<and> mx_header m' = (mx_header m)\<lparr>h_rows := n\<rparr> \<and>
     matrix_view m' = take n (matrix_view m)"
proof -
  define m1 where "m1 = m\<lparr>mx_header := (mx_header m)\<lparr>h_rows := n\<rparr>\<rparr>"
  obtain b where b: "mx_map m = MapWrite b" "HEADER_SIZE \<le> length b" and h: "header_ok (mx_header m)"
    using inv by (auto simp: matrix_inv_def split: mmap.splits)
  have h1: "header_ok (mx_header m1)"
    using h n by (auto simp: m1_def header_ok_def matrix_rows_def)
  obtain e where e: "encode (mx_header m1) = Inr e" "length e = HEADER_SIZE"
    "write_header m1 = Inr (m1\<lparr>mx_map := MapWrite (write_at 0 e b)\<rparr>)"
    "length (write_at 0 e b) = length b" "take HEADER_SIZE (write_at 0 e b) = e"
    "\<And>i j. HEADER_SIZE \<le> i \<Longrightarrow> subslice i j (write_at 0 e b) = subslice i j b"
    using write_header_ok [OF h1, of b] b by (auto simp: m1_def)
  define m2 where "m2 = m1\<lparr>mx_map := MapWrite (write_at 0 e b)\<rparr>"
  have inv2: "matrix_inv m2"
    using inv h1 e n b by (auto simp: matrix_inv_def m2_def m1_def matrix_rows_def split: mmap.splits)
  have "matrix_view m2 = take n (matrix_view m)"
    using n by (auto simp: matrix_view_def m2_def m1_def row_bytes_def Let_def e(6) b(1)
        matrix_rows_def take_map)
  moreover have "rewrite_header_on_disk (as_bytes (mx_map m)) ((mx_header m)\<lparr>h_rows := n\<rparr>) =
      Inr (as_bytes (mx_map m2))"
    using e(1) by (simp add: rewrite_header_on_disk_def b(1) m2_def m1_def)
  ultimately show ?thesis
    using open_mut_file [OF inv2] by (auto simp: m2_def m1_def)
qed

text \<open>Cutting the file after the last row in use keeps every row.\<close>

lemma open_truncated:
  assumes inv: "matrix_inv m"
  shows "\<exists>m'. open_mut (set_len (HEADER_SIZE + matrix_rows m * matrix_dims m * 2) (as_bytes (mx_map m))) = Inr m' \<and>
     matrix_inv m' \<and> mx_header m' = mx_header m \<and> matrix_view m' = matrix_view m"
proof -
  let ?h = "mx_header m" and ?n = "HEADER_SIZE + matrix_rows m * matrix_dims m * 2"
  obtain b where b: "mx_map m = MapWrite b" "HEADER_SIZE \<le> length b" "encode ?h = Inr (take HEADER_SIZE b)"
    and cap: "HEADER_SIZE + mx_capacity_rows m * h_dims ?h * 2 \<le> length b" and h: "header_ok ?h"
    and rc: "0 < h_dims ?h \<Longrightarrow> h_rows ?h \<le> mx_capacity_rows m"
    using inv by (auto simp: matrix_inv_def split: mmap.splits)
  have n: "?n \<le> length b"
  proof (cases "h_dims ?h = 0")
    case False
    then have "h_rows ?h * h_dims ?h \<le> mx_capacity_rows m * h_dims ?h" using rc by simp
    then show ?thesis using cap unfolding matrix_rows_def matrix_dims_def by linarith
  qed (use b in \<open>simp add: matrix_dims_def\<close>)
  define m1 where "m1 = m\<lparr>mx_map := MapWrite (set_len ?n b), mx_capacity_rows := matrix_rows m\<rparr>"
  have "take HEADER_SIZE (set_len ?n b) = take HEADER_SIZE b"
    using b(2) by (simp add: set_len_def min_def)
  then have inv1: "matrix_inv m1"
    using h b n by (auto simp: matrix_inv_def m1_def matrix_rows_def matrix_dims_def)
  have "row_bytes m1 r = row_bytes m r" if r: "r < h_rows ?h" for r
  proof -
    have "Suc r * h_dims ?h \<le> h_rows ?h * h_dims ?h" using r by (intro mult_right_mono) auto
    then have "HEADER_SIZE + r * h_dims ?h * 2 + h_dims ?h * 2 \<le> ?n"
      by (simp add: matrix_rows_def matrix_dims_def)
    then show ?thesis using n by (simp add: row_bytes_def Let_def m1_def b(1) subslice_set_len)
  qed
  then have "matrix_view m1 = matrix_view m" by (auto simp: matrix_view_def m1_def)
  then show ?thesis using open_mut_file [OF inv1] by (auto simp: m1_def b(1))
qed

lemma create_ok:
  assumes "dims < 2 ^ 32" "length model \<le> MODEL_ID_CAPACITY" "valid_utf8 model"
  shows "\<exists>m. create dims model = Inr m \<and> matrix_inv m \<and> matrix_view m = [] \<and>
     matrix_dims m = dims \<and> matrix_model_id m = model \<and> matrix_rows m = 0"
proof -
  define h where "h = \<lparr>h_magic = MAGIC, h_format_version = MATRIX_FORMAT_VERSION, h_dims = dims,
      h_rows = 0, h_model_id = model\<rparr>"
  have h: "header_ok h" using assms by (simp add: header_ok_def h_def)
  obtain e where e: "encode h = Inr e" "length e = HEADER_SIZE" using h by (rule encode_ok)
  let ?f = "set_len (HEADER_SIZE + GROW_BLOCK_ROWS * dims * 2) []"
  have "take HEADER_SIZE (write_at 0 e ?f) = e" using e(2) by (simp add: write_at_def)
  then show ?thesis using h e
    by (auto simp: create_def Let_def h_def matrix_inv_def matrix_view_def matrix_dims_def
        matrix_model_id_def matrix_rows_def)
qed

section \<open>The row-matrix interface\<close>

text \<open>
  What the chunk store relies on: appending a vector of the right width returns the next row number,
  extends the view by that vector and changes nothing else, and reading returns the view. \<open>lim\<close> bounds
  the row count (the header stores it in 64 bits).
\<close>

locale row_matrix =
  fixes ap :: "'m \<Rightarrow> 'v \<Rightarrow> ('e, nat \<times> 'm) res"
    and rd :: "'m \<Rightarrow> nat \<Rightarrow> ('e, 'v) res"
    and view :: "'m \<Rightarrow> 'v list"
    and inv :: "'m \<Rightarrow> bool"
    and fits :: "'m \<Rightarrow> 'v \<Rightarrow> bool"
    and lim :: nat
  assumes ap_ok: "inv m \<Longrightarrow> fits m v \<Longrightarrow> length (view m) + 1 < lim \<Longrightarrow>
      \<exists>m'. ap m v = Inr (length (view m), m') \<and> inv m' \<and> view m' = view m @ [v] \<and> fits m' = fits m"
    and rd_ok: "inv m \<Longrightarrow> r < length (view m) \<Longrightarrow> rd m r = Inr (view m ! r)"
begin

lemma append_all_ok:
  assumes "inv m" "\<forall>v \<in> set vs. fits m v" "length (view m) + length vs < lim"
  shows "\<exists>m'. append_all ap m vs = Inr m' \<and> inv m' \<and> view m' = view m @ vs \<and> fits m' = fits m"
  using assms
proof (induction vs arbitrary: m)
  case (Cons v vs)
  have "length (view m) + 1 < lim" using Cons.prems(3) by simp
  then obtain m1 where m1: "ap m v = Inr (length (view m), m1)" "inv m1" "view m1 = view m @ [v]"
    "fits m1 = fits m" using ap_ok [OF Cons.prems(1)] Cons.prems(2) by auto
  have "length (view m1) + length vs < lim" using Cons.prems(3) m1(3) by simp
  then obtain m' where "append_all ap m1 vs = Inr m'" "inv m'" "view m' = view m1 @ vs" "fits m' = fits m1"
    using Cons.IH [OF m1(2)] Cons.prems(2) m1(4) by auto
  then show ?case using m1 by auto
qed simp

lemma append_keeps_rows:
  assumes "inv m" "fits m v" "length (view m) + 1 < lim" "ap m v = Inr (n, m')" "r < length (view m)"
  shows "rd m' r = rd m r"
  using ap_ok [OF assms(1-3)] assms(1,4,5) by (auto simp: rd_ok nth_append)

end

interpretation mx: row_matrix append_row matrix_row matrix_view matrix_inv
  "\<lambda>m v. length v = matrix_dims m" "2 ^ 64"
proof
  fix m :: embedding_matrix and v :: "f16 list"
  assume "matrix_inv m" "length v = matrix_dims m" "length (matrix_view m) + 1 < 2 ^ 64"
  then show "\<exists>m'. append_row m v = Inr (length (matrix_view m), m') \<and> matrix_inv m' \<and>
      matrix_view m' = matrix_view m @ [v] \<and>
      (\<lambda>v. length v = matrix_dims m') = (\<lambda>v. length v = matrix_dims m)"
    using append_row_ok [of m v] by (fastforce simp: matrix_dims_def)
next
  fix m :: embedding_matrix and r
  assume "matrix_inv m" "r < length (matrix_view m)"
  then show "matrix_row m r = Inr (matrix_view m ! r)" by (simp add: row_matrix_view)
qed

end
