(* ===== verification/Store.thy ===== *)
theory Store
  imports Matrix
begin

text \<open>
  The chunk store (\<open>crates/storage/src/store.rs\<close>, \<open>record.rs\<close>): a SQLite database of chunk metadata
  beside the embedding matrix, both named by a manifest file.

  A SQLite table is the list of its rows in rowid order and the SQL statements of the source are
  functions on that list; rowids stay below \<open>2 ^ 63\<close>, so the \<open>u64\<close>/\<open>i64\<close> casts around them are the
  identity. The store's directory is a map from file names to contents. An open store holds the
  database and the matrix it writes through, and \<open>disk_of\<close> is the directory with both written back,
  which is what a process that opens the directory later finds. Operations with \<open>&mut self\<close> return
  the new store beside their result, because an error may come with a changed store.
\<close>

section \<open>Data\<close>

type_synonym content_hash = bytes

record chunk_record =
  rec_repository :: string
  rec_file :: string
  rec_language :: string
  rec_symbol :: string
  rec_symbol_type :: string
  rec_signature :: string
  rec_doc_first_line :: "string option"
  rec_line_start :: nat
  rec_line_end :: nat
  rec_content_hash :: content_hash

record chunk_row =
  cr_rowid :: nat
  cr_rec :: chunk_record
  cr_live :: bool

record sqlite_db =
  db_chunks :: "chunk_row list"
  db_meta :: "string \<rightharpoonup> string"

datatype store_file = DbFile sqlite_db | RawFile bytes

type_synonym store_dir = "string \<rightharpoonup> store_file"

record store_stats =
  st_live :: nat
  st_dead :: nat
  st_dead_fraction :: f64

record compaction_report =
  live_before :: nat
  dead_reclaimed :: nat
  live_after :: nat
  row_mapping :: "(nat \<times> nat) list"

record chunk_store =
  cs_dir :: store_dir
  cs_db_path :: string
  cs_conn :: sqlite_db
  cs_matrix_path :: string
  cs_matrix :: "embedding_matrix option"
  cs_statements_prepared :: nat
  cs_fail_before_commit :: bool

definition SCHEMA_VERSION :: nat where "SCHEMA_VERSION = 1"
definition DB_NAME :: string where "DB_NAME = ''chunks.db''"
definition MATRIX_NAME :: string where "MATRIX_NAME = ''embeddings.f16''"
definition MANIFEST_NAME :: string where "MANIFEST_NAME = ''store.manifest''"

lemmas store_consts = SCHEMA_VERSION_def DB_NAME_def MATRIX_NAME_def MANIFEST_NAME_def

definition disk_of :: "chunk_store \<Rightarrow> store_dir" where
  "disk_of s =
     (let dir = (cs_dir s)(cs_db_path s \<mapsto> DbFile (cs_conn s))
      in case cs_matrix s of None \<Rightarrow> dir
         | Some m \<Rightarrow> dir(cs_matrix_path s \<mapsto> RawFile (as_bytes (mx_map m))))"

section \<open>The manifest\<close>

datatype component = RootDir | CurDir | ParentDir | Normal string

text \<open>\<open>Path::components\<close> on Unix: empty pieces and inner \<open>.\<close> pieces disappear.\<close>

definition path_component :: "string \<Rightarrow> component" where
  "path_component p = (if p = ''.'' then CurDir else if p = ''..'' then ParentDir else Normal p)"

definition path_has_root :: "string \<Rightarrow> bool" where
  "path_has_root p = starts_with ''/'' p"

definition path_components :: "string \<Rightarrow> component list" where
  "path_components p =
     (let pieces = split_on (CHR ''/'') p;
          body = map path_component (filter (\<lambda>x. x \<noteq> [] \<and> x \<noteq> ''.'') pieces)
      in if path_has_root p then RootDir # body
         else if hd pieces = ''.'' then CurDir # body else body)"

definition invalid_manifest :: "string \<Rightarrow> string \<Rightarrow> store_error" where
  "invalid_manifest field detail =
     Io InvalidData (''invalid store manifest '' @ field @ '': '' @ detail)"

definition manifest_name :: "string option \<Rightarrow> string \<Rightarrow> (store_error, string) res" where
  "manifest_name value field =
     (case value of None \<Rightarrow> Inl (Raise (invalid_manifest field ''missing value''))
      | Some value \<Rightarrow>
        if value = [] \<or> length (path_components value) \<noteq> 1 \<or> path_has_root value \<or>
           \<not> (case path_components value of Normal _ # _ \<Rightarrow> True | _ \<Rightarrow> False)
        then Inl (Raise (invalid_manifest field ''value must be a relative filename''))
        else Inr value)"

fun manifest_fields :: "string list \<Rightarrow> string option \<Rightarrow> string option \<Rightarrow> string option \<times> string option" where
  "manifest_fields [] db matrix = (db, matrix)"
| "manifest_fields (line # ls) db matrix =
     (case strip_prefix ''db='' line of
        Some value \<Rightarrow> manifest_fields ls (Some value) matrix
      | None \<Rightarrow> (case strip_prefix ''matrix='' line of
          Some value \<Rightarrow> manifest_fields ls db (Some value)
        | None \<Rightarrow> manifest_fields ls db matrix))"

definition active_paths :: "store_dir \<Rightarrow> (store_error, string \<times> string) res" where
  "active_paths dir =
     (case dir MANIFEST_NAME of
        None \<Rightarrow> Inr (DB_NAME, MATRIX_NAME)
      | Some (DbFile _) \<Rightarrow> Inl (Raise (Io InvalidData ''stream did not contain valid UTF-8''))
      | Some (RawFile text) \<Rightarrow>
        if \<not> valid_utf8 text then Inl (Raise (Io InvalidData ''stream did not contain valid UTF-8''))
        else if ''version=1'' \<notin> set (lines text)
        then Inl (Raise (invalid_manifest ''version'' ''unsupported or missing version''))
        else let (db, matrix) = manifest_fields (lines text) None None
        in bind_res (manifest_name db ''db'') (\<lambda>db.
           bind_res (manifest_name matrix ''matrix'') (\<lambda>matrix. Inr (db, matrix))))"

definition active_paths_without_manifest :: "store_dir \<Rightarrow> string \<Rightarrow> (store_error, string \<times> string) res" where
  "active_paths_without_manifest dir matrix_path =
     bind_res (active_paths dir) (\<lambda>(db, _). Inr (db, matrix_path))"

definition manifest_text :: "string \<Rightarrow> string \<Rightarrow> string" where
  "manifest_text db matrix =
     ''version=1'' @ [newline] @ ''db='' @ db @ [newline] @ ''matrix='' @ matrix @ [newline]"

definition publish_manifest :: "string \<Rightarrow> string \<Rightarrow> store_dir \<Rightarrow> store_dir" where
  \<comment> \<open>written to a temporary file, then renamed over the manifest\<close>
  "publish_manifest db matrix dir = dir(MANIFEST_NAME \<mapsto> RawFile (manifest_text db matrix))"

section \<open>The metadata database\<close>

definition set_meta :: "string \<Rightarrow> string \<Rightarrow> sqlite_db \<Rightarrow> sqlite_db" where
  "set_meta key value db = db\<lparr>db_meta := (db_meta db)(key \<mapsto> value)\<rparr>"

definition meta_u32 :: "sqlite_db \<Rightarrow> string \<Rightarrow> (store_error, nat) res" where
  "meta_u32 db key =
     (case db_meta db key of
        None \<Rightarrow> Inl (Raise (Sqlite ''Query returned no rows''))
      | Some s \<Rightarrow> (case parse_uint (2 ^ 32) s of
          None \<Rightarrow> Inl (Raise (Io InvalidData (''meta '' @ key @ '': invalid digit'')))
        | Some n \<Rightarrow> Inr n))"

definition init_schema :: sqlite_db where
  "init_schema = \<lparr>db_chunks = [], db_meta = Map.empty\<rparr>"

definition live_hashes :: "chunk_row list \<Rightarrow> content_hash list" where
  "live_hashes cs = map (rec_content_hash \<circ> cr_rec) (filter cr_live cs)"

text \<open>The primary key and the unique index on the hashes of live rows reject a conflicting row.\<close>

definition insert_chunk :: "sqlite_db \<Rightarrow> nat \<Rightarrow> chunk_record \<Rightarrow> (store_error, sqlite_db) res" where
  "insert_chunk db row rec =
     (if row \<in> set (map cr_rowid (db_chunks db))
      then Inl (Raise (Sqlite ''UNIQUE constraint failed: chunks.rowid''))
      else if rec_content_hash rec \<in> set (live_hashes (db_chunks db))
      then Inl (Raise (Sqlite ''UNIQUE constraint failed: chunks.content_hash''))
      else Inr (db\<lparr>db_chunks := insort_key cr_rowid
                     \<lparr>cr_rowid = row, cr_rec = rec, cr_live = True\<rparr> (db_chunks db)\<rparr>))"

fun insert_chunks :: "sqlite_db \<Rightarrow> (nat \<times> chunk_record) list \<Rightarrow> (store_error, sqlite_db) res" where
  "insert_chunks db [] = Inr db"
| "insert_chunks db ((row, rec) # rs) = bind_res (insert_chunk db row rec) (\<lambda>db. insert_chunks db rs)"

definition blob_to_hash :: "bytes \<Rightarrow> content_hash" where
  "blob_to_hash blob =
     (let n = min (length blob) 32
      in write_at 0 (take n blob) (replicate 32 (char_of (0::nat))))"

definition row_to_record :: "chunk_row \<Rightarrow> chunk_record" where
  "row_to_record c = (cr_rec c)\<lparr>rec_content_hash := blob_to_hash (rec_content_hash (cr_rec c))\<rparr>"

definition count_rowid :: "sqlite_db \<Rightarrow> nat \<Rightarrow> nat" where
  "count_rowid db i = length (filter (\<lambda>c. cr_rowid c = i) (db_chunks db))"

definition max_rowid :: "sqlite_db \<Rightarrow> nat option" where
  "max_rowid db = (case map cr_rowid (db_chunks db) of [] \<Rightarrow> None | r # rs \<Rightarrow> Some (foldr max rs r))"

definition first_row :: "(chunk_row \<Rightarrow> bool) \<Rightarrow> sqlite_db \<Rightarrow> chunk_row option" where
  "first_row P db = (case filter P (db_chunks db) of [] \<Rightarrow> None | c # _ \<Rightarrow> Some c)"

definition get_row :: "chunk_store \<Rightarrow> nat \<Rightarrow> chunk_record option" where
  "get_row s r = map_option row_to_record
     (first_row (\<lambda>c. cr_rowid c = r \<and> cr_live c) (cs_conn s))"

text \<open>The join of the requested ids with the live chunks, in request order; the last match of an id
  is what its slot of the output holds.\<close>

definition join_ids :: "sqlite_db \<Rightarrow> nat list \<Rightarrow> (nat \<times> chunk_record option) list" where
  "join_ids db rows = concat (map (\<lambda>(ord, r).
     (case filter (\<lambda>c. cr_rowid c = r \<and> cr_live c) (db_chunks db) of
        [] \<Rightarrow> [(ord, None)]
      | cs \<Rightarrow> map (\<lambda>c. (ord, Some (row_to_record c))) cs)) (enumerate 0 rows))"

definition get_many :: "chunk_store \<Rightarrow> nat list \<Rightarrow> chunk_record option list \<times> chunk_store" where
  "get_many s rows =
     (fold (\<lambda>(ord, present) out. case present of None \<Rightarrow> out | Some rec \<Rightarrow> out[ord := Some rec])
        (join_ids (cs_conn s) rows) (replicate (length rows) None),
      s\<lparr>cs_statements_prepared := cs_statements_prepared s + 3\<rparr>)"

definition get_by_hash_db :: "sqlite_db \<Rightarrow> content_hash \<Rightarrow> (nat \<times> chunk_record) option" where
  "get_by_hash_db db hash = map_option (\<lambda>c. (cr_rowid c, row_to_record c))
     (first_row (\<lambda>c. rec_content_hash (cr_rec c) = hash \<and> cr_live c) db)"

definition get_by_hash :: "chunk_store \<Rightarrow> content_hash \<Rightarrow> (nat \<times> chunk_record) option" where
  "get_by_hash s hash = get_by_hash_db (cs_conn s) hash"

definition rows_for_file :: "chunk_store \<Rightarrow> string \<Rightarrow> nat list" where
  "rows_for_file s file = map cr_rowid
     (filter (\<lambda>c. rec_file (cr_rec c) = file \<and> cr_live c) (db_chunks (cs_conn s)))"

definition live_rows :: "chunk_store \<Rightarrow> nat list" where
  "live_rows s = map cr_rowid (filter cr_live (db_chunks (cs_conn s)))"

definition tombstone_row :: "nat \<Rightarrow> sqlite_db \<Rightarrow> sqlite_db" where
  "tombstone_row r db = db\<lparr>db_chunks :=
     map (\<lambda>c. if cr_rowid c = r \<and> cr_live c then c\<lparr>cr_live := False\<rparr> else c) (db_chunks db)\<rparr>"

definition tombstone :: "chunk_store \<Rightarrow> nat list \<Rightarrow> chunk_store" where
  "tombstone s rows = s\<lparr>cs_conn := fold tombstone_row rows (cs_conn s)\<rparr>"

definition rekey_row :: "string \<Rightarrow> string \<Rightarrow> chunk_row \<Rightarrow> chunk_row" where
  "rekey_row from to c =
     (if rec_file (cr_rec c) = from \<and> cr_live c
      then c\<lparr>cr_rec := (cr_rec c)\<lparr>rec_file := to\<rparr>\<rparr> else c)"

definition rekey_file :: "chunk_store \<Rightarrow> string \<Rightarrow> string \<Rightarrow> nat \<times> chunk_store" where
  "rekey_file s from to =
     (let n = length (filter (\<lambda>c. rec_file (cr_rec c) = from \<and> cr_live c) (db_chunks (cs_conn s)))
      in (n, s\<lparr>cs_conn := (cs_conn s)\<lparr>db_chunks := map (rekey_row from to) (db_chunks (cs_conn s))\<rparr>\<rparr>))"

definition stats_db :: "sqlite_db \<Rightarrow> store_stats" where
  "stats_db db =
     (let live = length (filter cr_live (db_chunks db));
          dead = length (filter (\<lambda>c. \<not> cr_live c) (db_chunks db));
          total = live + dead
      in \<lparr>st_live = live, st_dead = dead,
          st_dead_fraction = (if total = 0 then 0 else f64_div (f64_of_nat dead) (f64_of_nat total))\<rparr>)"

definition stats :: "chunk_store \<Rightarrow> store_stats" where
  "stats s = stats_db (cs_conn s)"

section \<open>Store operations\<close>

definition matrix_ref :: "chunk_store \<Rightarrow> (store_error, embedding_matrix) res" where
  "matrix_ref s = (case cs_matrix s of None \<Rightarrow> Inl (Panic ''matrix present'') | Some m \<Rightarrow> Inr m)"

definition verify :: "chunk_store \<Rightarrow> (store_error, integrity) res" where
  "verify s = bind_res (matrix_ref s) (\<lambda>m.
     let db = cs_conn s;
         rows = [0..<matrix_rows m];
         orphan_rows = filter (\<lambda>i. count_rowid db i = 0) rows;
         duplicate_rows = filter (\<lambda>i. 1 < count_rowid db i) rows;
         missing_rows = filter (\<lambda>i. matrix_rows m \<le> i) (map cr_rowid (db_chunks db));
         hashes = live_hashes (db_chunks db);
         same_hash = map cr_rowid (filter (\<lambda>c. cr_live c \<and>
             1 < length (filter (\<lambda>h. h = rec_content_hash (cr_rec c)) hashes)) (db_chunks db));
         duplicate_rows = fold (\<lambda>r ds. if r \<in> set ds then ds else ds @ [r]) same_hash duplicate_rows
     in Inr (if orphan_rows = [] \<and> missing_rows = [] \<and> duplicate_rows = []
             then Integrity_Ok (st_live (stats s))
             else Broken (sort orphan_rows) (sort missing_rows) (sort duplicate_rows)))"

definition reclaim_trailing_orphans :: "chunk_store \<Rightarrow> (store_error, chunk_store) res" where
  "reclaim_trailing_orphans s =
     (let meta_count = length (db_chunks (cs_conn s));
          expected_rows = (case max_rowid (cs_conn s) of None \<Rightarrow> 0 | Some mx \<Rightarrow> mx + 1)
      in if meta_count \<noteq> expected_rows then Inr s
         else bind_res (matrix_ref s) (\<lambda>m.
           if matrix_rows m \<le> expected_rows then Inr s
           else if \<not> list_all (\<lambda>i. count_rowid (cs_conn s) i = 1) [0..<expected_rows] then Inr s
           else bind_res (rewrite_header_on_disk (as_bytes (mx_map m))
                  ((mx_header m)\<lparr>h_rows := expected_rows\<rparr>)) (\<lambda>file.
                bind_res (open_mut file) (\<lambda>m. Inr (s\<lparr>cs_matrix := Some m\<rparr>)))))"

definition store_create :: "store_dir \<Rightarrow> nat \<Rightarrow> string \<Rightarrow> (store_error, chunk_store) res" where
  "store_create dir dims model_id =
     (if dir DB_NAME \<noteq> None \<or> dir MATRIX_NAME \<noteq> None
      then Inl (Raise (Io AlreadyExists ''store directory is not empty''))
      else bind_res (create dims model_id) (\<lambda>matrix.
        let conn = set_meta ''schema_version'' (show_nat SCHEMA_VERSION) init_schema
        in Inr \<lparr>cs_dir = dir, cs_db_path = DB_NAME, cs_conn = conn, cs_matrix_path = MATRIX_NAME,
                cs_matrix = Some matrix, cs_statements_prepared = 0, cs_fail_before_commit = False\<rparr>))"

definition connection_open :: "store_dir \<Rightarrow> string \<Rightarrow> (store_error, sqlite_db) res" where
  "connection_open dir name =
     (case dir name of
        Some (DbFile db) \<Rightarrow> Inr db
      | Some (RawFile _) \<Rightarrow> Inl (Raise (Sqlite ''file is not a database''))
      | None \<Rightarrow> Inl (Raise (Sqlite ''no such table: meta'')))"

definition matrix_open_mut :: "store_dir \<Rightarrow> string \<Rightarrow> (store_error, embedding_matrix) res" where
  "matrix_open_mut dir name =
     (case dir name of
        Some (RawFile bytes) \<Rightarrow> open_mut bytes
      | Some (DbFile _) \<Rightarrow> Inl (Raise (Corrupt no_integrity))
      | None \<Rightarrow> Inl (Raise (Io NotFound ''No such file or directory'')))"

definition store_open :: "store_dir \<Rightarrow> (store_error, chunk_store) res" where
  "store_open dir =
     bind_res (active_paths dir) (\<lambda>(db_path, matrix_path).
     bind_res (connection_open dir db_path) (\<lambda>conn.
     bind_res (meta_u32 conn ''schema_version'') (\<lambda>version.
     if version \<noteq> SCHEMA_VERSION then Inl (Raise (SchemaVersion SCHEMA_VERSION version))
     else bind_res (matrix_open_mut dir matrix_path) (\<lambda>matrix.
     let store = \<lparr>cs_dir = dir, cs_db_path = db_path, cs_conn = conn, cs_matrix_path = matrix_path,
                  cs_matrix = Some matrix, cs_statements_prepared = 0, cs_fail_before_commit = False\<rparr>
     in bind_res (reclaim_trailing_orphans store) (\<lambda>store.
        bind_res (verify store) (\<lambda>i. case i of
            Integrity_Ok _ \<Rightarrow> Inr store
          | Broken _ _ _ \<Rightarrow> Inl (Raise (Corrupt i))))))))"

subsection \<open>Batches\<close>

fun check_dims :: "nat \<Rightarrow> (chunk_record \<times> f16 list) list \<Rightarrow> (store_error, unit) res" where
  "check_dims dims [] = Inr ()"
| "check_dims dims ((_, vec) # cs) =
     (if length vec mod 2 ^ 32 \<noteq> dims
      then Inl (Raise (DimensionMismatch dims (length vec mod 2 ^ 32)))
      else check_dims dims cs)"

text \<open>Only hashes that are neither live nor earlier in the batch get a new matrix row.\<close>

fun resolve_rows :: "sqlite_db \<Rightarrow> embedding_matrix \<Rightarrow> (content_hash \<rightharpoonup> nat) \<Rightarrow> nat list \<Rightarrow>
    (nat \<times> chunk_record) list \<Rightarrow> (chunk_record \<times> f16 list) list \<Rightarrow>
    (store_error, nat list \<times> (nat \<times> chunk_record) list) res \<times> embedding_matrix" where
  "resolve_rows db m batch_hash_to_row result new_rows [] = (Inr (result, new_rows), m)"
| "resolve_rows db m batch_hash_to_row result new_rows ((rec, vec) # cs) =
     (let hash = rec_content_hash rec in
      case batch_hash_to_row hash of
        Some row \<Rightarrow> resolve_rows db m batch_hash_to_row (result @ [row]) new_rows cs
      | None \<Rightarrow> (case get_by_hash_db db hash of
          Some (row, _) \<Rightarrow>
            resolve_rows db m (batch_hash_to_row(hash \<mapsto> row)) (result @ [row]) new_rows cs
        | None \<Rightarrow> (case append_row m vec of
            Inl e \<Rightarrow> (Inl e, m)
          | Inr (row, m) \<Rightarrow>
              resolve_rows db m (batch_hash_to_row(hash \<mapsto> row)) (result @ [row])
                (new_rows @ [(row, rec)]) cs)))"

definition rollback_matrix :: "nat \<Rightarrow> embedding_matrix \<Rightarrow> (store_error, embedding_matrix) res" where
  "rollback_matrix rows_before m =
     bind_res (rewrite_header_on_disk (as_bytes (mx_map m)) ((mx_header m)\<lparr>h_rows := rows_before\<rparr>)) open_mut"

definition insert_batch ::
    "chunk_store \<Rightarrow> (chunk_record \<times> f16 list) list \<Rightarrow> (store_error, nat list) res \<times> chunk_store" where
  "insert_batch s chunks =
     (case matrix_ref s of Inl e \<Rightarrow> (Inl e, s) | Inr m \<Rightarrow>
      case check_dims (matrix_dims m) chunks of Inl e \<Rightarrow> (Inl e, s) | Inr _ \<Rightarrow>
      let rows_before = matrix_rows m;
          (resolved, m) = resolve_rows (cs_conn s) m Map.empty [] [] chunks
      in case resolved of Inl e \<Rightarrow> (Inl e, s\<lparr>cs_matrix := Some m\<rparr>) | Inr (result, new_rows) \<Rightarrow>
      case flush m of Inl e \<Rightarrow> (Inl e, s\<lparr>cs_matrix := Some m\<rparr>) | Inr m \<Rightarrow>
      let insert_result = bind_res (insert_chunks (cs_conn s) new_rows) (\<lambda>conn.
            if cs_fail_before_commit s
            then Inl (Raise (Io IoOther ''injected failure before commit'')) else Inr conn)
      in case insert_result of
           Inr conn \<Rightarrow> (Inr result, s\<lparr>cs_matrix := Some m, cs_conn := conn\<rparr>)
         | Inl (Panic w) \<Rightarrow> (Inl (Panic w), s\<lparr>cs_matrix := Some m\<rparr>)
         | Inl (Raise e) \<Rightarrow> (case rollback_matrix rows_before m of
               Inl e' \<Rightarrow> (Inl e', s\<lparr>cs_matrix := Some m\<rparr>)
             | Inr m \<Rightarrow> (Inl (Raise e), s\<lparr>cs_matrix := Some m\<rparr>)))"

subsection \<open>Compaction\<close>

definition indexed_commit_db :: "sqlite_db \<Rightarrow> string option" where
  "indexed_commit_db db = db_meta db ''indexed_commit''"

definition indexed_commit :: "chunk_store \<Rightarrow> string option" where
  "indexed_commit s = indexed_commit_db (cs_conn s)"

definition set_indexed_commit :: "chunk_store \<Rightarrow> string \<Rightarrow> chunk_store" where
  "set_indexed_commit s commit = s\<lparr>cs_conn := set_meta ''indexed_commit'' commit (cs_conn s)\<rparr>"

definition require_model :: "chunk_store \<Rightarrow> string \<Rightarrow> (store_error, unit) res" where
  "require_model s expected = bind_res (matrix_ref s) (\<lambda>m.
     if matrix_model_id m \<noteq> expected then Inl (Raise (ModelMismatch expected (matrix_model_id m)))
     else Inr ())"

definition take_statements_prepared :: "chunk_store \<Rightarrow> nat \<times> chunk_store" where
  "take_statements_prepared s = (cs_statements_prepared s, s\<lparr>cs_statements_prepared := 0\<rparr>)"

definition set_fail_before_commit :: "chunk_store \<Rightarrow> bool \<Rightarrow> chunk_store" where
  "set_fail_before_commit s fail = s\<lparr>cs_fail_before_commit := fail\<rparr>"

definition live_entries :: "embedding_matrix \<Rightarrow> sqlite_db \<Rightarrow>
    (store_error, (nat \<times> chunk_record \<times> f16 list) list) res" where
  "live_entries m db = map_res (\<lambda>c. bind_res (matrix_row m (cr_rowid c)) (\<lambda>vector.
     Inr (cr_rowid c, row_to_record c, vector))) (filter cr_live (db_chunks db))"

fun copy_live :: "embedding_matrix \<Rightarrow> sqlite_db \<Rightarrow> (nat \<times> chunk_record \<times> f16 list) list \<Rightarrow>
    (store_error, embedding_matrix \<times> sqlite_db) res" where
  "copy_live m tx [] = Inr (m, tx)"
| "copy_live m tx ((_, rec, vec) # rs) =
     bind_res (append_row m vec) (\<lambda>(row, m).
     bind_res (insert_chunk tx row rec) (\<lambda>tx. copy_live m tx rs))"

definition compact_build :: "nat \<Rightarrow> string \<Rightarrow> string option \<Rightarrow> (nat \<times> chunk_record \<times> f16 list) list \<Rightarrow>
    (store_error, sqlite_db \<times> bytes) res" where
  "compact_build dims model_id indexed rows =
     bind_res (create dims model_id) (\<lambda>new_matrix.
     let new_conn = set_meta ''schema_version'' (show_nat SCHEMA_VERSION) init_schema;
         new_conn = (case indexed of None \<Rightarrow> new_conn
                     | Some commit \<Rightarrow> set_meta ''indexed_commit'' commit new_conn)
     in bind_res (copy_live new_matrix new_conn rows) (\<lambda>(new_matrix, new_conn).
        bind_res (flush new_matrix) (\<lambda>new_matrix.
        let file_len = 288 + matrix_rows new_matrix * dims * 2
        in Inr (new_conn, set_len file_len (as_bytes (mx_map new_matrix))))))"

definition generation_name :: "string \<Rightarrow> string \<Rightarrow> string" where
  "generation_name base generation = base @ ''.generation-'' @ generation"

definition remove_unless :: "string \<Rightarrow> string \<Rightarrow> store_dir \<Rightarrow> store_dir" where
  "remove_unless old new dir = (if old \<noteq> new then dir(old := None) else dir)"

definition compact :: "string \<Rightarrow> chunk_store \<Rightarrow> (store_error, compaction_report) res \<times> chunk_store" where
  "compact generation s =
     (case matrix_ref s of Inl e \<Rightarrow> (Inl e, s) | Inr m \<Rightarrow>
      let st = stats s in
      case live_entries m (cs_conn s) of Inl e \<Rightarrow> (Inl e, s) | Inr rows \<Rightarrow>
      let new_db_name = generation_name DB_NAME generation;
          new_matrix_name = generation_name MATRIX_NAME generation;
          dir = (disk_of s)(new_db_name := None, new_matrix_name := None)
      in case compact_build (matrix_dims m) (matrix_model_id m) (indexed_commit s) rows of
           Inl e \<Rightarrow> (Inl e, s\<lparr>cs_dir := dir\<rparr>)
         | Inr (new_db, new_file) \<Rightarrow>
      let old_matrix_path = cs_matrix_path s;
          dir = dir(new_db_name \<mapsto> DbFile new_db, new_matrix_name \<mapsto> RawFile new_file)
      in case active_paths_without_manifest dir old_matrix_path of
           Inl e \<Rightarrow> (Inl e, s\<lparr>cs_dir := dir\<rparr>)
         | Inr (old_db_path, _) \<Rightarrow>
      let dir = publish_manifest new_db_name new_matrix_name dir
      in case open_mut new_file of
           Inl e \<Rightarrow> (Inl e, s\<lparr>cs_dir := dir\<rparr>)
         | Inr matrix \<Rightarrow>
      let dir = remove_unless old_matrix_path new_matrix_name dir;
          dir = remove_unless old_db_path new_db_name dir;
          s = s\<lparr>cs_dir := dir, cs_db_path := new_db_name, cs_conn := new_db,
                cs_matrix_path := new_matrix_name, cs_matrix := Some matrix\<rparr>
      in (Inr \<lparr>live_before = st_live st, dead_reclaimed = st_dead st, live_after = st_live (stats s),
               row_mapping = map (\<lambda>(new_row, (old_row, _, _)). (old_row, new_row)) (enumerate 0 rows)\<rparr>,
          s))"

end
