(* ===== verification/Store_Props.thy ===== *)
theory Store_Props
  imports Store
begin

text \<open>
  Correctness of the chunk store. The abstract state of a store is \<open>store_view\<close>: the list of its
  entries (record, live flag, vector) indexed by row. Each operation is shown to do to that list what
  the functions \<open>spec_*\<close> say, and to keep the invariant \<open>store_inv\<close>, under which \<open>verify\<close> succeeds.
\<close>

section \<open>The abstract store\<close>

type_synonym entry = "chunk_record \<times> bool \<times> f16 list"

abbreviation e_rec :: "entry \<Rightarrow> chunk_record" where "e_rec \<equiv> fst"
abbreviation e_live :: "entry \<Rightarrow> bool" where "e_live e \<equiv> fst (snd e)"
abbreviation e_vec :: "entry \<Rightarrow> f16 list" where "e_vec e \<equiv> snd (snd e)"
abbreviation e_hash :: "entry \<Rightarrow> content_hash" where "e_hash e \<equiv> rec_content_hash (fst e)"

definition find_live :: "entry list \<Rightarrow> content_hash \<Rightarrow> nat option" where
  "find_live V h =
     (case filter (\<lambda>i. e_live (V ! i) \<and> e_hash (V ! i) = h) [0..<length V] of
        [] \<Rightarrow> None | i # _ \<Rightarrow> Some i)"

fun spec_insert :: "entry list \<Rightarrow> (chunk_record \<times> f16 list) list \<Rightarrow> nat list \<times> entry list" where
  "spec_insert V [] = ([], V)"
| "spec_insert V ((rec, vec) # cs) =
     (case find_live V (rec_content_hash rec) of
        Some i \<Rightarrow> (let (rows, V') = spec_insert V cs in (i # rows, V'))
      | None \<Rightarrow> (let (rows, V') = spec_insert (V @ [(rec, True, vec)]) cs in (length V # rows, V')))"

definition entry_hashes :: "entry list \<Rightarrow> content_hash list" where
  "entry_hashes V = map (\<lambda>e. e_hash e) (filter (\<lambda>e. e_live e) V)"

lemma find_live_snoc:
  "find_live (V @ [e]) h =
     (case find_live V h of Some i \<Rightarrow> Some i
      | None \<Rightarrow> if e_live e \<and> e_hash e = h then Some (length V) else None)"
proof -
  have "filter (\<lambda>i. e_live ((V @ [e]) ! i) \<and> e_hash ((V @ [e]) ! i) = h) [0..<length V] =
        filter (\<lambda>i. e_live (V ! i) \<and> e_hash (V ! i) = h) [0..<length V]"
    by (rule filter_cong) (auto simp: nth_append)
  then show ?thesis
    by (cases "filter (\<lambda>i. e_live (V ! i) \<and> e_hash (V ! i) = h) [0..<length V]")
       (auto simp: find_live_def nth_append)
qed

lemma find_live_Nil [simp]: "find_live [] h = None"
  by (simp add: find_live_def)

lemma find_live_None: "find_live V h = None \<longleftrightarrow> h \<notin> set (entry_hashes V)"
  by (induction V rule: rev_induct)
     (auto simp: find_live_snoc entry_hashes_def split: option.splits)

lemma find_live_Some: "find_live V h = Some i \<Longrightarrow> i < length V \<and> e_live (V ! i) \<and> e_hash (V ! i) = h"
proof -
  assume "find_live V h = Some i"
  then obtain js where "filter (\<lambda>i. e_live (V ! i) \<and> e_hash (V ! i) = h) [0..<length V] = i # js"
    by (auto simp: find_live_def split: list.splits)
  then have "i \<in> set (filter (\<lambda>i. e_live (V ! i) \<and> e_hash (V ! i) = h) [0..<length V])"
    by (metis list.set_intros(1))
  then show ?thesis by simp
qed

text \<open>Insertion only appends live entries, and keeps live hashes distinct.\<close>

lemma spec_insert_appends:
  "spec_insert V cs = (rows, V') \<Longrightarrow>
     \<exists>D. V' = V @ D \<and> (\<forall>e \<in> set D. e_live e \<and> (e_rec e, e_vec e) \<in> set cs) \<and> length D \<le> length cs"
proof (induction V cs arbitrary: rows V' rule: spec_insert.induct)
  case (2 V rec vec cs)
  show ?case
  proof (cases "find_live V (rec_content_hash rec)")
    case None
    then obtain rows1 where r: "spec_insert (V @ [(rec, True, vec)]) cs = (rows1, V')"
      using "2.prems" by (auto split: prod.splits)
    from "2.IH"(1) [OF None this] obtain D where D: "V' = (V @ [(rec, True, vec)]) @ D"
      "\<forall>e\<in>set D. e_live e \<and> (e_rec e, e_vec e) \<in> set cs" "length D \<le> length cs" by blast
    show ?thesis by (rule exI [of _ "(rec, True, vec) # D"]) (use D in auto)
  next
    case (Some i)
    then obtain rows1 where "spec_insert V cs = (rows1, V')"
      using "2.prems" by (auto split: prod.splits)
    from "2.IH"(2) [OF Some this] show ?thesis by auto
  qed
qed simp

lemma spec_insert_distinct:
  "spec_insert V cs = (rows, V') \<Longrightarrow> distinct (entry_hashes V) \<Longrightarrow> distinct (entry_hashes V')"
proof (induction V cs arbitrary: rows V' rule: spec_insert.induct)
  case (2 V rec vec cs)
  then show ?case
    by (auto split: prod.splits option.splits simp: find_live_None entry_hashes_def)
qed simp

text \<open>Every inserted chunk is found afterwards, at the row returned for it.\<close>

lemma spec_insert_found:
  "spec_insert V cs = (rows, V') \<Longrightarrow> length rows = length cs \<and>
     (\<forall>h i. find_live V h = Some i \<longrightarrow> find_live V' h = Some i) \<and>
     (\<forall>k < length cs. find_live V' (rec_content_hash (fst (cs ! k))) = Some (rows ! k))"
proof (induction V cs arbitrary: rows V' rule: spec_insert.induct)
  case (2 V rec vec cs)
  show ?case
  proof (cases "find_live V (rec_content_hash rec)")
    case None
    then obtain rows1 where r: "spec_insert (V @ [(rec, True, vec)]) cs = (rows1, V')" "rows = length V # rows1"
      using "2.prems" by (auto split: prod.splits)
    note ih = "2.IH"(1) [OF None r(1)]
    have keep: "find_live V' h = Some i" if "find_live V h = Some i" for h i
      using ih that by (simp add: find_live_snoc)
    have "find_live V' (rec_content_hash rec) = Some (length V)"
      using ih None by (simp add: find_live_snoc)
    then show ?thesis using ih keep r(2) by (auto simp: nth_Cons split: nat.splits)
  next
    case (Some i)
    then obtain rows1 where r: "spec_insert V cs = (rows1, V')" "rows = i # rows1"
      using "2.prems" by (auto split: prod.splits)
    note ih = "2.IH"(2) [OF Some r(1)]
    have "find_live V' (rec_content_hash rec) = Some i" using ih Some by blast
    then show ?thesis using ih r(2) by (auto simp: nth_Cons split: nat.splits)
  qed
qed simp

section \<open>Invariant and view\<close>

definition entries :: "chunk_row list \<Rightarrow> f16 list list \<Rightarrow> entry list" where
  "entries cs M = map (\<lambda>c. (cr_rec c, cr_live c, M ! cr_rowid c)) cs"

definition table_ok :: "nat \<Rightarrow> chunk_row list \<Rightarrow> bool" where
  "table_ok n cs \<longleftrightarrow> map cr_rowid cs = [0..<n] \<and> distinct (live_hashes cs) \<and>
     (\<forall>c \<in> set cs. length (rec_content_hash (cr_rec c)) = 32)"

definition store_inv :: "chunk_store \<Rightarrow> bool" where
  "store_inv s \<longleftrightarrow>
     (case cs_matrix s of None \<Rightarrow> False
      | Some m \<Rightarrow> matrix_inv m \<and> table_ok (matrix_rows m) (db_chunks (cs_conn s))) \<and>
     db_meta (cs_conn s) ''schema_version'' = Some (show_nat SCHEMA_VERSION) \<and>
     active_paths (cs_dir s) = Inr (cs_db_path s, cs_matrix_path s) \<and>
     distinct [cs_db_path s, cs_matrix_path s, MANIFEST_NAME]"

definition store_view :: "chunk_store \<Rightarrow> entry list" where
  "store_view s = (case cs_matrix s of None \<Rightarrow> []
     | Some m \<Rightarrow> entries (db_chunks (cs_conn s)) (matrix_view m))"

definition store_dims :: "chunk_store \<Rightarrow> nat" where
  "store_dims s = (case cs_matrix s of None \<Rightarrow> 0 | Some m \<Rightarrow> matrix_dims m)"

lemma store_invE:
  assumes "store_inv s"
  obtains m where "cs_matrix s = Some m" "matrix_inv m" "table_ok (matrix_rows m) (db_chunks (cs_conn s))"
    "db_meta (cs_conn s) ''schema_version'' = Some (show_nat SCHEMA_VERSION)"
    "active_paths (cs_dir s) = Inr (cs_db_path s, cs_matrix_path s)"
    "distinct [cs_db_path s, cs_matrix_path s, MANIFEST_NAME]"
    "store_view s = entries (db_chunks (cs_conn s)) (matrix_view m)"
  using assms by (auto simp: store_inv_def store_view_def split: option.splits)

lemma length_entries [simp]: "length (entries cs M) = length cs"
  by (simp add: entries_def)

lemma table_ok_length: "table_ok n cs \<Longrightarrow> length cs = n"
  by (metis table_ok_def length_map length_upt minus_nat.diff_0)

lemma table_ok_rowid: "table_ok n cs \<Longrightarrow> i < n \<Longrightarrow> cr_rowid (cs ! i) = i"
  by (metis table_ok_def table_ok_length add_0 nth_map nth_upt)

lemma table_ok_set: "table_ok n cs \<Longrightarrow> c \<in> set cs \<Longrightarrow> cr_rowid c < n \<and> cs ! cr_rowid c = c"
  by (metis in_set_conv_nth table_ok_length table_ok_rowid)

lemma entry_hashes_entries [simp]: "entry_hashes (entries cs M) = live_hashes cs"
  by (induction cs) (auto simp: entry_hashes_def entries_def live_hashes_def)

lemma blob_to_hash_id [simp]: "length h = 32 \<Longrightarrow> blob_to_hash h = h"
  by (simp add: blob_to_hash_def write_at_def Let_def)

lemma row_to_record_id: "length (rec_content_hash (cr_rec c)) = 32 \<Longrightarrow> row_to_record c = cr_rec c"
  by (simp add: row_to_record_def)

lemma get_by_hash_find_live:
  assumes "map cr_rowid (db_chunks db) = [0..<length (db_chunks db)]"
  shows "map_option fst (get_by_hash_db db h) = find_live (entries (db_chunks db) M) h"
proof -
  have "map cr_rowid cs = [0..<length cs] \<Longrightarrow>
     map_option cr_rowid (case filter (\<lambda>c. rec_content_hash (cr_rec c) = h \<and> cr_live c) cs of
        [] \<Rightarrow> None | c # _ \<Rightarrow> Some c) = find_live (entries cs M) h" for cs
  proof (induction cs rule: rev_induct)
    case Nil
    then show ?case by (simp add: find_live_def entries_def)
  next
    case (snoc c cs)
    have "entries (cs @ [c]) M = entries cs M @ [(cr_rec c, cr_live c, M ! cr_rowid c)]"
      by (simp add: entries_def)
    then show ?case using snoc by (auto simp: find_live_snoc split: list.splits option.splits)
  qed
  from this [OF assms] show ?thesis
    by (auto simp: get_by_hash_db_def first_row_def map_option_case split: option.splits list.splits)
qed

lemma get_by_hash_view:
  assumes "store_inv s"
  shows "map_option fst (get_by_hash s h) = find_live (store_view s) h"
  using assms by (auto elim!: store_invE simp: get_by_hash_def table_ok_length
      intro!: get_by_hash_find_live simp: table_ok_def)

section \<open>Batch insertion\<close>

lemma check_dims_ok: "(\<forall>c \<in> set cs. length (snd c) = d) \<Longrightarrow> d < 2 ^ 32 \<Longrightarrow> check_dims d cs = Inr ()"
  by (induction cs) auto

lemma insort_key_last: "(\<And>y. y \<in> set xs \<Longrightarrow> f y < f x) \<Longrightarrow> insort_key f x xs = xs @ [x]"
  by (induction xs) (simp_all add: not_le [symmetric])

definition fresh_rows :: "nat \<Rightarrow> chunk_record list \<Rightarrow> chunk_row list" where
  "fresh_rows n recs = map (\<lambda>(r, rec). \<lparr>cr_rowid = r, cr_rec = rec, cr_live = True\<rparr>)
     (zip [n..<n + length recs] recs)"

lemma fresh_rows_Nil [simp]: "fresh_rows n [] = []"
  by (simp add: fresh_rows_def)

lemma fresh_rows_Cons [simp]:
  "fresh_rows n (rec # recs) = \<lparr>cr_rowid = n, cr_rec = rec, cr_live = True\<rparr> # fresh_rows (Suc n) recs"
  by (simp add: fresh_rows_def upt_conv_Cons del: upt_Suc)

lemma live_hashes_append [simp]: "live_hashes (xs @ ys) = live_hashes xs @ live_hashes ys"
  by (simp add: live_hashes_def)

lemma live_hashes_fresh [simp]: "live_hashes (fresh_rows n recs) = map rec_content_hash recs"
  by (induction recs arbitrary: n) (simp_all add: live_hashes_def)

lemma rowids_fresh [simp]: "map cr_rowid (fresh_rows n recs) = [n..<n + length recs]"
  by (induction recs arbitrary: n) (simp_all add: upt_conv_Cons del: upt_Suc)

lemma fresh_rows_rec: "c \<in> set (fresh_rows n recs) \<Longrightarrow> cr_rec c \<in> set recs"
  by (auto simp: fresh_rows_def dest: set_zip_rightD)

lemma insert_chunks_ok:
  assumes "map cr_rowid (db_chunks db) = [0..<n]"
    "distinct (live_hashes (db_chunks db) @ map rec_content_hash recs)"
  shows "insert_chunks db (zip [n..<n + length recs] recs) =
     Inr (db\<lparr>db_chunks := db_chunks db @ fresh_rows n recs\<rparr>)"
  using assms
proof (induction recs arbitrary: db n)
  case (Cons rec recs)
  let ?c = "\<lparr>cr_rowid = n, cr_rec = rec, cr_live = True\<rparr>"
  have ids: "cr_rowid c < n" if "c \<in> set (db_chunks db)" for c
  proof -
    have "cr_rowid c \<in> set (map cr_rowid (db_chunks db))" using that by simp
    then show ?thesis unfolding Cons.prems(1) by simp
  qed
  then have "insort_key cr_rowid ?c (db_chunks db) = db_chunks db @ [?c]"
    by (intro insort_key_last) simp
  moreover have "n \<notin> set (map cr_rowid (db_chunks db))" unfolding Cons.prems(1) by simp
  ultimately have i: "insert_chunk db n rec = Inr (db\<lparr>db_chunks := db_chunks db @ [?c]\<rparr>)"
    using Cons.prems(2) by (simp add: insert_chunk_def)
  have "insert_chunks (db\<lparr>db_chunks := db_chunks db @ [?c]\<rparr>) (zip [Suc n..<Suc n + length recs] recs) =
     Inr (db\<lparr>db_chunks := db_chunks db @ [?c], db_chunks := (db_chunks db @ [?c]) @ fresh_rows (Suc n) recs\<rparr>)"
    by (subst Cons.IH) (use Cons.prems in \<open>auto simp: live_hashes_def\<close>)
  then show ?case by (simp add: i upt_conv_Cons del: upt_Suc)
qed simp

lemma resolve_rows_ok:
  assumes "matrix_inv m" "length V = matrix_rows m" "matrix_rows m + length cs < 2 ^ 64"
    "\<And>c. c \<in> set cs \<Longrightarrow> length (snd c) = matrix_dims m"
    "\<And>h. find_live V h = (case bh h of Some r \<Rightarrow> Some r | None \<Rightarrow> map_option fst (get_by_hash_db db h))"
    "spec_insert V cs = (rows, V @ D)"
  shows "\<exists>m'. resolve_rows db m bh result new cs =
       (Inr (result @ rows, new @ zip [length V..<length V + length D] (map (\<lambda>e. e_rec e) D)), m') \<and>
     matrix_inv m' \<and> matrix_view m' = matrix_view m @ map (\<lambda>e. e_vec e) D \<and>
     mx_header m' = (mx_header m)\<lparr>h_rows := matrix_rows m + length D\<rparr>"
  using assms
proof (induction cs arbitrary: m V bh result new rows D)
  case Nil
  then show ?case by (auto simp: matrix_rows_def)
next
  case (Cons c cs)
  obtain rec vec where c: "c = (rec, vec)" by fastforce
  let ?h = "rec_content_hash rec"
  show ?case
  proof (cases "find_live V ?h")
    case (Some i)
    obtain rows1 where r: "rows = i # rows1" "spec_insert V cs = (rows1, V @ D)"
      using Cons.prems(6) Some by (auto simp: c split: prod.splits)
    show ?thesis
    proof (cases "bh ?h")
      case None
      then obtain rec' where g: "get_by_hash_db db ?h = Some (i, rec')"
        using Cons.prems(5) [of ?h] Some by (cases "get_by_hash_db db ?h") auto
      define bh1 where "bh1 = bh(?h \<mapsto> i)"
      have "find_live V h = (case bh1 h of Some r \<Rightarrow> Some r | None \<Rightarrow> map_option fst (get_by_hash_db db h))" for h
        by (cases "h = ?h") (use Some in \<open>simp add: bh1_def\<close>, use Cons.prems(5) [of h] in \<open>simp add: bh1_def\<close>)
      from Cons.IH [OF Cons.prems(1,2) _ _ this r(2), of "result @ [i]" new] Cons.prems(3,4)
      show ?thesis by (simp add: c None g r(1) flip: bh1_def)
    next
      case (Some j)
      then have "j = i" using Cons.prems(5) [of ?h] \<open>find_live V ?h = Some i\<close> by simp
      then show ?thesis using Cons.IH [OF Cons.prems(1,2) _ _ Cons.prems(5) r(2), of "result @ [i]" new] Cons.prems(3,4)
        by (simp add: c Some r(1))
    qed
  next
    case None
    let ?V1 = "V @ [(rec, True, vec)]"
    obtain rows1 where r: "rows = length V # rows1" "spec_insert ?V1 cs = (rows1, V @ D)"
      using Cons.prems(6) None by (auto simp: c split: prod.splits)
    obtain D1 where D: "D = (rec, True, vec) # D1"
      using spec_insert_appends [OF r(2)] by auto
    have bn: "bh ?h = None" "get_by_hash_db db ?h = None"
      using Cons.prems(5) [of ?h] None by (auto split: option.splits)
    obtain m1 where m1: "append_row m vec = Inr (matrix_rows m, m1)" "matrix_inv m1"
      "mx_header m1 = (mx_header m)\<lparr>h_rows := matrix_rows m + 1\<rparr>" "matrix_view m1 = matrix_view m @ [vec]"
      using append_row_ok [of m vec] Cons.prems(1,3) Cons.prems(4) [of c] by (auto simp: c)
    have R: "matrix_rows m1 = matrix_rows m + 1" "matrix_dims m1 = matrix_dims m"
      using m1(3) by (simp_all add: matrix_rows_def matrix_dims_def)
    define bh1 where "bh1 = bh(?h \<mapsto> matrix_rows m)"
    have "find_live ?V1 h = (case bh1 h of Some r \<Rightarrow> Some r | None \<Rightarrow> map_option fst (get_by_hash_db db h))" for h
      using Cons.prems(2,5) None by (auto simp: find_live_snoc bh1_def split: option.splits)
    from Cons.IH [OF m1(2) _ _ _ this, of rows1 D1 "result @ [matrix_rows m]" "new @ [(matrix_rows m, rec)]"]
      r(2) Cons.prems(2,3,4)
    obtain m' where m': "resolve_rows db m1 bh1 (result @ [matrix_rows m]) (new @ [(matrix_rows m, rec)]) cs =
       (Inr ((result @ [matrix_rows m]) @ rows1, (new @ [(matrix_rows m, rec)]) @
         zip [length ?V1..<length ?V1 + length D1] (map (\<lambda>e. e_rec e) D1)), m')"
      "matrix_inv m'" "matrix_view m' = matrix_view m1 @ map (\<lambda>e. e_vec e) D1"
      "mx_header m' = (mx_header m1)\<lparr>h_rows := matrix_rows m1 + length D1\<rparr>"
      by (auto simp: D R simp del: upt_Suc)
    show ?thesis
      by (rule exI [of _ m']) (use m' m1 R Cons.prems(2) in
        \<open>simp add: c bn r(1) D upt_conv_Cons flip: bh1_def del: upt_Suc\<close>)
  qed
qed

lemma flush_ok: "matrix_inv m \<Longrightarrow> flush m = Inr m"
  by (auto simp: matrix_inv_def flush_def write_header_def write_at_def min_def
      split: mmap.splits)

lemma entries_append_fresh:
  assumes "map cr_rowid cs = [0..<n]" "length M = n" "\<forall>e \<in> set D. e_live e"
  shows "entries (cs @ fresh_rows n (map (\<lambda>e. e_rec e) D)) (M @ map (\<lambda>e. e_vec e) D) = entries cs M @ D"
proof -
  have ids: "cr_rowid c < n" if "c \<in> set cs" for c
  proof -
    have "cr_rowid c \<in> set (map cr_rowid cs)" using that by simp
    then show ?thesis unfolding assms(1) by simp
  qed
  have "entries (fresh_rows (length M) (map (\<lambda>e. e_rec e) D)) (M @ map (\<lambda>e. e_vec e) D) = D"
    using assms(3)
  proof (induction D arbitrary: M)
    case (Cons e D)
    obtain r v where e: "e = (r, True, v)" using Cons.prems by (cases e) auto
    from Cons.IH [of "M @ [v]"] Cons.prems show ?case
      by (simp add: entries_def e nth_append)
  qed (simp add: entries_def)
  then show ?thesis using ids assms(2) by (simp add: entries_def nth_append)
qed

definition batch_ok :: "chunk_store \<Rightarrow> (chunk_record \<times> f16 list) list \<Rightarrow> bool" where
  "batch_ok s cs \<longleftrightarrow>
     (\<forall>(rec, vec) \<in> set cs. length vec = store_dims s \<and> length (rec_content_hash rec) = 32) \<and>
     length (store_view s) + length cs < 2 ^ 63"

text \<open>The two phases of a batch up to the commit, for a well-formed store.\<close>

lemma insert_batch_phases:
  assumes inv: "store_inv s" and m: "cs_matrix s = Some m" and ok: "batch_ok s cs"
    and sp: "spec_insert (store_view s) cs = (rows, store_view s @ D)"
  obtains m' where "matrix_inv m'" "matrix_view m' = matrix_view m @ map (\<lambda>e. e_vec e) D"
    "mx_header m' = (mx_header m)\<lparr>h_rows := matrix_rows m + length D\<rparr>"
    "table_ok (matrix_rows m') (db_chunks (cs_conn s) @ fresh_rows (matrix_rows m) (map (\<lambda>e. e_rec e) D))"
    "insert_batch s cs =
      (if cs_fail_before_commit s
       then (case rollback_matrix (matrix_rows m) m' of
               Inl e \<Rightarrow> (Inl e, s\<lparr>cs_matrix := Some m'\<rparr>)
             | Inr m \<Rightarrow> (Inl (Raise (Io IoOther ''injected failure before commit'')), s\<lparr>cs_matrix := Some m\<rparr>))
       else (Inr rows, s\<lparr>cs_matrix := Some m', cs_conn := (cs_conn s)\<lparr>db_chunks :=
               db_chunks (cs_conn s) @ fresh_rows (matrix_rows m) (map (\<lambda>e. e_rec e) D)\<rparr>\<rparr>))"
proof -
  let ?V = "store_view s"
  have mi: "matrix_inv m" and t: "table_ok (matrix_rows m) (db_chunks (cs_conn s))"
    and V: "?V = entries (db_chunks (cs_conn s)) (matrix_view m)"
    using inv m by (auto elim: store_invE)
  have L: "length ?V = matrix_rows m" using table_ok_length [OF t] by (simp add: V)
  have dims: "length (snd c) = matrix_dims m" if "c \<in> set cs" for c
    using ok that by (auto simp: batch_ok_def store_dims_def m)
  have d32: "matrix_dims m < 2 ^ 32" using mi by (simp add: matrix_inv_def header_ok_def matrix_dims_def)
  have ids: "map cr_rowid (db_chunks (cs_conn s)) = [0..<length (db_chunks (cs_conn s))]"
    using t table_ok_length [OF t] by (simp add: table_ok_def)
  have lim: "matrix_rows m + length cs < 2 ^ 64" using ok L by (simp add: batch_ok_def)
  have fl: "find_live ?V h = (case Map.empty h of Some r \<Rightarrow> Some r
      | None \<Rightarrow> map_option fst (get_by_hash_db (cs_conn s) h))" for h
    using get_by_hash_find_live [OF ids] V by simp
  obtain m' where r: "resolve_rows (cs_conn s) m Map.empty [] [] cs =
       (Inr (rows, zip [length ?V..<length ?V + length D] (map (\<lambda>e. e_rec e) D)), m')"
     "matrix_inv m'" "matrix_view m' = matrix_view m @ map (\<lambda>e. e_vec e) D"
     "mx_header m' = (mx_header m)\<lparr>h_rows := matrix_rows m + length D\<rparr>"
    using resolve_rows_ok [OF mi L lim dims fl sp, of "[]" "[]"] by auto
  obtain D' where D': "?V @ D = ?V @ D'" "\<forall>e \<in> set D'. e_live e \<and> (e_rec e, e_vec e) \<in> set cs"
    using spec_insert_appends [OF sp] by blast
  have live: "\<forall>e \<in> set D. e_live e" and rec32: "\<forall>e \<in> set D. length (e_hash e) = 32"
    using D' ok by (auto simp: batch_ok_def)
  have eh: "entry_hashes D = map rec_content_hash (map (\<lambda>e. e_rec e) D)"
    using live by (simp add: entry_hashes_def)
  have "distinct (entry_hashes ?V)" using t by (simp add: V table_ok_def)
  then have "distinct (entry_hashes (?V @ D))" using spec_insert_distinct [OF sp] by blast
  then have dist: "distinct (live_hashes (db_chunks (cs_conn s)) @ map rec_content_hash (map (\<lambda>e. e_rec e) D))"
    using eh V by (metis entry_hashes_def entry_hashes_entries filter_append map_append)
  have ins: "insert_chunks (cs_conn s) (zip [length ?V..<length ?V + length D] (map (\<lambda>e. e_rec e) D)) =
      Inr ((cs_conn s)\<lparr>db_chunks := db_chunks (cs_conn s) @ fresh_rows (length ?V) (map (\<lambda>e. e_rec e) D)\<rparr>)"
    using insert_chunks_ok [OF _ dist, of "length ?V"] ids V by simp
  have "matrix_rows m' = matrix_rows m + length D" using r(4) by (simp add: matrix_rows_def)
  moreover have "[0..<matrix_rows m] @ [matrix_rows m..<matrix_rows m + length D] = [0..<matrix_rows m + length D]"
    by (metis upt_add_eq_append zero_le)
  moreover have "\<forall>c \<in> set (fresh_rows n (map (\<lambda>e. e_rec e) D)). length (rec_content_hash (cr_rec c)) = 32" for n
    using rec32 by (fastforce dest!: fresh_rows_rec)
  ultimately have tab: "table_ok (matrix_rows m')
      (db_chunks (cs_conn s) @ fresh_rows (matrix_rows m) (map (\<lambda>e. e_rec e) D))"
    using t dist by (auto simp: table_ok_def simp flip: map_map)
  show ?thesis
    by (rule that [OF r(2,3,4) tab]) (use check_dims_ok [of cs "matrix_dims m"] dims d32 in
      \<open>simp add: insert_batch_def matrix_ref_def m Let_def r(1) flush_ok [OF r(2)] ins [unfolded L] L\<close>)
qed

lemma insert_batch_commit:
  assumes inv: "store_inv s" and ok: "batch_ok s cs" and nf: "\<not> cs_fail_before_commit s"
    and sp: "spec_insert (store_view s) cs = (rows, V')"
  shows "\<exists>s'. insert_batch s cs = (Inr rows, s') \<and> store_inv s' \<and> store_view s' = V' \<and>
     store_dims s' = store_dims s \<and> \<not> cs_fail_before_commit s'"
proof -
  obtain m where m: "cs_matrix s = Some m" "matrix_inv m" "table_ok (matrix_rows m) (db_chunks (cs_conn s))"
    "store_view s = entries (db_chunks (cs_conn s)) (matrix_view m)"
    using inv by (auto elim: store_invE)
  obtain D where D: "V' = store_view s @ D" "\<forall>e \<in> set D. e_live e" using spec_insert_appends [OF sp] by blast
  from insert_batch_phases [OF inv m(1) ok sp [unfolded D(1)]] obtain m' where m': "matrix_inv m'"
    "matrix_view m' = matrix_view m @ map (\<lambda>e. e_vec e) D"
    "mx_header m' = (mx_header m)\<lparr>h_rows := matrix_rows m + length D\<rparr>"
    "table_ok (matrix_rows m') (db_chunks (cs_conn s) @ fresh_rows (matrix_rows m) (map (\<lambda>e. e_rec e) D))"
    "insert_batch s cs = (Inr rows, s\<lparr>cs_matrix := Some m', cs_conn := (cs_conn s)\<lparr>db_chunks :=
               db_chunks (cs_conn s) @ fresh_rows (matrix_rows m) (map (\<lambda>e. e_rec e) D)\<rparr>\<rparr>)"
    using nf by auto
  have "entries (db_chunks (cs_conn s) @ fresh_rows (matrix_rows m) (map (\<lambda>e. e_rec e) D)) (matrix_view m') = V'"
    using entries_append_fresh [of "db_chunks (cs_conn s)" "matrix_rows m" "matrix_view m" D] m(3,4) D m'(2)
    by (simp add: table_ok_def)
  then show ?thesis using m' m inv nf
    by (auto simp: store_inv_def store_view_def store_dims_def matrix_dims_def)
qed

lemma insert_batch_rollback:
  assumes inv: "store_inv s" and ok: "batch_ok s cs" and f: "cs_fail_before_commit s"
  shows "\<exists>s'. insert_batch s cs = (Inl (Raise (Io IoOther ''injected failure before commit'')), s') \<and>
     store_inv s' \<and> store_view s' = store_view s \<and> store_dims s' = store_dims s \<and> cs_conn s' = cs_conn s"
proof -
  obtain m where m: "cs_matrix s = Some m" "matrix_inv m" "table_ok (matrix_rows m) (db_chunks (cs_conn s))"
    "store_view s = entries (db_chunks (cs_conn s)) (matrix_view m)"
    using inv by (auto elim: store_invE)
  obtain rows D where sp: "spec_insert (store_view s) cs = (rows, store_view s @ D)"
    by (metis prod.exhaust spec_insert_appends)
  from insert_batch_phases [OF inv m(1) ok sp] obtain m' where m': "matrix_inv m'"
    "matrix_view m' = matrix_view m @ map (\<lambda>e. e_vec e) D"
    "mx_header m' = (mx_header m)\<lparr>h_rows := matrix_rows m + length D\<rparr>"
    and ib: "insert_batch s cs = (case rollback_matrix (matrix_rows m) m' of
               Inl e \<Rightarrow> (Inl e, s\<lparr>cs_matrix := Some m'\<rparr>)
             | Inr m \<Rightarrow> (Inl (Raise (Io IoOther ''injected failure before commit'')), s\<lparr>cs_matrix := Some m\<rparr>))"
    using f by auto
  have "matrix_rows m \<le> matrix_rows m'" using m'(3) by (simp add: matrix_rows_def)
  then obtain m2 where m2: "rollback_matrix (matrix_rows m) m' = Inr m2" "matrix_inv m2"
    "mx_header m2 = (mx_header m')\<lparr>h_rows := matrix_rows m\<rparr>"
    "matrix_view m2 = take (matrix_rows m) (matrix_view m')"
    using truncate_rows [OF m'(1), of "matrix_rows m"] by (auto simp: rollback_matrix_def)
  have h: "mx_header m2 = mx_header m" using m2(3) m'(3) by (simp add: matrix_rows_def)
  have v: "matrix_view m2 = matrix_view m" using m2(4) m'(2) by simp
  show ?thesis using m2 m inv h v
    by (auto simp: ib store_inv_def store_view_def store_dims_def matrix_dims_def matrix_rows_def)
qed

section \<open>Verification and recovery\<close>

lemma length_filter_eq_count: "length (filter (\<lambda>x. x = a) xs) = count (mset xs) a"
  by (induction xs) auto

lemma distinct_iff_count_le: "distinct xs \<longleftrightarrow> (\<forall>a \<in> set xs. \<not> 1 < count (mset xs) a)"
  unfolding distinct_count_atmost_1
  by (metis One_nat_def count_mset_0_iff less_numeral_extra(4) linorder_neqE_nat less_one)

lemma fold_push_unique_Nil:
  "fold (\<lambda>r ds. if r \<in> set ds then ds else ds @ [r]) xs ds = [] \<longleftrightarrow> xs = [] \<and> ds = []"
proof (induction xs arbitrary: ds)
  case (Cons x xs)
  show ?case using Cons.IH [of ds] Cons.IH [of "ds @ [x]"] by (cases "x \<in> set ds") auto
qed simp

lemma count_rowid_mset: "count_rowid db i = count (mset (map cr_rowid (db_chunks db))) i"
  by (simp only: count_rowid_def length_filter_eq_count [symmetric] filter_map comp_def length_map)

lemma same_hash_Nil:
  "filter (\<lambda>c. cr_live c \<and> 1 < length (filter (\<lambda>h. h = rec_content_hash (cr_rec c)) (live_hashes cs))) cs = []
   \<longleftrightarrow> distinct (live_hashes cs)"
  unfolding distinct_iff_count_le [of "live_hashes cs"] length_filter_eq_count
  by (auto simp: filter_empty_conv live_hashes_def)

lemma verify_ok_conv:
  assumes m: "cs_matrix s = Some m"
  shows "verify s = Inr (Integrity_Ok n) \<longleftrightarrow>
     distinct (map cr_rowid (db_chunks (cs_conn s))) \<and>
     set (map cr_rowid (db_chunks (cs_conn s))) = {0..<matrix_rows m} \<and>
     distinct (live_hashes (db_chunks (cs_conn s))) \<and>
     n = length (filter cr_live (db_chunks (cs_conn s)))"
proof -
  let ?ids = "map cr_rowid (db_chunks (cs_conn s))"
  have o: "filter (\<lambda>i. count_rowid (cs_conn s) i = 0) [0..<matrix_rows m] = [] \<longleftrightarrow>
      {0..<matrix_rows m} \<subseteq> set ?ids"
    by (auto simp: filter_empty_conv count_rowid_mset)
  have d: "filter (\<lambda>i. 1 < count_rowid (cs_conn s) i) [0..<matrix_rows m] = [] \<longleftrightarrow>
      (\<forall>i < matrix_rows m. \<not> 1 < count (mset ?ids) i)"
    by (auto simp: filter_empty_conv count_rowid_mset)
  have i: "filter (\<lambda>i. matrix_rows m \<le> i) ?ids = [] \<longleftrightarrow> set ?ids \<subseteq> {0..<matrix_rows m}"
    by (auto simp: filter_empty_conv)
  have D: "set ?ids \<subseteq> {0..<matrix_rows m} \<Longrightarrow> distinct ?ids \<longleftrightarrow> (\<forall>i < matrix_rows m. \<not> 1 < count (mset ?ids) i)"
    unfolding distinct_iff_count_le [of ?ids]
    by (metis atLeastLessThan_iff count_mset_0_iff not_less_zero subset_iff zero_le)
  show ?thesis
    unfolding verify_def matrix_ref_def m Let_def
    by (simp only: option.simps bind_res_simps sum.inject o i d same_hash_Nil map_is_Nil_conv
        fold_push_unique_Nil stats_def stats_db_def store_stats.select_convs Let_def split: if_split)
       (use D in auto)
qed

lemma table_ok_verify:
  "cs_matrix s = Some m \<Longrightarrow> table_ok (matrix_rows m) (db_chunks (cs_conn s)) \<Longrightarrow>
   verify s = Inr (Integrity_Ok (length (filter cr_live (db_chunks (cs_conn s)))))"
  by (auto simp: verify_ok_conv table_ok_def simp flip: set_map)

lemma live_count_view:
  "store_inv s \<Longrightarrow> length (filter cr_live (db_chunks (cs_conn s))) = length (filter (\<lambda>e. e_live e) (store_view s))"
  by (auto elim!: store_invE simp: entries_def filter_map comp_def)

lemma max_rowid_dense: "map cr_rowid (db_chunks db) = [0..<n] \<Longrightarrow>
  (case max_rowid db of None \<Rightarrow> 0 | Some mx \<Rightarrow> mx + 1) = n"
proof -
  assume a: "map cr_rowid (db_chunks db) = [0..<n]"
  have f: "foldr max xs (x::nat) = Max (set (x # xs))" for x xs
    by (induction xs) (simp_all add: insert_commute [of x])
  show ?thesis
  proof (cases n)
    case (Suc k)
    have c: "[0..<n] = 0 # [1..<n]" using Suc by (simp add: upt_conv_Cons del: upt_Suc)
    have "max_rowid db = Some (foldr max [1..<n] 0)" unfolding max_rowid_def a c by simp
    also have "foldr max [1..<n] 0 = Max (set [0..<n])" unfolding c f ..
    also have "Max (set [0..<n]) = k" unfolding Suc set_upt by (rule Max_eqI) auto
    finally show ?thesis by (simp add: Suc)
  qed (simp add: max_rowid_def a)
qed

lemma reclaim_ok:
  assumes m: "cs_matrix s = Some m" and mi: "matrix_inv m"
    and t: "table_ok n (db_chunks (cs_conn s))" and n: "n \<le> matrix_rows m"
  shows "\<exists>m'. reclaim_trailing_orphans s = Inr (s\<lparr>cs_matrix := Some m'\<rparr>) \<and> matrix_inv m' \<and>
     matrix_rows m' = n \<and> matrix_view m' = take n (matrix_view m) \<and> matrix_dims m' = matrix_dims m"
proof -
  have ids: "map cr_rowid (db_chunks (cs_conn s)) = [0..<n]" using t by (simp add: table_ok_def)
  have e: "(case max_rowid (cs_conn s) of None \<Rightarrow> 0 | Some mx \<Rightarrow> mx + 1) = n"
    using ids by (rule max_rowid_dense)
  have c: "count_rowid (cs_conn s) i = 1" if "i < n" for i
    unfolding count_rowid_mset ids using that by (simp add: count_mset_set')
  show ?thesis
  proof (cases "matrix_rows m \<le> n")
    case True
    then have "matrix_rows m = n" using n by simp
    then show ?thesis using m mi table_ok_length [OF t]
      by (intro exI [of _ m]) (simp add: reclaim_trailing_orphans_def e matrix_ref_def flip: length_matrix_view)
  next
    case False
    from truncate_rows [OF mi n] obtain f m' where
      "rewrite_header_on_disk (as_bytes (mx_map m)) ((mx_header m)\<lparr>h_rows := n\<rparr>) = Inr f"
      "open_mut f = Inr m'" "matrix_inv m'" "mx_header m' = (mx_header m)\<lparr>h_rows := n\<rparr>"
      "matrix_view m' = take n (matrix_view m)" by blast
    then show ?thesis using False m table_ok_length [OF t] c
      by (intro exI [of _ m'])
         (auto simp: reclaim_trailing_orphans_def e matrix_ref_def list_all_iff matrix_rows_def matrix_dims_def)
  qed
qed

section \<open>The manifest and the directory\<close>

text \<open>A plain file name: what the program itself writes into a manifest.\<close>

definition plain_char :: "char \<Rightarrow> bool" where
  "plain_char c \<longleftrightarrow> is_ascii c \<and> c \<noteq> CHR ''/'' \<and> c \<noteq> newline \<and> c \<noteq> carriage_return"

definition plain_name :: "string \<Rightarrow> bool" where
  "plain_name n \<longleftrightarrow> n \<noteq> [] \<and> n \<noteq> ''.'' \<and> n \<noteq> ''..'' \<and> list_all plain_char n"

lemma plain_nameD: "plain_name n \<Longrightarrow> CHR ''/'' \<notin> set n \<and> newline \<notin> set n \<and> carriage_return \<notin> set n"
  by (auto simp: plain_name_def plain_char_def list_all_iff)

lemma manifest_name_plain: "plain_name n \<Longrightarrow> manifest_name (Some n) field = Inr n"
proof -
  assume n: "plain_name n"
  then have s: "split_on (CHR ''/'') n = [n]" using plain_nameD [OF n] by (simp add: split_on_no_sep)
  have r: "\<not> path_has_root n"
    using n by (cases n) (auto simp: path_has_root_def starts_with_def plain_name_def plain_char_def)
  have "path_components n = [Normal n]"
    using n r by (simp add: path_components_def s plain_name_def path_component_def)
  then show ?thesis using n r by (simp add: manifest_name_def plain_name_def)
qed

lemma strip_prefix_append [simp]: "strip_prefix p (p @ x) = Some x"
  by (simp add: strip_prefix_def)

lemma manifest_text_lines:
  assumes "plain_name db" "plain_name matrix"
  shows "lines (manifest_text db matrix) = [''version=1'', ''db='' @ db, ''matrix='' @ matrix]"
proof -
  have 1: "lines (''version=1'' @ [newline] @ r) = ''version=1'' # lines r" for r
    by (rule lines_append2) (simp_all add: newline_def carriage_return_def)
  have 2: "lines ((''db='' @ db) @ [newline] @ r) = (''db='' @ db) # lines r" for r
    by (rule lines_append2) (use plain_nameD [OF assms(1)] in \<open>simp_all add: newline_def carriage_return_def\<close>)
  have 3: "lines ((''matrix='' @ matrix) @ [newline] @ r) = (''matrix='' @ matrix) # lines r" for r
    by (rule lines_append2) (use plain_nameD [OF assms(2)] in \<open>simp_all add: newline_def carriage_return_def\<close>)
  show ?thesis using 1 2 3 [of "[]"] by (simp add: manifest_text_def)
qed

lemma manifest_text_valid: "plain_name db \<Longrightarrow> plain_name matrix \<Longrightarrow> valid_utf8 (manifest_text db matrix)"
  by (rule valid_utf8_ascii) (auto simp: manifest_text_def plain_name_def plain_char_def list_all_iff is_ascii_def newline_def)

lemma active_paths_published:
  assumes "plain_name db" "plain_name matrix"
  shows "active_paths (publish_manifest db matrix dir) = Inr (db, matrix)"
proof -
  have "strip_prefix ''db='' ''version=1'' = None" "strip_prefix ''matrix='' ''version=1'' = None"
    "strip_prefix ''db='' (''matrix='' @ matrix) = None"
    by (simp_all add: strip_prefix_def)
  then have "manifest_fields (lines (manifest_text db matrix)) None None = (Some db, Some matrix)"
    unfolding manifest_text_lines [OF assms] manifest_fields.simps strip_prefix_append by simp
  then show ?thesis using assms
    by (simp add: active_paths_def publish_manifest_def manifest_text_lines manifest_text_valid
        manifest_name_plain)
qed

lemma active_paths_cong: "dir MANIFEST_NAME = dir' MANIFEST_NAME \<Longrightarrow> active_paths dir = active_paths dir'"
  by (simp add: active_paths_def)

text \<open>A later process that opens a directory holding a well-formed pair finds its rows, also when
  the matrix has extra trailing rows that the database does not know.\<close>

lemma store_open_ok:
  assumes "active_paths dir = Inr (dbp, mp)" "dir dbp = Some (DbFile db)"
    "dir mp = Some (RawFile (as_bytes (mx_map m)))" "matrix_inv m"
    "table_ok n (db_chunks db)" "n \<le> matrix_rows m"
    "db_meta db ''schema_version'' = Some (show_nat SCHEMA_VERSION)"
    "distinct [dbp, mp, MANIFEST_NAME]"
  shows "\<exists>s'. store_open dir = Inr s' \<and> store_inv s' \<and> cs_conn s' = db \<and>
     store_view s' = entries (db_chunks db) (matrix_view m) \<and> store_dims s' = matrix_dims m"
proof -
  obtain m0 where m0: "open_mut (as_bytes (mx_map m)) = Inr m0" "mx_header m0 = mx_header m"
    "matrix_inv m0" "matrix_view m0 = matrix_view m"
    using open_mut_file [OF assms(4)] by auto
  have R: "matrix_rows m0 = matrix_rows m" "matrix_dims m0 = matrix_dims m"
    using m0(2) by (simp_all add: matrix_rows_def matrix_dims_def)
  define s0 where "s0 = \<lparr>cs_dir = dir, cs_db_path = dbp, cs_conn = db, cs_matrix_path = mp,
      cs_matrix = Some m0, cs_statements_prepared = 0, cs_fail_before_commit = False\<rparr>"
  have "\<exists>m'. reclaim_trailing_orphans s0 = Inr (s0\<lparr>cs_matrix := Some m'\<rparr>) \<and> matrix_inv m' \<and>
     matrix_rows m' = n \<and> matrix_view m' = take n (matrix_view m0) \<and> matrix_dims m' = matrix_dims m0"
    by (rule reclaim_ok) (use m0(3) assms(5,6) in \<open>simp_all add: s0_def R\<close>)
  then obtain m' where m': "reclaim_trailing_orphans s0 = Inr (s0\<lparr>cs_matrix := Some m'\<rparr>)"
    "matrix_inv m'" "matrix_rows m' = n" "matrix_view m' = take n (matrix_view m0)"
    "matrix_dims m' = matrix_dims m0" by blast
  define s1 where "s1 = s0\<lparr>cs_matrix := Some m'\<rparr>"
  have v: "verify s1 = Inr (Integrity_Ok (length (filter cr_live (db_chunks db))))"
    using table_ok_verify [of s1 m'] assms(5) m'(3) by (simp add: s1_def s0_def)
  have "meta_u32 db ''schema_version'' = Inr SCHEMA_VERSION"
    using assms(7) by (simp add: meta_u32_def parse_uint_show SCHEMA_VERSION_def)
  then have "store_open dir = Inr s1"
    using assms(1-3) m0(1) m'(1) v
    by (simp add: store_open_def connection_open_def matrix_open_mut_def Let_def flip: s0_def s1_def)
  moreover have "entries (db_chunks db) (take n (matrix_view m)) = entries (db_chunks db) (matrix_view m)"
    using table_ok_set [OF assms(5)] by (auto simp: entries_def)
  ultimately show ?thesis using assms m' m0(4) R
    by (auto simp: store_inv_def store_view_def store_dims_def s1_def s0_def)
qed

section \<open>Compaction\<close>

definition gen_ok :: "string \<Rightarrow> bool" where
  \<comment> \<open>process id and nanoseconds\<close>
  "gen_ok gen \<longleftrightarrow> list_all (\<lambda>c. byte_in 48 57 c \<or> c = CHR ''-'') gen"

definition fresh_generation :: "chunk_store \<Rightarrow> string \<Rightarrow> bool" where
  "fresh_generation s gen \<longleftrightarrow> gen_ok gen \<and>
     generation_name DB_NAME gen \<notin> {cs_db_path s, cs_matrix_path s} \<and>
     generation_name MATRIX_NAME gen \<notin> {cs_db_path s, cs_matrix_path s}"

lemma gen_char: "byte_in 48 57 c \<or> c = CHR ''-'' \<Longrightarrow> plain_char c"
  by (auto simp: plain_char_def byte_in_def is_ascii_def newline_def carriage_return_def)

lemma generation_names:
  assumes "gen_ok gen"
  shows "plain_name (generation_name DB_NAME gen)" "plain_name (generation_name MATRIX_NAME gen)"
    "distinct [generation_name DB_NAME gen, generation_name MATRIX_NAME gen, MANIFEST_NAME]"
proof -
  have g: "list_all plain_char gen"
    using assms by (auto simp: gen_ok_def list_all_iff intro: gen_char)
  have "list_all plain_char (DB_NAME @ ''.generation-'')" "list_all plain_char (MATRIX_NAME @ ''.generation-'')"
    by code_simp+
  then show "plain_name (generation_name DB_NAME gen)" "plain_name (generation_name MATRIX_NAME gen)"
    using g by (simp_all add: plain_name_def generation_name_def)
  have "hd (generation_name DB_NAME gen) = CHR ''c''" "hd (generation_name MATRIX_NAME gen) = CHR ''e''"
    "hd MANIFEST_NAME = CHR ''s''"
    by (simp_all add: generation_name_def store_consts)
  then show "distinct [generation_name DB_NAME gen, generation_name MATRIX_NAME gen, MANIFEST_NAME]"
    by auto
qed

lemma length_view_row: "matrix_inv m \<Longrightarrow> r < matrix_rows m \<Longrightarrow> length (matrix_view m ! r) = matrix_dims m"
  using matrix_inv_row_range [of m r]
  by (auto simp: matrix_view_def row_bytes_def matrix_rows_def matrix_dims_def length_f16_of_bytes Let_def)

lemma live_entries_ok:
  assumes "matrix_inv m" "table_ok (matrix_rows m) (db_chunks db)"
  shows "live_entries m db = Inr (map (\<lambda>c. (cr_rowid c, cr_rec c, matrix_view m ! cr_rowid c))
           (filter cr_live (db_chunks db)))"
  unfolding live_entries_def
  by (rule map_res_Inr) (use assms table_ok_set [OF assms(2)] in
    \<open>auto simp: row_matrix_view row_to_record_id table_ok_def\<close>)

lemma copy_live_ok:
  assumes "matrix_inv m" "map cr_rowid (db_chunks tx) = [0..<matrix_rows m]"
    "distinct (live_hashes (db_chunks tx) @ map (\<lambda>(_, rec, _). rec_content_hash rec) rs)"
    "\<And>o' rec v. (o', rec, v) \<in> set rs \<Longrightarrow> length v = matrix_dims m"
    "matrix_rows m + length rs < 2 ^ 64"
  shows "\<exists>m'. copy_live m tx rs = Inr (m', tx\<lparr>db_chunks := db_chunks tx @
       fresh_rows (matrix_rows m) (map (\<lambda>(_, rec, _). rec) rs)\<rparr>) \<and> matrix_inv m' \<and>
     matrix_view m' = matrix_view m @ map (\<lambda>(_, _, v). v) rs \<and>
     mx_header m' = (mx_header m)\<lparr>h_rows := matrix_rows m + length rs\<rparr>"
  using assms
proof (induction rs arbitrary: m tx)
  case Nil
  then show ?case by (auto simp: matrix_rows_def)
next
  case (Cons e rs)
  obtain r rec v where e: "e = (r, rec, v)" by (cases e)
  let ?c = "\<lparr>cr_rowid = matrix_rows m, cr_rec = rec, cr_live = True\<rparr>"
  obtain m1 where m1: "append_row m v = Inr (matrix_rows m, m1)" "matrix_inv m1"
    "mx_header m1 = (mx_header m)\<lparr>h_rows := matrix_rows m + 1\<rparr>" "matrix_view m1 = matrix_view m @ [v]"
    using append_row_ok [of m v] Cons.prems(1,5) Cons.prems(4) [of r rec v] by (auto simp: e)
  have R: "matrix_rows m1 = matrix_rows m + 1" "matrix_dims m1 = matrix_dims m"
    using m1(3) by (simp_all add: matrix_rows_def matrix_dims_def)
  define tx1 where "tx1 = tx\<lparr>db_chunks := db_chunks tx @ [?c]\<rparr>"
  have i: "insert_chunk tx (matrix_rows m) rec = Inr tx1"
    using insert_chunks_ok [OF Cons.prems(2), of "[rec]"] Cons.prems(3)
    by (auto simp: e tx1_def bind_res_Inr_conv)
  have "\<exists>m'. copy_live m1 tx1 rs = Inr (m', tx1\<lparr>db_chunks := db_chunks tx1 @
       fresh_rows (matrix_rows m1) (map (\<lambda>(_, rec, _). rec) rs)\<rparr>) \<and> matrix_inv m' \<and>
     matrix_view m' = matrix_view m1 @ map (\<lambda>(_, _, v). v) rs \<and>
     mx_header m' = (mx_header m1)\<lparr>h_rows := matrix_rows m1 + length rs\<rparr>"
  proof (rule Cons.IH [OF m1(2)])
    show "distinct (live_hashes (db_chunks tx1) @ map (\<lambda>(_, rec, _). rec_content_hash rec) rs)"
      using Cons.prems(3) by (auto simp: tx1_def e live_hashes_def)
  qed (use Cons.prems(2,4,5) R in \<open>auto simp: tx1_def e\<close>)
  then show ?case using m1 R i by (auto simp: e tx1_def)
qed

lemma create_header: "create d w = Inr m \<Longrightarrow> h_dims (mx_header m) = d \<and> h_model_id (mx_header m) = w"
  by (auto simp: create_def Let_def bind_res_Inr_conv)

lemma compact_build_ok:
  assumes "d < 2 ^ 32" "length w \<le> MODEL_ID_CAPACITY" "valid_utf8 w"
    "distinct (map (\<lambda>(_, rec, _). rec_content_hash rec) rs)"
    "\<And>o' rec v. (o', rec, v) \<in> set rs \<Longrightarrow> length v = d" "length rs < 2 ^ 64"
  shows "\<exists>db file m. compact_build d w ix rs = Inr (db, file) \<and>
     db_chunks db = fresh_rows 0 (map (\<lambda>(_, rec, _). rec) rs) \<and>
     db_meta db ''schema_version'' = Some (show_nat SCHEMA_VERSION) \<and> indexed_commit_db db = ix \<and>
     open_mut file = Inr m \<and> matrix_inv m \<and> matrix_view m = map (\<lambda>(_, _, v). v) rs \<and>
     matrix_dims m = d \<and> matrix_model_id m = w \<and> file = as_bytes (mx_map m)"
proof -
  obtain m0 where m0: "create d w = Inr m0" "matrix_inv m0" "matrix_view m0 = []" "matrix_dims m0 = d"
    "matrix_model_id m0 = w" "matrix_rows m0 = 0"
    using create_ok [OF assms(1-3)] by blast
  define db0 where "db0 = (let c = set_meta ''schema_version'' (show_nat SCHEMA_VERSION) init_schema
     in case ix of None \<Rightarrow> c | Some commit \<Rightarrow> set_meta ''indexed_commit'' commit c)"
  have db0: "db_chunks db0 = []" "db_meta db0 ''schema_version'' = Some (show_nat SCHEMA_VERSION)"
    "indexed_commit_db db0 = ix"
    by (auto simp: db0_def Let_def set_meta_def init_schema_def indexed_commit_db_def split: option.splits)
  have "\<exists>m'. copy_live m0 db0 rs = Inr (m', db0\<lparr>db_chunks := db_chunks db0 @
       fresh_rows (matrix_rows m0) (map (\<lambda>(_, rec, _). rec) rs)\<rparr>) \<and> matrix_inv m' \<and>
     matrix_view m' = matrix_view m0 @ map (\<lambda>(_, _, v). v) rs \<and>
     mx_header m' = (mx_header m0)\<lparr>h_rows := matrix_rows m0 + length rs\<rparr>"
    by (rule copy_live_ok) (use assms m0 in \<open>auto simp: db0 live_hashes_def\<close>)
  then obtain m1 where m1: "copy_live m0 db0 rs = Inr (m1, db0\<lparr>db_chunks :=
       fresh_rows 0 (map (\<lambda>(_, rec, _). rec) rs)\<rparr>)" "matrix_inv m1"
     "matrix_view m1 = map (\<lambda>(_, _, v). v) rs" "mx_header m1 = (mx_header m0)\<lparr>h_rows := length rs\<rparr>"
    using m0 db0 by auto
  have dm: "matrix_dims m1 = d" "matrix_model_id m1 = w"
    using m1(4) m0(4,5) by (simp_all add: matrix_dims_def matrix_model_id_def)
  obtain m2 where m2: "open_mut (set_len (HEADER_SIZE + matrix_rows m1 * d * 2) (as_bytes (mx_map m1))) = Inr m2"
    "matrix_inv m2" "mx_header m2 = mx_header m1" "matrix_view m2 = matrix_view m1"
    using open_truncated [OF m1(2)] dm by auto
  have f: "as_bytes (mx_map m2) = set_len (HEADER_SIZE + matrix_rows m1 * d * 2) (as_bytes (mx_map m1))"
    using m2(1) by (auto simp: open_mut_def bind_res_Inr_conv)
  have "compact_build d w ix rs = Inr (db0\<lparr>db_chunks := fresh_rows 0 (map (\<lambda>(_, rec, _). rec) rs)\<rparr>,
      set_len (HEADER_SIZE + matrix_rows m1 * d * 2) (as_bytes (mx_map m1)))"
    using m0(1) m1(1) flush_ok [OF m1(2)]
    by (simp add: compact_build_def db0_def Let_def HEADER_SIZE_def)
  then show ?thesis using db0 m2 m1(3) dm f
    by (auto simp: indexed_commit_db_def matrix_dims_def matrix_model_id_def)
qed

lemma row_mapping_zip:
  "map (\<lambda>(new_row, (old_row, _, _)). (old_row, new_row)) (enumerate k xs) = zip (map fst xs) [k..<k + length xs]"
  by (induction xs arbitrary: k) (auto simp: upt_conv_Cons simp del: upt_Suc)

lemma active_paths_disk_of: "store_inv s \<Longrightarrow> active_paths (disk_of s) = Inr (cs_db_path s, cs_matrix_path s)"
  by (auto elim!: store_invE simp: disk_of_def Let_def) (metis (no_types, lifting) active_paths_cong fun_upd_other)

definition compacted_view :: "chunk_store \<Rightarrow> entry list" where
  "compacted_view s = filter (\<lambda>e. e_live e) (store_view s)"

lemma compact_ok:
  assumes inv: "store_inv s" and fg: "fresh_generation s gen"
  shows "\<exists>rep s'. compact gen s = (Inr rep, s') \<and> store_inv s' \<and> store_view s' = compacted_view s \<and>
     row_mapping rep = zip (live_rows s) [0..<length (live_rows s)] \<and>
     live_before rep = length (compacted_view s) \<and> live_after rep = length (compacted_view s) \<and>
     dead_reclaimed rep = length (store_view s) - length (compacted_view s) \<and>
     indexed_commit s' = indexed_commit s \<and> store_dims s' = store_dims s \<and>
     cs_db_path s' = generation_name DB_NAME gen \<and> cs_matrix_path s' = generation_name MATRIX_NAME gen"
proof -
  obtain m where m: "cs_matrix s = Some m" "matrix_inv m" "table_ok (matrix_rows m) (db_chunks (cs_conn s))"
    "store_view s = entries (db_chunks (cs_conn s)) (matrix_view m)"
    "distinct [cs_db_path s, cs_matrix_path s, MANIFEST_NAME]"
    using inv by (auto elim: store_invE)
  let ?ndb = "generation_name DB_NAME gen" and ?nmx = "generation_name MATRIX_NAME gen"
  let ?live = "filter cr_live (db_chunks (cs_conn s))"
  define rs where "rs = map (\<lambda>c. (cr_rowid c, cr_rec c, matrix_view m ! cr_rowid c)) ?live"
  have le: "live_entries m (cs_conn s) = Inr rs"
    using live_entries_ok [OF m(2,3)] by (simp add: rs_def)
  have h: "header_ok (mx_header m)" using m(2) by (simp add: matrix_inv_def)
  have dist: "distinct (map (\<lambda>(_, rec, _). rec_content_hash rec) rs)"
    using m(3) by (simp add: rs_def table_ok_def live_hashes_def comp_def)
  have lens: "length v = matrix_dims m" if "(o', rec, v) \<in> set rs" for o' rec v
    using that table_ok_set [OF m(3)] length_view_row [OF m(2)] by (auto simp: rs_def)
  have "length rs \<le> matrix_rows m" using table_ok_length [OF m(3)] length_filter_le [of cr_live "db_chunks (cs_conn s)"]
    by (simp add: rs_def)
  then have "length rs < 2 ^ 64" using h by (simp add: header_ok_def matrix_rows_def)
  then have "\<exists>db file m2. compact_build (matrix_dims m) (matrix_model_id m) (indexed_commit s) rs = Inr (db, file) \<and>
     db_chunks db = fresh_rows 0 (map (\<lambda>(_, rec, _). rec) rs) \<and>
     db_meta db ''schema_version'' = Some (show_nat SCHEMA_VERSION) \<and> indexed_commit_db db = indexed_commit s \<and>
     open_mut file = Inr m2 \<and> matrix_inv m2 \<and> matrix_view m2 = map (\<lambda>(_, _, v). v) rs \<and>
     matrix_dims m2 = matrix_dims m \<and> matrix_model_id m2 = matrix_model_id m \<and> file = as_bytes (mx_map m2)"
    by (intro compact_build_ok) (use dist lens h in \<open>auto simp: header_ok_def matrix_dims_def matrix_model_id_def\<close>)
  then obtain db nfile m2 where cb: "compact_build (matrix_dims m) (matrix_model_id m) (indexed_commit s) rs = Inr (db, nfile)"
    "db_chunks db = fresh_rows 0 (map (\<lambda>(_, rec, _). rec) rs)"
    "db_meta db ''schema_version'' = Some (show_nat SCHEMA_VERSION)" "indexed_commit_db db = indexed_commit s"
    "open_mut nfile = Inr m2" "matrix_inv m2" "matrix_view m2 = map (\<lambda>(_, _, v). v) rs"
    "matrix_dims m2 = matrix_dims m" by blast
  have gn: "plain_name ?ndb" "plain_name ?nmx" "distinct [?ndb, ?nmx, MANIFEST_NAME]"
    using generation_names fg by (auto simp: fresh_generation_def)
  have new: "?ndb \<notin> {cs_db_path s, cs_matrix_path s}" "?nmx \<notin> {cs_db_path s, cs_matrix_path s}"
    using fg by (auto simp: fresh_generation_def)
  define dir2 where "dir2 = (disk_of s)(?ndb \<mapsto> DbFile db, ?nmx \<mapsto> RawFile nfile)"
  have ap: "active_paths_without_manifest dir2 (cs_matrix_path s) = Inr (cs_db_path s, cs_matrix_path s)"
  proof -
    have "active_paths dir2 = active_paths (disk_of s)"
      by (rule active_paths_cong) (use gn(3) in \<open>auto simp: dir2_def\<close>)
    then show ?thesis
      using active_paths_disk_of [OF inv] by (simp add: active_paths_without_manifest_def)
  qed
  define dir5 where "dir5 = remove_unless (cs_db_path s) ?ndb (remove_unless (cs_matrix_path s) ?nmx
      (publish_manifest ?ndb ?nmx dir2))"
  define s' where "s' = s\<lparr>cs_dir := dir5, cs_db_path := ?ndb, cs_conn := db, cs_matrix_path := ?nmx,
      cs_matrix := Some m2\<rparr>"
  define D where "D = compacted_view s"
  have parts: "map (\<lambda>(_, rec, _). rec) rs = map (\<lambda>e. e_rec e) D" "map (\<lambda>(_, _, v). v) rs = map (\<lambda>e. e_vec e) D"
    by (simp_all add: rs_def D_def compacted_view_def m(4) entries_def filter_map comp_def)
  have v: "entries (db_chunks db) (matrix_view m2) = D"
    using entries_append_fresh [of "[]" 0 "[]" D]
    by (simp add: cb parts entries_def D_def compacted_view_def)
  have r2: "matrix_rows m2 = length rs" using cb(7) by (metis length_map length_matrix_view)
  have t2: "table_ok (matrix_rows m2) (db_chunks db)"
    using dist m(3) r2 by (auto simp: table_ok_def cb(2) rs_def comp_def dest!: fresh_rows_rec)
  have "active_paths dir5 = active_paths (publish_manifest ?ndb ?nmx dir2)"
    by (rule active_paths_cong) (use m(5) in \<open>auto simp: dir5_def remove_unless_def\<close>)
  then have ap5: "active_paths dir5 = Inr (?ndb, ?nmx)" using active_paths_published gn by simp
  have inv': "store_inv s'" using cb(3,6) t2 ap5 gn(3) by (simp add: store_inv_def s'_def)
  have view: "store_view s' = D" using v by (simp add: store_view_def s'_def)
  define rep where "rep = \<lparr>live_before = st_live (stats s), dead_reclaimed = st_dead (stats s),
      live_after = st_live (stats s'), row_mapping = map (\<lambda>(new_row, (old_row, _, _)). (old_row, new_row)) (enumerate 0 rs)\<rparr>"
  have "compact gen s = (Inr rep, s')"
    using ap cb(1,5) new gn(3)
    by (simp add: compact_def matrix_ref_def m(1) le Let_def rep_def s'_def dir5_def dir2_def)
  moreover have "live_before rep = length D" "live_after rep = length D"
    using live_count_view [OF inv] live_count_view [OF inv'] view
    by (auto simp: rep_def stats_def stats_db_def Let_def D_def compacted_view_def)
  moreover have "dead_reclaimed rep = length (store_view s) - length D"
    using sum_length_filter_compl [of cr_live "db_chunks (cs_conn s)"] live_count_view [OF inv]
    by (simp add: rep_def stats_def stats_db_def Let_def D_def compacted_view_def m(4))
  moreover have "row_mapping rep = zip (live_rows s) [0..<length (live_rows s)]"
    by (simp add: rep_def row_mapping_zip) (simp add: rs_def live_rows_def comp_def)
  ultimately show ?thesis using inv' view cb(4,8)
    by (intro exI [of _ rep] exI [of _ s']) (simp add: D_def s'_def indexed_commit_def store_dims_def m(1))
qed

end
