(* ===== verification/Store_Correct.thy ===== *)
theory Store_Correct
  imports Store_Props
begin

text \<open>
  The remaining operations of the chunk store, the reachable stores, and the store's properties:
  batch insertion refines the abstract insertion and is atomic, the integrity check is exact, crash
  recovery and compaction keep the live content, and every reachable store verifies.
\<close>

section \<open>Creating, reading and tombstoning\<close>

lemma store_create_ok:
  assumes "dir DB_NAME = None" "dir MATRIX_NAME = None" "dir MANIFEST_NAME = None"
    "dims < 2 ^ 32" "length model \<le> MODEL_ID_CAPACITY" "valid_utf8 model"
  shows "\<exists>s. store_create dir dims model = Inr s \<and> store_inv s \<and> store_view s = [] \<and>
     store_dims s = dims \<and> cs_db_path s = DB_NAME \<and> cs_matrix_path s = MATRIX_NAME \<and> \<not> cs_fail_before_commit s"
proof -
  obtain m where m: "create dims model = Inr m" "matrix_inv m" "matrix_dims m = dims" "matrix_rows m = 0"
    using create_ok [OF assms(4-6)] by blast
  have "hd DB_NAME = CHR ''c''" "hd MATRIX_NAME = CHR ''e''" "hd MANIFEST_NAME = CHR ''s''"
    by (simp_all add: store_consts)
  then have "distinct [DB_NAME, MATRIX_NAME, MANIFEST_NAME]" by auto
  then show ?thesis using m assms
    by (auto simp: store_create_def Let_def store_inv_def store_view_def store_dims_def entries_def table_ok_def
        live_hashes_def init_schema_def set_meta_def active_paths_def)
qed

definition spec_get :: "entry list \<Rightarrow> nat \<Rightarrow> chunk_record option" where
  "spec_get V r = (if r < length V \<and> e_live (V ! r) then Some (e_rec (V ! r)) else None)"

definition spec_tombstone :: "nat list \<Rightarrow> entry list \<Rightarrow> entry list" where
  "spec_tombstone rows V = map (\<lambda>(i, (r, l, v)). (r, l \<and> i \<notin> set rows, v)) (enumerate 0 V)"

definition spec_rekey :: "string \<Rightarrow> string \<Rightarrow> entry list \<Rightarrow> entry list" where
  "spec_rekey from to V =
     map (\<lambda>(r, l, v). (if rec_file r = from \<and> l then r\<lparr>rec_file := to\<rparr> else r, l, v)) V"

lemma filter_rowid:
  assumes "table_ok n cs"
  shows "filter (\<lambda>c. cr_rowid c = r \<and> cr_live c) cs = (if r < n \<and> cr_live (cs ! r) then [cs ! r] else [])"
proof -
  have "distinct (map cr_rowid cs)" using assms by (simp add: table_ok_def)
  then have d: "distinct cs" by (simp add: distinct_map)
  show ?thesis
  proof (cases "r < n \<and> cr_live (cs ! r)")
    case True
    have "filter (\<lambda>c. cr_rowid c = r \<and> cr_live c) cs = filter (\<lambda>c. c = cs ! r) cs"
      by (rule filter_cong) (use True table_ok_set [OF assms] table_ok_rowid [OF assms] in auto)
    then show ?thesis using True d table_ok_length [OF assms] by (simp add: filter_unique)
  next
    case False
    then have "filter (\<lambda>c. cr_rowid c = r \<and> cr_live c) cs = []"
      using table_ok_set [OF assms] by (auto simp: filter_empty_conv)
    then show ?thesis using False by simp
  qed
qed

lemma get_row_view: "store_inv s \<Longrightarrow> get_row s r = spec_get (store_view s) r"
proof -
  assume "store_inv s"
  then obtain m where m: "table_ok (matrix_rows m) (db_chunks (cs_conn s))"
    "store_view s = entries (db_chunks (cs_conn s)) (matrix_view m)" by (auto elim: store_invE)
  have "length (rec_content_hash (cr_rec (db_chunks (cs_conn s) ! r))) = 32" if "r < matrix_rows m"
    using m(1) that by (auto simp: table_ok_def table_ok_length [OF m(1)])
  then show ?thesis
    by (auto simp: get_row_def first_row_def filter_rowid [OF m(1)] spec_get_def m(2) table_ok_length [OF m(1)]
        entries_def row_to_record_id)
qed

text \<open>The joined query fills each slot of the output with what a single lookup returns.\<close>

lemma join_ids_table:
  assumes "table_ok n (db_chunks db)"
  shows "join_ids db rows = map (\<lambda>(ord, r). (ord, map_option row_to_record
     (first_row (\<lambda>c. cr_rowid c = r \<and> cr_live c) db))) (enumerate 0 rows)"
proof -
  have "(case filter (\<lambda>c. cr_rowid c = r \<and> cr_live c) (db_chunks db) of [] \<Rightarrow> [(ord, None)]
      | c # cs \<Rightarrow> map (\<lambda>c. (ord, Some (row_to_record c))) (c # cs)) =
     [(ord, map_option row_to_record (first_row (\<lambda>c. cr_rowid c = r \<and> cr_live c) db))]" for ord r
    by (simp add: first_row_def filter_rowid [OF assms])
  then have "join_ids db rows = concat (map (\<lambda>x. [(fst x, map_option row_to_record
     (first_row (\<lambda>c. cr_rowid c = snd x \<and> cr_live c) db))]) (enumerate 0 rows))"
    unfolding join_ids_def by (intro arg_cong [where f = concat] map_cong refl) (simp add: case_prod_unfold)
  then show ?thesis by (simp add: case_prod_unfold)
qed

lemma fill_slots:
  "fold (\<lambda>(ord, present) out. case present of None \<Rightarrow> out | Some rec \<Rightarrow> out[ord := Some rec])
     (map (\<lambda>(ord, r). (ord, f r)) (enumerate (length done') rows)) (done' @ replicate (length rows) None) =
   done' @ map f rows"
proof (induction rows arbitrary: done')
  case (Cons r rows)
  from Cons.IH [of "done' @ [f r]"] show ?case
    by (cases "f r") (simp_all add: list_update_append)
qed simp

lemma get_many_map:
  assumes "store_inv s"
  shows "fst (get_many s rows) = map (get_row s) rows"
proof -
  obtain n where "table_ok n (db_chunks (cs_conn s))" using assms by (auto elim: store_invE)
  from fill_slots [of "get_row s" "[]" rows] show ?thesis
    by (simp add: get_many_def join_ids_table [OF \<open>table_ok n _\<close>] get_row_def)
qed

lemma tombstone_chunks:
  "db_chunks (fold tombstone_row rows db) =
     map (\<lambda>c. if cr_rowid c \<in> set rows then c\<lparr>cr_live := False\<rparr> else c) (db_chunks db)"
proof (induction rows arbitrary: db)
  case (Cons r rows)
  have "(\<lambda>c. if cr_rowid c \<in> set rows then c\<lparr>cr_live := False\<rparr> else c) \<circ>
        (\<lambda>c. if cr_rowid c = r \<and> cr_live c then c\<lparr>cr_live := False\<rparr> else c) =
        (\<lambda>c::chunk_row. if cr_rowid c \<in> set (r # rows) then c\<lparr>cr_live := False\<rparr> else c)"
    by (auto simp: fun_eq_iff)
  then show ?case by (simp add: Cons.IH) (simp add: tombstone_row_def)
qed simp

lemma tombstone_meta: "db_meta (fold tombstone_row rows db) = db_meta db"
  by (induction rows arbitrary: db) (simp_all add: tombstone_row_def)

lemma tombstone_hashes:
  "live_hashes (map (\<lambda>c. if cr_rowid c \<in> R then c\<lparr>cr_live := False\<rparr> else c) cs) =
   map (rec_content_hash \<circ> cr_rec) (filter (\<lambda>c. cr_rowid c \<notin> R) (filter cr_live cs))"
  by (induction cs) (auto simp: live_hashes_def)

lemma enumerate_table:
  assumes "map cr_rowid cs = [k..<k + length cs]"
  shows "enumerate k (entries cs M) = map (\<lambda>c. (cr_rowid c, (cr_rec c, cr_live c, M ! cr_rowid c))) cs"
  using assms by (induction cs arbitrary: k) (auto simp: entries_def upt_conv_Cons simp del: upt_Suc)

lemma tombstone_ok:
  assumes "store_inv s"
  shows "store_inv (tombstone s rows)" "store_view (tombstone s rows) = spec_tombstone rows (store_view s)"
proof -
  obtain m where m: "cs_matrix s = Some m" "matrix_inv m" "table_ok (matrix_rows m) (db_chunks (cs_conn s))"
    "store_view s = entries (db_chunks (cs_conn s)) (matrix_view m)" using assms by (auto elim: store_invE)
  let ?f = "\<lambda>c :: chunk_row. if cr_rowid c \<in> set rows then c\<lparr>cr_live := False\<rparr> else c"
  have "map cr_rowid (map ?f cs) = map cr_rowid cs" for cs by simp
  moreover have "distinct (live_hashes (map ?f (db_chunks (cs_conn s))))"
    unfolding tombstone_hashes using m(3) by (simp add: table_ok_def live_hashes_def distinct_map_filter del: filter_filter)
  ultimately have t: "table_ok (matrix_rows m) (map ?f (db_chunks (cs_conn s)))"
    using m(3) by (auto simp: table_ok_def simp del: map_map)
  then show "store_inv (tombstone s rows)"
    using assms m by (auto simp: store_inv_def tombstone_def tombstone_chunks tombstone_meta)
  have "map cr_rowid (db_chunks (cs_conn s)) = [0..<0 + length (db_chunks (cs_conn s))]"
    using m(3) table_ok_length [OF m(3)] by (simp add: table_ok_def)
  from enumerate_table [OF this] show "store_view (tombstone s rows) = spec_tombstone rows (store_view s)"
    by (auto simp: store_view_def m spec_tombstone_def tombstone_def tombstone_chunks) (auto simp: entries_def)
qed

lemma rekey_hash [simp]: "rec_content_hash (cr_rec (rekey_row from to c)) = rec_content_hash (cr_rec c)"
  and rekey_live [simp]: "cr_live (rekey_row from to c) = cr_live c"
  and rekey_rowid [simp]: "cr_rowid (rekey_row from to c) = cr_rowid c"
  by (simp_all add: rekey_row_def)

lemma rekey_ok:
  assumes "store_inv s"
  shows "store_inv (snd (rekey_file s from to))"
    "store_view (snd (rekey_file s from to)) = spec_rekey from to (store_view s)"
proof -
  have "live_hashes (map (rekey_row from to) cs) = live_hashes cs" for cs
    by (induction cs) (auto simp: live_hashes_def)
  then show "store_inv (snd (rekey_file s from to))"
    using assms by (auto simp: store_inv_def rekey_file_def Let_def table_ok_def comp_def split: option.splits)
  show "store_view (snd (rekey_file s from to)) = spec_rekey from to (store_view s)"
    by (auto simp: store_view_def rekey_file_def Let_def spec_rekey_def entries_def rekey_row_def
        split: option.splits)
qed

section \<open>The store interface\<close>

text \<open>
  What the indexing pipeline relies on, independent of the files behind it: a batch does what
  \<open>spec_insert\<close> says and tombstoning clears live flags. The client's lemma: a batch that is
  inserted again allocates no row and returns the same rows.
\<close>

locale live_store =
  fixes inv :: "'s \<Rightarrow> bool"
    and view :: "'s \<Rightarrow> entry list"
    and ok :: "'s \<Rightarrow> (chunk_record \<times> f16 list) list \<Rightarrow> bool"
    and ins :: "'s \<Rightarrow> (chunk_record \<times> f16 list) list \<Rightarrow> (store_error, nat list) res \<times> 's"
    and tomb :: "'s \<Rightarrow> nat list \<Rightarrow> 's"
  assumes ins_law: "inv s \<Longrightarrow> ok s cs \<Longrightarrow> spec_insert (view s) cs = (rows, V) \<Longrightarrow>
      \<exists>s'. ins s cs = (Inr rows, s') \<and> inv s' \<and> view s' = V"
    and tomb_law: "inv s \<Longrightarrow> inv (tomb s rs) \<and> view (tomb s rs) = spec_tombstone rs (view s)"
begin

lemma reinsert:
  assumes "inv s" "ok s cs" "ins s cs = (Inr rows, s1)" "ok s1 cs"
  shows "\<exists>s2. ins s1 cs = (Inr rows, s2) \<and> inv s2 \<and> view s2 = view s1"
proof -
  obtain rows' V where sp: "spec_insert (view s) cs = (rows', V)" by fastforce
  from ins_law [OF assms(1,2) sp] assms(3) have 1: "rows' = rows" "inv s1" "view s1 = V" by auto
  have all: "\<forall>k < length cs. find_live V (rec_content_hash (fst (cs ! k))) = Some (rows ! k)"
    "length rows = length cs"
    using spec_insert_found [OF sp] 1 by auto
  have "spec_insert V cs = (rows, V)" using all
  proof (induction cs arbitrary: rows)
    case (Cons c cs)
    then obtain r rs where rows: "rows = r # rs" by (cases rows) auto
    have "find_live V (rec_content_hash (fst c)) = Some r" using Cons.prems rows by auto
    moreover have "\<forall>k < length cs. find_live V (rec_content_hash (fst (cs ! k))) = Some (rs ! k)"
      using Cons.prems(1) rows by auto
    ultimately show ?case using Cons.IH [of rs] Cons.prems(2) rows by (cases c) auto
  qed simp
  then show ?thesis using ins_law [of s1 cs rows V] 1 assms(4) by auto
qed

end

definition batch_commits :: "chunk_store \<Rightarrow> (chunk_record \<times> f16 list) list \<Rightarrow> bool" where
  "batch_commits s cs \<longleftrightarrow> batch_ok s cs \<and> \<not> cs_fail_before_commit s"

interpretation st: live_store store_inv store_view batch_commits insert_batch tombstone
proof
  fix s cs rows V
  assume "store_inv s" "batch_commits s cs" "spec_insert (store_view s) cs = (rows, V)"
  then show "\<exists>s'. insert_batch s cs = (Inr rows, s') \<and> store_inv s' \<and> store_view s' = V"
    using insert_batch_commit by (fastforce simp: batch_commits_def)
qed (auto simp: tombstone_ok)

section \<open>Reachable stores\<close>

lemma check_dims_error:
  assumes "\<forall>c \<in> set cs. length (snd c) < 2 ^ 32" "\<exists>c \<in> set cs. length (snd c) \<noteq> d"
  shows "\<exists>got. check_dims d cs = Inl (Raise (DimensionMismatch d got)) \<and> got \<noteq> d \<and>
     (\<exists>c \<in> set cs. length (snd c) = got)"
  using assms
proof (induction cs)
  case (Cons c cs)
  obtain rec v where c: "c = (rec, v)" by (cases c)
  show ?case
  proof (cases "length v = d")
    case True
    then obtain got where "check_dims d cs = Inl (Raise (DimensionMismatch d got))" "got \<noteq> d"
      "\<exists>c \<in> set cs. length (snd c) = got" using Cons c by auto
    then show ?thesis using True Cons.prems by (intro exI [of _ got]) (simp add: c)
  next
    case False
    then show ?thesis using Cons.prems(1) by (intro exI [of _ "length v"]) (simp add: c)
  qed
qed simp

lemma open_disk_of:
  assumes "store_inv s" "store_open (disk_of s) = Inr s'"
  shows "store_inv s'" "store_view s' = store_view s"
proof -
  obtain m where m: "cs_matrix s = Some m" "matrix_inv m" "table_ok (matrix_rows m) (db_chunks (cs_conn s))"
    "store_view s = entries (db_chunks (cs_conn s)) (matrix_view m)"
    "db_meta (cs_conn s) ''schema_version'' = Some (show_nat SCHEMA_VERSION)"
    "distinct [cs_db_path s, cs_matrix_path s, MANIFEST_NAME]"
    using assms by (auto elim: store_invE)
  from store_open_ok [OF active_paths_disk_of [OF assms(1)] _ _ m(2,3) order_refl m(5,6)] m(1,4,6)
  show "store_inv s'" "store_view s' = store_view s" using assms(2) by (auto simp: disk_of_def)
qed

text \<open>The batches a caller can pass: hashes have 32 bytes and the row count stays below \<open>2 ^ 63\<close>.\<close>

definition batch_typed :: "chunk_store \<Rightarrow> (chunk_record \<times> f16 list) list \<Rightarrow> bool" where
  "batch_typed s cs \<longleftrightarrow>
     (\<forall>(rec, vec) \<in> set cs. length vec < 2 ^ 32 \<and> length (rec_content_hash rec) = 32) \<and>
     length (store_view s) + length cs < 2 ^ 63"

inductive store_step :: "chunk_store \<Rightarrow> chunk_store \<Rightarrow> bool" where
  step_insert: "batch_typed s cs \<Longrightarrow> store_step s (snd (insert_batch s cs))"
| step_tombstone: "store_step s (tombstone s rows)"
| step_rekey: "store_step s (snd (rekey_file s from to))"
| step_commit: "store_step s (set_indexed_commit s commit)"
| step_fail: "store_step s (set_fail_before_commit s fail)"
| step_get_many: "store_step s (snd (get_many s rows))"
| step_take: "store_step s (snd (take_statements_prepared s))"
| step_compact: "fresh_generation s gen \<Longrightarrow> store_step s (snd (compact gen s))"
| step_reopen: "store_open (disk_of s) = Inr s' \<Longrightarrow> store_step s s'"

inductive store_reach :: "chunk_store \<Rightarrow> bool" where
  reach_create: "dir DB_NAME = None \<Longrightarrow> dir MATRIX_NAME = None \<Longrightarrow> dir MANIFEST_NAME = None \<Longrightarrow> dims < 2 ^ 32 \<Longrightarrow>
     valid_utf8 model \<Longrightarrow> store_create dir dims model = Inr s \<Longrightarrow> store_reach s"
| reach_step: "store_reach s \<Longrightarrow> store_step s s' \<Longrightarrow> store_reach s'"

inductive_cases store_stepE: "store_step s s'"

lemma insert_batch_inv:
  assumes "store_inv s" "batch_typed s cs"
  shows "store_inv (snd (insert_batch s cs))"
proof (cases "\<exists>c \<in> set cs. length (snd c) \<noteq> store_dims s")
  case True
  obtain m where m: "cs_matrix s = Some m" using assms(1) by (auto elim: store_invE)
  have "\<forall>c \<in> set cs. length (snd c) < 2 ^ 32" using assms(2) by (auto simp: batch_typed_def)
  from check_dims_error [OF this True] show ?thesis
    using assms(1) by (auto simp: insert_batch_def matrix_ref_def m store_dims_def)
next
  case False
  then have ok: "batch_ok s cs" using assms(2) by (auto simp: batch_ok_def batch_typed_def)
  show ?thesis
  proof (cases "cs_fail_before_commit s")
    case True
    then show ?thesis using insert_batch_rollback [OF assms(1) ok] by auto
  next
    case False
    then show ?thesis
      using insert_batch_commit [OF assms(1) ok False surjective_pairing] by auto
  qed
qed

lemma store_inv_hooks [simp]:
  "store_inv (s\<lparr>cs_statements_prepared := n\<rparr>) = store_inv s"
  "store_inv (s\<lparr>cs_fail_before_commit := b\<rparr>) = store_inv s"
  by (simp_all add: store_inv_def split: option.splits)

lemma store_step_inv: "store_step s s' \<Longrightarrow> store_inv s \<Longrightarrow> store_inv s'"
proof (elim store_stepE)
  fix commit assume "store_inv s" "s' = set_indexed_commit s commit"
  then show "store_inv s'" by (auto simp: store_inv_def set_indexed_commit_def set_meta_def split: option.splits)
next
  fix gen assume "store_inv s" "s' = snd (compact gen s)" "fresh_generation s gen"
  then show "store_inv s'" using compact_ok [of s gen] by auto
qed (auto simp: insert_batch_inv tombstone_ok rekey_ok open_disk_of
     set_fail_before_commit_def get_many_def take_statements_prepared_def)

lemma create_model_capacity: "create dims model = Inr m \<Longrightarrow> length model \<le> MODEL_ID_CAPACITY"
  by (auto simp: create_def encode_def Let_def split: if_splits)

lemma store_reach_inv: "store_reach s \<Longrightarrow> store_inv s"
proof (induction rule: store_reach.induct)
  case (reach_create dir dims model s)
  have "length model \<le> MODEL_ID_CAPACITY"
    using reach_create(6) create_model_capacity
    by (auto simp: store_create_def bind_res_Inr_conv split: if_splits)
  then show ?case using store_create_ok [OF reach_create(1-4) _ reach_create(5)] reach_create(6) by auto
next
  case (reach_step s s')
  then show ?case by (auto intro: store_step_inv)
qed

section \<open>Properties of the store\<close>

definition wit_rec :: "char \<Rightarrow> chunk_record" where
  "wit_rec c = \<lparr>rec_repository = ''r'', rec_file = ''f.rs'', rec_language = ''rust'', rec_symbol = [c],
     rec_symbol_type = ''fn'', rec_signature = ''fn'', rec_doc_first_line = None, rec_line_start = 1,
     rec_line_end = 2, rec_content_hash = replicate 32 c\<rparr>"

definition wit_batch :: "(chunk_record \<times> f16 list) list" where
  "wit_batch = [(wit_rec (CHR ''a''), [1]), (wit_rec (CHR ''b''), [2]), (wit_rec (CHR ''a''), [3])]"

lemma wit_store:
  obtains s where "store_create Map.empty 1 ''m'' = Inr s" "store_inv s" "store_view s = []"
    "store_dims s = 1" "cs_db_path s = DB_NAME" "cs_matrix_path s = MATRIX_NAME" "\<not> cs_fail_before_commit s"
proof -
  have "valid_utf8 ''m''" by (rule valid_utf8_ascii) (simp add: is_ascii_def)
  then show ?thesis using store_create_ok [of Map.empty 1 "''m''"] that by (auto simp: MODEL_ID_CAPACITY_def)
qed

lemma wit_batch_ok: "store_view s = [] \<Longrightarrow> store_dims s = 1 \<Longrightarrow> batch_ok s wit_batch"
  by (simp add: batch_ok_def wit_batch_def wit_rec_def)

lemma wit_batch_spec: "spec_insert [] wit_batch = ([0, 1, 0], [(wit_rec (CHR ''a''), True, [1]), (wit_rec (CHR ''b''), True, [2])])"
proof -
  have n: "replicate 32 (CHR ''a'') \<noteq> replicate 32 (CHR ''b'')" by (simp add: replicate_eq_replicate)
  show ?thesis by (simp add: wit_batch_def wit_rec_def find_live_def n n [symmetric])
qed

text \<open>
  C1: \<open>ChunkStore::insert_batch\<close> refines the abstract insertion: on a well-formed store and a batch of
  the right width it succeeds, returns for each chunk the row of the live entry with its content hash
  (existing, earlier in the batch, or newly allocated at the end), and the store then holds exactly
  the old entries followed by one live entry per novel hash.
\<close>

theorem insert_batch_refines:
  assumes "store_inv s" "batch_ok s cs" "\<not> cs_fail_before_commit s"
  shows "\<exists>s'. insert_batch s cs = (Inr (fst (spec_insert (store_view s) cs)), s') \<and> store_inv s' \<and>
     store_view s' = snd (spec_insert (store_view s) cs)"
  using insert_batch_commit [OF assms surjective_pairing] by blast

theorem insert_batch_refines_witness:
  "\<exists>s s'. store_create Map.empty 1 ''m'' = Inr s \<and> insert_batch s wit_batch = (Inr [0, 1, 0], s') \<and>
     length (store_view s') = 2"
proof -
  obtain s where s: "store_create Map.empty 1 ''m'' = Inr s" "store_inv s" "store_view s = []"
    "store_dims s = 1" "\<not> cs_fail_before_commit s" by (rule wit_store)
  show ?thesis using insert_batch_refines [OF s(2) wit_batch_ok [OF s(3,4)] s(5)] s(1,3)
    by (auto simp: wit_batch_spec)
qed

text \<open>
  C2: a batch that fails before its commit leaves the store as it was: the error is reported, the
  appended matrix rows are rolled back and the abstract content is unchanged.
\<close>

theorem insert_batch_atomic:
  assumes "store_inv s" "batch_ok s cs" "cs_fail_before_commit s"
  shows "\<exists>s'. insert_batch s cs = (Inl (Raise (Io IoOther ''injected failure before commit'')), s') \<and>
     store_inv s' \<and> store_view s' = store_view s \<and> cs_conn s' = cs_conn s"
  using insert_batch_rollback [OF assms] by blast

theorem insert_batch_atomic_witness:
  "\<exists>s s'. store_create Map.empty 1 ''m'' = Inr s \<and>
     insert_batch (set_fail_before_commit s True) wit_batch =
       (Inl (Raise (Io IoOther ''injected failure before commit'')), s') \<and> store_view s' = []"
proof -
  obtain s where s: "store_create Map.empty 1 ''m'' = Inr s" "store_inv s" "store_view s = []"
    "store_dims s = 1" by (rule wit_store)
  let ?s = "set_fail_before_commit s True"
  have "store_view ?s = []" "store_dims ?s = 1"
    using s(3,4) by (simp_all add: set_fail_before_commit_def store_view_def store_dims_def split: option.splits)
  then show ?thesis using insert_batch_atomic [of ?s wit_batch] wit_batch_ok [of ?s] s(1,2)
    by (auto simp: set_fail_before_commit_def)
qed

text \<open>
  A batch with a vector of the wrong width is refused before anything is written: the error names
  the width of the matrix and a width that occurs in the batch, and the store is unchanged.
\<close>

theorem insert_batch_dimension_error:
  assumes "store_inv s" "\<forall>c \<in> set cs. length (snd c) < 2 ^ 32" "\<exists>c \<in> set cs. length (snd c) \<noteq> store_dims s"
  shows "\<exists>got. insert_batch s cs = (Inl (Raise (DimensionMismatch (store_dims s) got)), s) \<and>
     got \<noteq> store_dims s \<and> (\<exists>c \<in> set cs. length (snd c) = got)"
proof -
  obtain m where m: "cs_matrix s = Some m" using assms(1) by (auto elim: store_invE)
  from check_dims_error [OF assms(2,3)] obtain got where
    "check_dims (store_dims s) cs = Inl (Raise (DimensionMismatch (store_dims s) got))"
    "got \<noteq> store_dims s" "\<exists>c \<in> set cs. length (snd c) = got" by blast
  then show ?thesis
    by (intro exI [of _ got]) (simp add: insert_batch_def matrix_ref_def m store_dims_def)
qed

theorem insert_batch_dimension_error_witness:
  "\<exists>s. store_create Map.empty 1 ''m'' = Inr s \<and>
     insert_batch s [(wit_rec (CHR ''a''), [1, 2])] = (Inl (Raise (DimensionMismatch 1 2)), s)"
proof -
  obtain s where s: "store_create Map.empty 1 ''m'' = Inr s" "store_inv s" "store_dims s = 1" by (rule wit_store)
  show ?thesis using insert_batch_dimension_error [OF s(2), of "[(wit_rec (CHR ''a''), [1, 2])]"] s
    by auto
qed

text \<open>
  Inserting the same batch again reuses every row: no entry is added and the rows returned are the
  ones of the first insertion.
\<close>

theorem insert_batch_idempotent:
  assumes "store_inv s" "batch_commits s cs" "insert_batch s cs = (Inr rows, s1)" "batch_commits s1 cs"
  shows "\<exists>s2. insert_batch s1 cs = (Inr rows, s2) \<and> store_inv s2 \<and> store_view s2 = store_view s1"
  using assms by (rule st.reinsert)

theorem insert_batch_idempotent_witness:
  "\<exists>s s1 s2. store_create Map.empty 1 ''m'' = Inr s \<and> insert_batch s wit_batch = (Inr [0, 1, 0], s1) \<and>
     insert_batch s1 wit_batch = (Inr [0, 1, 0], s2) \<and> store_view s2 = store_view s1"
proof -
  obtain s where s: "store_create Map.empty 1 ''m'' = Inr s" "store_inv s" "store_view s = []"
    "store_dims s = 1" "\<not> cs_fail_before_commit s" by (rule wit_store)
  have ok: "batch_ok s wit_batch" by (rule wit_batch_ok [OF s(3,4)])
  have sp: "spec_insert (store_view s) wit_batch =
      ([0, 1, 0], [(wit_rec (CHR ''a''), True, [1]), (wit_rec (CHR ''b''), True, [2])])"
    unfolding s(3) by (rule wit_batch_spec)
  from insert_batch_commit [OF s(2) ok s(5) sp] obtain s1 where s1:
    "insert_batch s wit_batch = (Inr [0, 1, 0], s1)" "store_dims s1 = 1" "\<not> cs_fail_before_commit s1"
    "length (store_view s1) = 2" using s(4) by auto
  have "batch_commits s1 wit_batch"
    using s1 by (simp add: batch_commits_def batch_ok_def wit_batch_def wit_rec_def)
  then show ?thesis using insert_batch_idempotent [OF s(2) _ s1(1)] ok s(1,5) s1(1)
    by (auto simp: batch_commits_def)
qed

text \<open>
  C5: \<open>ChunkStore::verify\<close> is exact: it answers \<open>Ok\<close> with the number of live chunks precisely when the
  metadata rows are the matrix rows, each once, and no two live chunks share a content hash.
\<close>

theorem verify_exact:
  assumes "cs_matrix s = Some m"
  shows "verify s = Inr (Integrity_Ok n) \<longleftrightarrow>
     distinct (map cr_rowid (db_chunks (cs_conn s))) \<and>
     set (map cr_rowid (db_chunks (cs_conn s))) = {0..<matrix_rows m} \<and>
     distinct (live_hashes (db_chunks (cs_conn s))) \<and>
     n = length (filter cr_live (db_chunks (cs_conn s)))"
  using assms by (rule verify_ok_conv)

theorem verify_exact_witness:
  "\<exists>s m. store_create Map.empty 1 ''m'' = Inr s \<and> cs_matrix s = Some m \<and> verify s = Inr (Integrity_Ok 0)"
proof -
  obtain s where s: "store_create Map.empty 1 ''m'' = Inr s" "store_inv s" "store_view s = []" by (rule wit_store)
  obtain m where m: "cs_matrix s = Some m" "db_chunks (cs_conn s) = []"
    "table_ok (matrix_rows m) (db_chunks (cs_conn s))"
    using s(2,3) by (auto elim!: store_invE simp: entries_def)
  have "matrix_rows m = 0" using table_ok_length [OF m(3)] m(2) by simp
  then show ?thesis using verify_exact [OF m(1), of 0] m(1,2) s(1) by (simp add: live_hashes_def)
qed

text \<open>
  C6: every store reachable from \<open>create\<close> by the public operations, with failed batches, compactions and
  reopening in any order, passes its own integrity check.
\<close>

theorem reachable_store_verifies:
  assumes "store_reach s"
  shows "verify s = Inr (Integrity_Ok (length (live_rows s)))"
proof -
  have "store_inv s" using assms by (rule store_reach_inv)
  then show ?thesis by (auto elim!: store_invE simp: table_ok_verify live_rows_def)
qed

theorem reachable_store_verifies_witness:
  "\<exists>s. store_create Map.empty 1 ''m'' = Inr s \<and> verify (tombstone s [0]) = Inr (Integrity_Ok 0)"
proof -
  obtain s where s: "store_create Map.empty 1 ''m'' = Inr s" "store_inv s" "store_view s = []" by (rule wit_store)
  have "valid_utf8 ''m''" by (rule valid_utf8_ascii) (simp add: is_ascii_def)
  then have r: "store_reach (tombstone s [0])"
    by (intro reach_step [OF reach_create [OF _ _ _ _ _ s(1)] step_tombstone]) simp_all
  have "live_rows (tombstone s [0]) = []"
    using s(2,3) by (auto elim!: store_invE simp: live_rows_def tombstone_def tombstone_row_def entries_def)
  then show ?thesis using reachable_store_verifies [OF r] s(1) by auto
qed

text \<open>
  C7: crash recovery. If the process dies after appending the vectors of a batch to the matrix and before
  committing their metadata, opening the directory again succeeds, drops the orphan rows, and yields
  a well-formed store with the content from before the batch.
\<close>

theorem open_recovers_interrupted_batch:
  assumes inv: "store_inv s" and m: "cs_matrix s = Some m"
    and dims: "\<forall>v \<in> set vs. length v = matrix_dims m"
    and lim: "length (store_view s) + length vs < 2 ^ 64"
  shows "\<exists>m' s'. append_all append_row m vs = Inr m' \<and>
     store_open (disk_of (s\<lparr>cs_matrix := Some m'\<rparr>)) = Inr s' \<and>
     store_inv s' \<and> store_view s' = store_view s \<and> cs_conn s' = cs_conn s"
proof -
  have s: "matrix_inv m" "table_ok (matrix_rows m) (db_chunks (cs_conn s))"
    "db_meta (cs_conn s) ''schema_version'' = Some (show_nat SCHEMA_VERSION)"
    "active_paths (cs_dir s) = Inr (cs_db_path s, cs_matrix_path s)"
    "distinct [cs_db_path s, cs_matrix_path s, MANIFEST_NAME]"
    "store_view s = entries (db_chunks (cs_conn s)) (matrix_view m)"
    using inv m by (auto elim: store_invE)
  have L: "length (store_view s) = matrix_rows m" using table_ok_length [OF s(2)] by (simp add: s(6))
  obtain m' where m': "append_all append_row m vs = Inr m'" "matrix_inv m'" "matrix_view m' = matrix_view m @ vs"
    using mx.append_all_ok [OF s(1), of vs] dims lim L by auto
  have R: "matrix_rows m \<le> matrix_rows m'"
    using arg_cong [OF m'(3), of length] by simp
  let ?d = "disk_of (s\<lparr>cs_matrix := Some m'\<rparr>)"
  have "active_paths ?d = active_paths (cs_dir s)"
    by (rule active_paths_cong) (use s(5) in \<open>auto simp: disk_of_def\<close>)
  then have ap: "active_paths ?d = Inr (cs_db_path s, cs_matrix_path s)" using s(4) by simp
  have e: "entries (db_chunks (cs_conn s)) (matrix_view m') = store_view s"
    using table_ok_set [OF s(2)] by (auto simp: s(6) entries_def m'(3) nth_append)
  have "\<exists>s'. store_open ?d = Inr s' \<and> store_inv s' \<and> cs_conn s' = cs_conn s \<and>
     store_view s' = entries (db_chunks (cs_conn s)) (matrix_view m') \<and> store_dims s' = matrix_dims m'"
    by (rule store_open_ok [OF ap _ _ m'(2) s(2) R s(3,5)]) (use s(5) in \<open>auto simp: disk_of_def\<close>)
  then show ?thesis using m'(1) e by auto
qed

theorem open_recovers_interrupted_batch_witness:
  "\<exists>s m m' s'. store_create Map.empty 1 ''m'' = Inr s \<and> append_all append_row m [[7], [8]] = Inr m' \<and>
     store_open (disk_of (s\<lparr>cs_matrix := Some m'\<rparr>)) = Inr s' \<and> store_view s' = []"
proof -
  obtain s where s: "store_create Map.empty 1 ''m'' = Inr s" "store_inv s" "store_view s = []"
    "store_dims s = 1" by (rule wit_store)
  obtain m where m: "cs_matrix s = Some m" using s(2) by (auto elim: store_invE)
  then have "matrix_dims m = 1" using s(4) by (simp add: store_dims_def)
  then show ?thesis using open_recovers_interrupted_batch [OF s(2) m, of "[[7], [8]]"] s(1,3) by auto
qed

text \<open>
  C8: compaction keeps exactly the live entries, records and vectors, in row order; its row mapping sends
  every live row to its new position, where the same entry is found; the counts of the report are
  right and the indexed commit is kept.
\<close>

theorem compact_preserves_live:
  assumes "store_inv s" "fresh_generation s gen"
  shows "\<exists>rep s'. compact gen s = (Inr rep, s') \<and> store_inv s' \<and>
     store_view s' = filter (\<lambda>(rec, live, vec). live) (store_view s) \<and>
     row_mapping rep = zip (live_rows s) [0..<length (live_rows s)] \<and>
     (\<forall>(old, new) \<in> set (row_mapping rep). store_view s' ! new = store_view s ! old) \<and>
     live_before rep = length (live_rows s) \<and> live_after rep = length (live_rows s) \<and>
     dead_reclaimed rep = length (store_view s) - length (live_rows s) \<and>
     indexed_commit s' = indexed_commit s"
proof -
  from compact_ok [OF assms] obtain rep s' where c: "compact gen s = (Inr rep, s')" "store_inv s'"
    "store_view s' = compacted_view s" "row_mapping rep = zip (live_rows s) [0..<length (live_rows s)]"
    "live_before rep = length (compacted_view s)" "live_after rep = length (compacted_view s)"
    "dead_reclaimed rep = length (store_view s) - length (compacted_view s)"
    "indexed_commit s' = indexed_commit s" by blast
  obtain m where m: "table_ok (matrix_rows m) (db_chunks (cs_conn s))"
    "store_view s = entries (db_chunks (cs_conn s)) (matrix_view m)" using assms by (auto elim: store_invE)
  let ?live = "filter cr_live (db_chunks (cs_conn s))"
  have cv: "compacted_view s = entries ?live (matrix_view m)"
    by (simp add: compacted_view_def m(2) entries_def filter_map comp_def)
  then have len: "length (compacted_view s) = length (live_rows s)" by (simp add: live_rows_def)
  have "store_view s' ! new = store_view s ! old" if "(old, new) \<in> set (row_mapping rep)" for old new
  proof -
    have n: "new < length ?live" "old = cr_rowid (?live ! new)"
      using that by (auto simp: c(4) live_rows_def set_zip)
    then have "?live ! new \<in> set (db_chunks (cs_conn s))" by (meson filter_is_subset nth_mem subset_iff)
    then have "old < matrix_rows m" "db_chunks (cs_conn s) ! old = ?live ! new"
      using table_ok_set [OF m(1)] n(2) by auto
    then show ?thesis using n table_ok_length [OF m(1)] by (simp add: c(3) cv m(2) entries_def)
  qed
  moreover have "compacted_view s = filter (\<lambda>(rec, live, vec). live) (store_view s)"
    by (auto simp: compacted_view_def intro: filter_cong)
  ultimately show ?thesis using c len by auto
qed

lemma wit_generation: "gen_ok ''7-9''"
  by code_simp

lemma wit_fresh:
  "cs_db_path s = DB_NAME \<Longrightarrow> cs_matrix_path s = MATRIX_NAME \<Longrightarrow> fresh_generation s ''7-9''"
  using wit_generation by (simp add: fresh_generation_def generation_name_def store_consts)

theorem compact_preserves_live_witness:
  "\<exists>s rep s'. store_create Map.empty 1 ''m'' = Inr s \<and> compact ''7-9'' s = (Inr rep, s') \<and>
     store_view s' = [] \<and> live_after rep = 0"
proof -
  obtain s where s: "store_create Map.empty 1 ''m'' = Inr s" "store_inv s" "store_view s = []"
    "cs_db_path s = DB_NAME" "cs_matrix_path s = MATRIX_NAME" by (rule wit_store)
  have "live_rows s = []" using s(2,3) by (auto elim!: store_invE simp: live_rows_def entries_def)
  then show ?thesis using compact_preserves_live [OF s(2) wit_fresh [OF s(4,5)]] s(1,3) by auto
qed

text \<open>
  The directories a crash during compaction can leave: until the manifest is renamed into place only
  the files of the new generation are touched; afterwards the manifest and the new generation stay,
  whatever has been removed of the old one.
\<close>

definition compact_crash_image :: "string \<Rightarrow> chunk_store \<Rightarrow> store_dir \<Rightarrow> bool" where
  "compact_crash_image gen s d \<longleftrightarrow>
     (\<forall>f. f \<notin> {generation_name DB_NAME gen, generation_name MATRIX_NAME gen} \<longrightarrow> d f = disk_of s f) \<or>
     (\<forall>f \<in> {MANIFEST_NAME, generation_name DB_NAME gen, generation_name MATRIX_NAME gen}.
        d f = disk_of (snd (compact gen s)) f)"

lemma open_agreeing:
  assumes "store_inv s" "\<forall>f \<in> {MANIFEST_NAME, cs_db_path s, cs_matrix_path s}. d f = disk_of s f"
  shows "\<exists>s'. store_open d = Inr s' \<and> store_inv s' \<and> store_view s' = store_view s"
proof -
  obtain m where m: "cs_matrix s = Some m" "matrix_inv m" "table_ok (matrix_rows m) (db_chunks (cs_conn s))"
    "store_view s = entries (db_chunks (cs_conn s)) (matrix_view m)"
    "db_meta (cs_conn s) ''schema_version'' = Some (show_nat SCHEMA_VERSION)"
    "distinct [cs_db_path s, cs_matrix_path s, MANIFEST_NAME]"
    using assms by (auto elim: store_invE)
  have ap: "active_paths d = Inr (cs_db_path s, cs_matrix_path s)"
    using active_paths_disk_of [OF assms(1)] active_paths_cong [of d "disk_of s"] assms(2) by auto
  have "\<exists>s'. store_open d = Inr s' \<and> store_inv s' \<and> cs_conn s' = cs_conn s \<and>
     store_view s' = entries (db_chunks (cs_conn s)) (matrix_view m) \<and> store_dims s' = matrix_dims m"
    by (rule store_open_ok [OF ap _ _ m(2,3) order_refl m(5,6)])
       (use m(1,6) assms(2) in \<open>auto simp: disk_of_def\<close>)
  then show ?thesis using m(4) by auto
qed



text \<open>
  The single joined query of \<open>get_many\<close> returns, slot by slot, what \<open>get\<close> returns for each requested
  row: the record of a live row and nothing for a dead or unknown one, for any order and repetition.
\<close>

theorem get_many_is_pointwise_get:
  assumes "store_inv s"
  shows "fst (get_many s rows) = map (get_row s) rows \<and>
     map (get_row s) rows = map (\<lambda>r. if r < length (store_view s) \<and> fst (snd (store_view s ! r))
                                    then Some (fst (store_view s ! r)) else None) rows"
  using get_many_map [OF assms] get_row_view [OF assms] by (simp add: spec_get_def)

theorem get_many_is_pointwise_get_witness:
  "\<exists>s. store_create Map.empty 1 ''m'' = Inr s \<and> fst (get_many s [3, 0]) = [None, None]"
proof -
  obtain s where s: "store_create Map.empty 1 ''m'' = Inr s" "store_inv s" "store_view s = []" by (rule wit_store)
  show ?thesis using get_many_is_pointwise_get [OF s(2), of "[3, 0]"] s(1,3) by auto
qed

end
