(* ===== verification/Ranking.thy ===== *)
theory Ranking
  imports Store
begin

text \<open>
  What the retrievers share: the errors of the inference and retrieval crates with their rendering
  (\<open>crates/inference/src/embedder.rs\<close>, \<open>crates/retrieval/src/error.rs\<close>), scored rows, the ranking order
  (descending score under \<open>total_cmp\<close>, ties by ascending row), and bounded selection with a heap.
  The locale \<open>ranking\<close> shows once that keeping the best \<open>limit\<close> candidates in a heap whose top is the
  worst one is sorting everything and cutting; it is interpreted on the order of scored rows.
\<close>

section \<open>Errors\<close>

datatype infer_error =
    ModelFilesMissing string
  | GpuUnavailable string
  | Allocation nat
  | ArtifactHashMismatch string string
  | Tokenizer string
  | Runtime string
  | Metadata string

datatype retrieval_error =
    RInference infer_error
  | RStore store_error
  | RIo string
  | RTantivy string
  | RDimensionMismatch nat nat
  | RModelMismatch string string
  | RDense string
  | BothRetrieversFailed string string

fun infer_to_string :: "infer_error \<Rightarrow> string" where
  "infer_to_string (ModelFilesMissing path) = ''model files missing at '' @ path"
| "infer_to_string (GpuUnavailable detail) = ''GPU unavailable: '' @ detail"
| "infer_to_string (Allocation requested_bytes) =
     ''allocation failed for '' @ show_nat requested_bytes @ '' bytes''"
| "infer_to_string (ArtifactHashMismatch expected got) =
     ''artifact hash mismatch: expected '' @ expected @ '', got '' @ got"
| "infer_to_string (Tokenizer s) = ''tokenizer error: '' @ s"
| "infer_to_string (Runtime s) = ''runtime error: '' @ s"
| "infer_to_string (Metadata s) = ''metadata error: '' @ s"

fun join_with :: "string \<Rightarrow> string list \<Rightarrow> string" where
  "join_with sep [] = []"
| "join_with sep [x] = x"
| "join_with sep (x # y # ys) = x @ sep @ join_with sep (y # ys)"

definition debug_rows :: "nat list \<Rightarrow> string" where
  "debug_rows rows = ''['' @ join_with '', '' (map (\<lambda>r. ''RowId('' @ show_nat r @ '')'') rows) @ '']''"

fun debug_integrity :: "integrity \<Rightarrow> string" where
  "debug_integrity (Integrity_Ok live) = ''Ok { live: '' @ show_nat live @ '' }''"
| "debug_integrity (Broken orphan missing duplicate) =
     ''Broken { orphan_rows: '' @ debug_rows orphan @ '', missing_rows: '' @ debug_rows missing @
     '', duplicate_rows: '' @ debug_rows duplicate @ '' }''"

fun store_to_string :: "store_error \<Rightarrow> string" where
  "store_to_string (DimensionMismatch expected got) =
     ''embedding dimension mismatch: expected '' @ show_nat expected @ '', got '' @ show_nat got"
| "store_to_string (ModelMismatch expected got) =
     ''model identity mismatch: expected '' @ expected @ '', got '' @ got"
| "store_to_string (SchemaVersion expected got) =
     ''schema or format version mismatch: expected '' @ show_nat expected @ '', got '' @ show_nat got"
| "store_to_string (Corrupt i) = ''store correspondence broken: '' @ debug_integrity i"
| "store_to_string (Io k s) = s"
| "store_to_string (Sqlite s) = s"

fun retrieval_to_string :: "retrieval_error \<Rightarrow> string" where
  "retrieval_to_string (RInference e) = ''inference error: '' @ infer_to_string e"
| "retrieval_to_string (RStore e) = ''store error: '' @ store_to_string e"
| "retrieval_to_string (RIo s) = ''io error: '' @ s"
| "retrieval_to_string (RTantivy s) = ''tantivy error: '' @ s"
| "retrieval_to_string (RDimensionMismatch expected got) =
     ''embedding dimension mismatch: expected '' @ show_nat expected @ '', got '' @ show_nat got"
| "retrieval_to_string (RModelMismatch expected got) =
     ''model identity mismatch: expected '' @ expected @ '', got '' @ got"
| "retrieval_to_string (RDense s) = ''dense index error: '' @ s"
| "retrieval_to_string (BothRetrieversFailed lexical dense) =
     ''both retrievers failed: lexical='' @ lexical @ ''; dense='' @ dense"

section \<open>Scored rows\<close>

record scored_row =
  sr_row :: nat
  sr_score :: f32

text \<open>\<open>Candidate::cmp\<close> and the comparison of the final sort as one key: smaller is better.\<close>

definition rank_key :: "f32 \<Rightarrow> nat \<Rightarrow> int \<times> nat" where
  "rank_key score r = (- total_key score, r)"

definition scored_key :: "scored_row \<Rightarrow> int \<times> nat" where
  "scored_key s = rank_key (sr_score s) (sr_row s)"

lemma rank_key_inj: "rank_key a r = rank_key b q \<longleftrightarrow> a = b \<and> r = q"
  by (simp add: rank_key_def)

lemma scored_key_inj: "scored_key x = scored_key y \<longleftrightarrow> x = y"
  by (cases x; cases y) (auto simp: scored_key_def rank_key_inj)

section \<open>Bounded selection\<close>

text \<open>\<open>BinaryHeap\<close>: the elements in any order; \<open>peek\<close> is the greatest under the key.\<close>

definition heap_peek :: "('a \<Rightarrow> 'k::linorder) \<Rightarrow> 'a list \<Rightarrow> 'a option" where
  "heap_peek key hp = (if hp = [] then None else Some (last (sort_key key hp)))"

definition heap_push_bounded :: "('a \<Rightarrow> 'k::linorder) \<Rightarrow> nat \<Rightarrow> 'a \<Rightarrow> 'a list \<Rightarrow> 'a list" where
  "heap_push_bounded key limit candidate hp =
     (if length hp < limit then candidate # hp
      else case heap_peek key hp of
        None \<Rightarrow> hp
      | Some worst \<Rightarrow> if key candidate < key worst then candidate # remove1 worst hp else hp)"

lemma take_insort_full:
  fixes key :: "'a \<Rightarrow> 'k::linorder"
  assumes "sorted (map key S)" "k \<le> length S" "0 < k" "key x \<notin> key ` set S"
  shows "take k (insort_key key x S) =
     (if key x < key (S ! (k - 1)) then insort_key key x (take (k - 1) S) else take k S)"
  using assms
proof (induction S arbitrary: k)
  case (Cons y S)
  show ?case
  proof (cases "key x < key y")
    case True
    have "key y \<le> key ((y # S) ! (k - 1))"
      using sorted_nth_mono [OF Cons.prems(1), of 0 "k - 1"] Cons.prems(2,3) nth_map [of "k - 1" "y # S" key]
      by simp
    then have "key x < key ((y # S) ! (k - 1))" using True by simp
    moreover obtain j where k: "k = Suc j" using Cons.prems(3) by (cases k) auto
    ultimately show ?thesis using True less_imp_le [OF True] by (cases j) simp_all
  next
    case False
    then have ge: "key y < key x" using Cons.prems(4) by auto
    show ?thesis
    proof (cases "k = 1")
      case True
      then show ?thesis using ge by auto
    next
      case False
      then obtain j where k: "k = Suc (Suc j)" using Cons.prems(3) by (metis One_nat_def not0_implies_Suc less_numeral_extra(3))
      have "take (Suc j) (insort_key key x S) =
        (if key x < key (S ! (Suc j - 1)) then insort_key key x (take (Suc j - 1) S) else take (Suc j) S)"
        by (rule Cons.IH) (use Cons.prems k in auto)
      then show ?thesis using ge k not_le [of "key x" "key y"] by simp
    qed
  qed
qed simp

locale ranking =
  fixes key :: "'a \<Rightarrow> 'k::linorder"
  assumes key_inj: "key x = key y \<Longrightarrow> x = y"
begin

lemma sort_unique: "mset xs = mset ys \<Longrightarrow> sort_key key xs = sort_key key ys"
  by (rule sorted_key_unique [of _ _ key]) (auto intro: inj_onI key_inj)

lemma bounded_step:
  assumes "mset hp = mset (take limit (sort_key key xs))" "x \<notin> set xs" "distinct xs"
  shows "mset (heap_push_bounded key limit x hp) = mset (take limit (sort_key key (x # xs)))"
proof -
  let ?S = "sort_key key xs"
  have lt: "length hp = min limit (length xs)" using assms(1) by (metis length_sort length_take mset_eq_length min.commute)
  have ks: "key x \<notin> key ` set ?S" using assms(2) key_inj by force
  consider "length hp < limit" | "limit = 0" | "0 < limit" "limit \<le> length xs" "length hp = limit"
    using lt by linarith
  then show ?thesis
  proof cases
    case 1
    then have "length xs < limit" using lt by simp
    then show ?thesis using assms(1) 1 by (simp add: heap_push_bounded_def)
  next
    case 2
    then show ?thesis using assms(1) by (simp add: heap_push_bounded_def heap_peek_def)
  next
    case 3
    let ?T = "take limit ?S"
    have st: "sort_key key hp = ?T"
    proof (rule sorted_key_unique [of _ _ key])
      show "sorted (map key ?T)" by (simp add: sorted_wrt_take flip: take_map)
    qed (use assms(1) in \<open>auto intro: inj_onI key_inj\<close>)
    have ne: "hp \<noteq> []" "?T \<noteq> []" using 3 by (auto simp flip: length_0_conv)
    have last: "last ?T = ?S ! (limit - 1)" 
      unfolding last_conv_nth [OF ne(2)] using 3 by simp
    have rem: "mset (remove1 (last ?T) hp) = mset (take (limit - 1) ?S)"
    proof -
      have "mset hp = mset (butlast ?T @ [last ?T])" using assms(1) ne by simp
      moreover have "butlast ?T = take (limit - 1) ?S" using 3 by (simp add: butlast_take)
      ultimately show ?thesis by simp
    qed
    have ti: "take limit (insort_key key x ?S) = (if key x < key (?S ! (limit - 1))
        then insort_key key x (take (limit - 1) ?S) else ?T)"
      by (rule take_insort_full) (use 3 ks in auto)
    show ?thesis
    proof (cases "key x < key (?S ! (limit - 1))")
      case True
      then show ?thesis using 3 ne rem ti st last by (simp add: heap_push_bounded_def heap_peek_def)
    next
      case False
      then show ?thesis using 3 ne ti st last assms(1) by (simp add: heap_push_bounded_def heap_peek_def)
    qed
  qed
qed

text \<open>Selecting through the bounded heap is sorting and cutting.\<close>

lemma bounded_select:
  assumes "distinct xs"
  shows "sort_key key (fold (heap_push_bounded key limit) xs []) = take limit (sort_key key xs)"
proof -
  have "mset (fold (heap_push_bounded key limit) xs []) = mset (take limit (sort_key key xs))"
    using assms
  proof (induction xs rule: rev_induct)
    case (snoc x xs)
    have "mset (heap_push_bounded key limit x (fold (heap_push_bounded key limit) xs [])) =
        mset (take limit (sort_key key (x # xs)))"
      by (rule bounded_step) (use snoc in auto)
    moreover have "sort_key key (x # xs) = sort_key key (xs @ [x])" by (rule sort_unique) simp
    ultimately show ?case by simp
  qed simp
  then have "sort_key key (fold (heap_push_bounded key limit) xs []) = sort_key key (take limit (sort_key key xs))"
    by (rule sort_unique)
  also have "\<dots> = take limit (sort_key key xs)"
    by (rule sorted_key_unique [of _ _ key]) (auto intro: inj_onI key_inj simp: sorted_wrt_take simp flip: take_map)
  finally show ?thesis .
qed

end

interpretation scored: ranking scored_key
  by unfold_locales (simp add: scored_key_inj)

end
