(* ===== verification/Dense.thy ===== *)
theory Dense
  imports Ranking Store_Props
begin

text \<open>
  The dense retriever (\<open>crates/retrieval/src/dense.rs\<close>) on its CPU backend, and the reference search of
  its tests (\<open>dense_reference.rs\<close>). The CUDA backend is another build of the crate: without the feature
  the request for it is an error, which is modelled. Row scores are \<open>f32\<close> dot products of half
  precision vectors, with IEEE rounding as in \<open>Float_Model\<close>.
\<close>

section \<open>Live mask\<close>

type_synonym live_mask = "bool list"

definition mask_from_store :: "chunk_store \<Rightarrow> (retrieval_error, live_mask) res" where
  "mask_from_store s = bind_res (map_err RStore (matrix_ref s)) (\<lambda>m.
     Inr (fold (\<lambda>r rows. if r < length rows then rows[r := True] else rows) (live_rows s)
            (replicate (matrix_rows m) False)))"

definition is_live :: "live_mask \<Rightarrow> nat \<Rightarrow> bool" where
  "is_live live r = (if r < length live then live ! r else False)"

definition all_live :: "nat \<Rightarrow> live_mask" where
  "all_live rows = replicate rows True"

section \<open>The index\<close>

datatype dense_backend = Cuda | Cpu

record dense_index =
  di_matrix :: "f16 list"
  di_rows :: nat
  di_dims :: nat
  di_model_id :: string
  di_live :: live_mask
  di_uploaded_bytes :: nat

definition mask_error :: "nat \<Rightarrow> nat \<Rightarrow> retrieval_error" where
  "mask_error mask_rows rows =
     RDense (''live mask has '' @ show_nat mask_rows @ '' rows but matrix has '' @ show_nat rows)"

definition prepare_slice :: "f16 list \<Rightarrow> nat \<Rightarrow> nat \<Rightarrow> string \<Rightarrow> live_mask \<Rightarrow> dense_backend \<Rightarrow>
    (retrieval_error, dense_index) res" where
  "prepare_slice matrix rows dims model_id live backend =
     (if rows \<noteq> length live then Inl (Raise (mask_error (length live) rows))
      else if length matrix \<noteq> rows * dims
      then Inl (Raise (RDense (''matrix has '' @ show_nat (length matrix) @ '' values but shape '' @
             show_nat rows @ ''x'' @ show_nat dims @ '' requires '' @ show_nat (rows * dims))))
      else case backend of
        Cuda \<Rightarrow> Inl (Raise (RDense
          ''CUDA backend requested but retrieval was built without the cuda feature''))
      | Cpu \<Rightarrow> Inr \<lparr>di_matrix = matrix, di_rows = rows, di_dims = dims, di_model_id = model_id,
                   di_live = live, di_uploaded_bytes = length matrix * 2\<rparr>)"

definition lift_store :: "(store_error, 'a) res \<Rightarrow> (retrieval_error, 'a) res" where
  "lift_store m = map_err RStore m"

definition prepare :: "embedding_matrix \<Rightarrow> live_mask \<Rightarrow> dense_backend \<Rightarrow> (retrieval_error, dense_index) res" where
  "prepare m live backend = bind_res (lift_store (as_slice m)) (\<lambda>slice.
     prepare_slice slice (matrix_rows m) (matrix_dims m) (matrix_model_id m) live backend)"

definition from_store :: "chunk_store \<Rightarrow> dense_backend \<Rightarrow> (retrieval_error, dense_index) res" where
  "from_store s backend = bind_res (mask_from_store s) (\<lambda>live.
     bind_res (lift_store (matrix_ref s)) (\<lambda>m. prepare m live backend))"

text \<open>\<open>chunks_exact\<close>: whole rows only.\<close>

function chunks_exact :: "nat \<Rightarrow> 'a list \<Rightarrow> 'a list list" where
  "chunks_exact d xs = (if d = 0 \<or> length xs < d then [] else take d xs # chunks_exact d (drop d xs))"
  by pat_completeness auto
termination by (relation "measure (\<lambda>(d, xs). length xs)") auto

declare chunks_exact.simps [simp del]

definition dot_f16 :: "f16 list \<Rightarrow> f16 list \<Rightarrow> f32" where
  "dot_f16 vector query =
     f32_sum (map (\<lambda>(value, query_value). f32_mul (f16_to_f32 value) (f16_to_f32 query_value))
        (zip vector query))"

fun select_loop :: "live_mask \<Rightarrow> nat \<Rightarrow> nat \<Rightarrow> f32 list \<Rightarrow> scored_row list \<Rightarrow>
    (retrieval_error, scored_row list) res" where
  "select_loop live limit r [] heap = Inr heap"
| "select_loop live limit r (score # scores) heap =
     (if \<not> is_live live r then select_loop live limit (r + 1) scores heap
      else if \<not> f32_is_finite score
      then Inl (Raise (RDense (''non-finite score for row '' @ show_nat r)))
      else select_loop live limit (r + 1) scores
             (heap_push_bounded scored_key limit \<lparr>sr_row = r, sr_score = score\<rparr> heap))"

definition select_scores :: "dense_index \<Rightarrow> f32 list \<Rightarrow> nat \<Rightarrow> (retrieval_error, scored_row list) res" where
  "select_scores ix scores limit =
     bind_res (select_loop (di_live ix) limit 0 scores []) (\<lambda>heap. Inr (sort_key scored_key heap))"

definition search_cpu :: "dense_index \<Rightarrow> f16 list \<Rightarrow> nat \<Rightarrow> (retrieval_error, scored_row list) res" where
  "search_cpu ix query limit =
     (if di_dims ix = 0 then Inl (Panic ''chunk size must be non-zero'')
      else select_scores ix (map (\<lambda>vector. dot_f16 vector query) (chunks_exact (di_dims ix) (di_matrix ix))) limit)"

definition dense_search :: "dense_index \<Rightarrow> f16 list \<Rightarrow> string \<Rightarrow> nat \<Rightarrow> (retrieval_error, scored_row list) res" where
  "dense_search ix query model_id limit =
     (if length query \<noteq> di_dims ix
      then Inl (Raise (RDimensionMismatch (di_dims ix) (length query mod 2 ^ 32)))
      else if model_id \<noteq> di_model_id ix then Inl (Raise (RModelMismatch (di_model_id ix) model_id))
      else if limit = 0 then Inr []
      else search_cpu ix query limit)"

definition resident_bytes :: "dense_index \<Rightarrow> nat" where
  "resident_bytes ix = length (di_matrix ix) * 2"

definition refresh :: "dense_index \<Rightarrow> embedding_matrix \<Rightarrow> live_mask \<Rightarrow> (retrieval_error, dense_index) res" where
  "refresh ix m live =
     (if matrix_dims m \<noteq> di_dims ix then Inl (Raise (RDimensionMismatch (di_dims ix) (matrix_dims m)))
      else if matrix_model_id m \<noteq> di_model_id ix
      then Inl (Raise (RModelMismatch (di_model_id ix) (matrix_model_id m)))
      else if matrix_rows m \<noteq> length live then Inl (Raise (mask_error (length live) (matrix_rows m)))
      else if matrix_rows m < di_rows ix
      then Inl (Raise (RDense (''matrix row count decreased from '' @ show_nat (di_rows ix) @ '' to '' @
             show_nat (matrix_rows m) @ ''; prepare a new index after compaction'')))
      else let old_values = di_rows ix * di_dims ix
      in bind_res (lift_store (as_slice m)) (\<lambda>slice.
         if length slice < old_values then Inl (Panic ''slice'')
         else let appended = drop old_values slice
         in Inr (ix\<lparr>di_matrix := di_matrix ix @ appended,
                    di_uploaded_bytes := di_uploaded_bytes ix + length appended * 2,
                    di_rows := matrix_rows m, di_live := live\<rparr>)))"

section \<open>The reference search\<close>

definition dot_f32 :: "f32 list \<Rightarrow> f32 list \<Rightarrow> f32" where
  "dot_f32 vector query = f32_sum (map (\<lambda>(value, query_value). f32_mul value query_value) (zip vector query))"

definition reference_search :: "f32 list \<Rightarrow> live_mask \<Rightarrow> nat \<Rightarrow> f32 list \<Rightarrow> nat \<Rightarrow>
    (retrieval_error, scored_row list) res" where
  "reference_search matrix live dims query limit =
     (if dims = 0 then Inl (Panic ''dims must be positive'')
      else if length query \<noteq> dims then Inl (Panic ''query width must match dims'')
      else if length matrix mod dims \<noteq> 0 then Inl (Panic ''matrix must contain whole rows'')
      else if length matrix div dims \<noteq> length live then Inl (Panic ''assertion failed'')
      else let results = map (\<lambda>(r, vector). \<lparr>sr_row = r, sr_score = dot_f32 vector query\<rparr>)
                 (filter (\<lambda>(r, vector). is_live live r) (enumerate 0 (chunks_exact dims matrix)))
      in Inr (take limit (sort_key scored_key results)))"

section \<open>Selection is ranking\<close>

definition candidates :: "live_mask \<Rightarrow> nat \<Rightarrow> f32 list \<Rightarrow> scored_row list" where
  "candidates live r scores = map (\<lambda>(r, score). \<lparr>sr_row = r, sr_score = score\<rparr>)
     (filter (\<lambda>(r, score). is_live live r) (enumerate r scores))"

lemma select_loop_fold:
  "select_loop live limit r scores heap =
     (case filter (\<lambda>c. \<not> f32_is_finite (sr_score c)) (candidates live r scores) of
        [] \<Rightarrow> Inr (fold (heap_push_bounded scored_key limit) (candidates live r scores) heap)
      | c # _ \<Rightarrow> Inl (Raise (RDense (''non-finite score for row '' @ show_nat (sr_row c)))))"
  by (induction live limit r scores heap rule: select_loop.induct)
     (auto simp: candidates_def split: list.splits)

lemma distinct_candidates: "distinct (candidates live r scores)"
proof -
  have "distinct (map fst (filter (\<lambda>(r, score). is_live live r) (enumerate r scores)))"
    by (rule distinct_map_filter) simp
  moreover have "map sr_row (candidates live r scores) =
      map fst (filter (\<lambda>(r, score). is_live live r) (enumerate r scores))"
    by (simp add: candidates_def comp_def case_prod_unfold)
  ultimately have "distinct (map sr_row (candidates live r scores))" by simp
  then show ?thesis by (simp add: distinct_map)
qed

lemma select_scores_ranked:
  assumes "\<forall>c \<in> set (candidates (di_live ix) 0 scores). f32_is_finite (sr_score c)"
  shows "select_scores ix scores limit = Inr (take limit (sort_key scored_key (candidates (di_live ix) 0 scores)))"
proof -
  have "filter (\<lambda>c. \<not> f32_is_finite (sr_score c)) (candidates (di_live ix) 0 scores) = []"
    using assms by (auto simp: filter_empty_conv)
  then show ?thesis
    by (simp add: select_scores_def select_loop_fold scored.bounded_select distinct_candidates)
qed

lemma chunks_exact_map: "chunks_exact d (map f xs) = map (map f) (chunks_exact d xs)"
proof (induction d xs rule: chunks_exact.induct)
  case (1 d xs)
  then show ?case by (subst (1 2) chunks_exact.simps) (auto simp: take_map drop_map)
qed

lemma dot_f32_of_f16: "dot_f32 (map f16_to_f32 v) (map f16_to_f32 q) = dot_f16 v q"
  by (simp add: dot_f32_def dot_f16_def zip_map_map case_prod_unfold comp_def)

definition row_scores :: "dense_index \<Rightarrow> f16 list \<Rightarrow> f32 list" where
  "row_scores ix query = map (\<lambda>vector. dot_f16 vector query) (chunks_exact (di_dims ix) (di_matrix ix))"

lemma candidates_map:
  "candidates live r (map f xs) = map (\<lambda>(r, v). \<lparr>sr_row = r, sr_score = f v\<rparr>)
     (filter (\<lambda>(r, v). is_live live r) (enumerate r xs))"
  by (induction xs arbitrary: r) (auto simp: candidates_def)

definition index_ok :: "dense_index \<Rightarrow> bool" where
  "index_ok ix \<longleftrightarrow> 0 < di_dims ix \<and> length (di_matrix ix) = di_rows ix * di_dims ix \<and>
     length (di_live ix) = di_rows ix"

lemma dense_search_ranked:
  assumes "index_ok ix" "length q = di_dims ix" "model = di_model_id ix"
    "\<forall>c \<in> set (candidates (di_live ix) 0 (row_scores ix q)). f32_is_finite (sr_score c)"
  shows "dense_search ix q model limit =
     Inr (take limit (sort_key scored_key (candidates (di_live ix) 0 (row_scores ix q))))"
  using assms select_scores_ranked [of ix "row_scores ix q" limit]
  by (auto simp: dense_search_def search_cpu_def row_scores_def index_ok_def)

section \<open>Preparing and refreshing\<close>

lemma subslice_split: "i \<le> j \<Longrightarrow> j \<le> k \<Longrightarrow> subslice i k xs = subslice i j xs @ subslice j k xs"
proof -
  assume "i \<le> j" "j \<le> k"
  then have "k - i = (j - i) + (k - j)" "i + (j - i) = j" by auto
  then show ?thesis unfolding subslice_def by (simp only: take_add drop_drop add.commute [of _ i])
qed

lemma f16_rows_concat:
  assumes "a + n * w * 2 \<le> length b"
  shows "f16_of_bytes (subslice a (a + n * w * 2) b) =
     concat (map (\<lambda>r. f16_of_bytes (subslice (a + r * w * 2) (a + r * w * 2 + w * 2) b)) [0..<n])"
  using assms
proof (induction n)
  case (Suc n)
  have "subslice a (a + Suc n * w * 2) b =
      subslice a (a + n * w * 2) b @ subslice (a + n * w * 2) (a + n * w * 2 + w * 2) b"
    by (subst subslice_split [of _ "a + n * w * 2"]) (simp_all add: ac_simps)
  moreover have "even (length (subslice a (a + n * w * 2) b))" using Suc.prems by simp
  ultimately show ?case using Suc by (simp add: f16_of_bytes_append)
qed (simp add: subslice_def)

lemma as_slice_view:
  assumes "matrix_inv m"
  shows "as_slice m = Inr (concat (matrix_view m))"
proof (cases "h_rows (mx_header m) * h_dims (mx_header m) = 0")
  case True
  then have "concat (matrix_view m) = []"
    by (auto simp: matrix_view_def row_bytes_def Let_def subslice_def)
  then show ?thesis using True by (simp add: as_slice_def)
next
  case False
  let ?n = "h_rows (mx_header m)" and ?w = "h_dims (mx_header m)" and ?b = "as_bytes (mx_map m)"
  have "HEADER_SIZE + (?n - 1) * ?w * 2 + ?w * 2 \<le> length ?b"
    using False by (intro matrix_inv_row_range [OF assms]) auto
  moreover have "(?n - 1) * ?w * 2 + ?w * 2 = ?n * ?w * 2"
    using False by (cases ?n) (simp_all add: algebra_simps)
  ultimately have r: "HEADER_SIZE + ?n * ?w * 2 \<le> length ?b" by linarith
  then have "as_slice m = Inr (f16_of_bytes (subslice HEADER_SIZE (HEADER_SIZE + ?n * ?w * 2) ?b))"
    using False by (simp add: as_slice_def Let_def checked_slice_def bytes_as_f16_slice_def)
  then show ?thesis using f16_rows_concat [OF r] by (simp add: matrix_view_def row_bytes_def Let_def)
qed

lemma append_all_header:
  assumes "matrix_inv m" "\<forall>v \<in> set vs. length v = matrix_dims m" "matrix_rows m + length vs < 2 ^ 64"
    "append_all append_row m vs = Inr m'"
  shows "matrix_inv m' \<and> matrix_view m' = matrix_view m @ vs \<and>
     mx_header m' = (mx_header m)\<lparr>h_rows := matrix_rows m + length vs\<rparr>"
  using assms
proof (induction vs arbitrary: m)
  case Nil
  then show ?case by (simp add: matrix_rows_def)
next
  case (Cons v vs)
  obtain m1 where m1: "append_row m v = Inr (matrix_rows m, m1)" "matrix_inv m1"
    "mx_header m1 = (mx_header m)\<lparr>h_rows := matrix_rows m + 1\<rparr>" "matrix_view m1 = matrix_view m @ [v]"
    using append_row_ok [of m v] Cons.prems by auto
  have R: "matrix_rows m1 = matrix_rows m + 1" "matrix_dims m1 = matrix_dims m"
    using m1(3) by (simp_all add: matrix_rows_def matrix_dims_def)
  have "append_all append_row m1 vs = Inr m'" using Cons.prems(4) m1(1) by simp
  then show ?case using Cons.IH [OF m1(2)] Cons.prems R m1 by auto
qed

lemma length_concat_const: "\<forall>v \<in> set vs. length v = d \<Longrightarrow> length (concat vs) = length vs * d"
  by (induction vs) auto

lemma length_concat_view: "matrix_inv m \<Longrightarrow> length (concat (matrix_view m)) = matrix_rows m * matrix_dims m"
  by (subst length_concat_const [of _ "matrix_dims m"]) (auto simp: in_set_conv_nth length_view_row)

lemma prepare_ok:
  assumes "matrix_inv m" "length live = matrix_rows m"
  shows "prepare m live Cpu = Inr \<lparr>di_matrix = concat (matrix_view m), di_rows = matrix_rows m,
     di_dims = matrix_dims m, di_model_id = matrix_model_id m, di_live = live,
     di_uploaded_bytes = matrix_rows m * matrix_dims m * 2\<rparr>"
  using assms by (simp add: prepare_def lift_store_def as_slice_view prepare_slice_def length_concat_view)

lemma set_live_slots:
  assumes "\<forall>r \<in> set rs. r < n" "length base = n"
  shows "fold (\<lambda>r rows. if r < length rows then rows[r := True] else rows) rs base =
     map (\<lambda>i. base ! i \<or> i \<in> set rs) [0..<n]"
  using assms
proof (induction rs arbitrary: base)
  case Nil
  then show ?case by (auto intro: nth_equalityI)
next
  case (Cons r rs)
  then have "fold (\<lambda>r rows. if r < length rows then rows[r := True] else rows) rs (base[r := True]) =
      map (\<lambda>i. base[r := True] ! i \<or> i \<in> set rs) [0..<n]" by simp
  then show ?case using Cons.prems by (auto simp: nth_list_update)
qed

lemma mask_from_store_view:
  assumes "store_inv s"
  shows "mask_from_store s = Inr (map (\<lambda>e. e_live e) (store_view s))"
proof -
  obtain m where m: "cs_matrix s = Some m" "table_ok (matrix_rows m) (db_chunks (cs_conn s))"
    "store_view s = entries (db_chunks (cs_conn s)) (matrix_view m)"
    using assms by (auto elim: store_invE)
  let ?cs = "db_chunks (cs_conn s)"
  have "i \<in> set (live_rows s) \<longleftrightarrow> cr_live (?cs ! i)" if "i < matrix_rows m" for i
  proof -
    have "?cs ! i \<in> set ?cs" using that table_ok_length [OF m(2)] by simp
    then show ?thesis using that table_ok_set [OF m(2)] table_ok_rowid [OF m(2)]
      by (force simp: live_rows_def)
  qed
  moreover have "\<forall>r \<in> set (live_rows s). r < matrix_rows m"
    using table_ok_set [OF m(2)] by (auto simp: live_rows_def)
  ultimately show ?thesis
    using set_live_slots [of "live_rows s" "matrix_rows m" "replicate (matrix_rows m) False"] table_ok_length [OF m(2)]
    by (auto simp: mask_from_store_def matrix_ref_def m(1,3) entries_def intro!: nth_equalityI)
qed

section \<open>Properties of dense search\<close>

definition wit_index :: dense_index where
  "wit_index = \<lparr>di_matrix = [0x3C00, 0x4000, 0x3800, 0xBC00], di_rows = 4, di_dims = 1, di_model_id = ''m'',
     di_live = [True, False, True, True], di_uploaded_bytes = 8\<rparr>"

text \<open>
  C11: the heap-based dense search equals the reference search, bit for bit: on a well-formed index, a query
  of the right width and model and finite scores of live rows, it returns the first \<open>limit\<close> live rows
  in order of descending score with ties broken by row, as the sort of all scores does.
\<close>

theorem dense_search_is_reference:
  assumes "index_ok ix" "length q = di_dims ix" "model = di_model_id ix"
    "\<forall>c \<in> set (candidates (di_live ix) 0 (row_scores ix q)). f32_is_finite (sr_score c)"
  shows "dense_search ix q model limit =
     reference_search (map f16_to_f32 (di_matrix ix)) (di_live ix) (di_dims ix) (map f16_to_f32 q) limit"
proof -
  have "candidates (di_live ix) 0 (row_scores ix q) =
      map (\<lambda>(r, v). \<lparr>sr_row = r, sr_score = dot_f32 v (map f16_to_f32 q)\<rparr>)
        (filter (\<lambda>(r, v). is_live (di_live ix) r) (enumerate 0 (map (map f16_to_f32) (chunks_exact (di_dims ix) (di_matrix ix)))))"
    unfolding row_scores_def dot_f32_of_f16 [symmetric]
    using candidates_map [of "di_live ix" 0 "\<lambda>v. dot_f32 v (map f16_to_f32 q)"
        "map (map f16_to_f32) (chunks_exact (di_dims ix) (di_matrix ix))"]
    by (simp add: comp_def)
  then show ?thesis using assms dense_search_ranked [OF assms]
    by (auto simp: reference_search_def index_ok_def chunks_exact_map Let_def)
qed

theorem dense_search_is_reference_witness:
  "dense_search wit_index [0x3C00] ''m'' 2 = reference_search (map f16_to_f32 (di_matrix wit_index))
       (di_live wit_index) 1 [f16_to_f32 0x3C00] 2 \<and>
   map_sum id (map sr_row) (dense_search wit_index [0x3C00] ''m'' 2) = Inr [0, 2]"
proof -
  have ok: "index_ok wit_index" "length [0x3C00 :: f16] = di_dims wit_index" "''m'' = di_model_id wit_index"
    by (simp_all add: index_ok_def wit_index_def)
  have fin: "\<forall>c \<in> set (candidates (di_live wit_index) 0 (row_scores wit_index [0x3C00])). f32_is_finite (sr_score c)"
    by code_simp
  have "map_sum id (map sr_row) (dense_search wit_index [0x3C00] ''m'' 2) = Inr [0, 2]"
    by code_simp
  then show ?thesis using dense_search_is_reference [OF ok fin, of 2] by (simp add: wit_index_def)
qed

text \<open>
  C12: a live row with a non-finite score makes the search fail, naming the first such row, instead of
  ranking it.
\<close>

theorem dense_search_rejects_non_finite:
  assumes "index_ok ix" "length q = di_dims ix" "model = di_model_id ix" "0 < limit"
    "filter (\<lambda>c. \<not> f32_is_finite (sr_score c)) (candidates (di_live ix) 0 (row_scores ix q)) = c # cs"
  shows "dense_search ix q model limit =
     Inl (Raise (RDense (''non-finite score for row '' @ show_nat (sr_row c))))"
  using assms
  by (auto simp: dense_search_def search_cpu_def select_scores_def select_loop_fold row_scores_def index_ok_def)

theorem dense_search_rejects_non_finite_witness:
  "dense_search (wit_index\<lparr>di_matrix := [0x3C00, 0x7C00, 0x7C00, 0]\<rparr>) [0x3C00] ''m'' 2 =
     Inl (Raise (RDense ''non-finite score for row 2''))"
proof -
  let ?ix = "wit_index\<lparr>di_matrix := [0x3C00, 0x7C00, 0x7C00, 0]\<rparr>"
  have ok: "index_ok ?ix" "length [0x3C00 :: f16] = di_dims ?ix" "''m'' = di_model_id ?ix"
    by (simp_all add: index_ok_def wit_index_def)
  have f: "filter (\<lambda>c. \<not> f32_is_finite (sr_score c)) (candidates (di_live ?ix) 0 (row_scores ?ix [0x3C00])) =
      [\<lparr>sr_row = 2, sr_score = 0x7F800000\<rparr>]"
    by code_simp
  have "''non-finite score for row '' @ show_nat 2 = ''non-finite score for row 2''" by code_simp
  then show ?thesis using dense_search_rejects_non_finite [OF ok _ f, of 2] by simp
qed

text \<open>
  C13: refreshing an index after rows were appended to the matrix gives the index that preparing the grown
  matrix from scratch gives, with its mask, so the incremental upload loses and duplicates nothing.
\<close>

theorem refresh_is_prepare:
  assumes "matrix_inv m" "length live = matrix_rows m" "prepare m live Cpu = Inr ix"
    "\<forall>v \<in> set vs. length v = matrix_dims m" "matrix_rows m + length vs < 2 ^ 64"
    "append_all append_row m vs = Inr m'" "length live' = matrix_rows m'"
  shows "refresh ix m' live' = prepare m' live' Cpu"
proof -
  have m': "matrix_inv m'" "matrix_view m' = matrix_view m @ vs"
    "mx_header m' = (mx_header m)\<lparr>h_rows := matrix_rows m + length vs\<rparr>"
    using append_all_header [OF assms(1,4,5,6)] by auto
  have R: "matrix_dims m' = matrix_dims m" "matrix_model_id m' = matrix_model_id m"
    "matrix_rows m' = matrix_rows m + length vs"
    using m'(3) by (simp_all add: matrix_dims_def matrix_model_id_def matrix_rows_def)
  have L: "length (concat (matrix_view m)) = matrix_rows m * matrix_dims m"
    "length (concat vs) = length vs * matrix_dims m"
    using length_concat_view [OF assms(1)] length_concat_const [OF assms(4)] by auto
  have ix: "ix = \<lparr>di_matrix = concat (matrix_view m), di_rows = matrix_rows m,
     di_dims = matrix_dims m, di_model_id = matrix_model_id m, di_live = live,
     di_uploaded_bytes = matrix_rows m * matrix_dims m * 2\<rparr>"
    using prepare_ok [OF assms(1,2)] assms(3) by simp
  show ?thesis using L
    by (simp add: prepare_ok [OF m'(1) assms(7)] refresh_def ix R assms(7) lift_store_def
        as_slice_view [OF m'(1)] m'(2) Let_def algebra_simps)
qed

theorem refresh_is_prepare_witness:
  "\<exists>m m' ix. create 1 ''m'' = Inr m \<and> append_all append_row m [[7], [8]] = Inr m' \<and>
     prepare m [] Cpu = Inr ix \<and> refresh ix m' [True, False] = prepare m' [True, False] Cpu"
proof -
  have "valid_utf8 ''m''" by (rule valid_utf8_ascii) (simp add: is_ascii_def)
  then obtain m where m: "create 1 ''m'' = Inr m" "matrix_inv m" "matrix_dims m = 1" "matrix_rows m = 0"
    using create_ok [of 1 "''m''"] by (auto simp: MODEL_ID_CAPACITY_def)
  have v: "\<forall>v \<in> set [[7], [8 :: f16]]. length v = matrix_dims m" "matrix_rows m + length [[7], [8 :: f16]] < 2 ^ 64"
    using m by auto
  obtain m' where m': "append_all append_row m [[7], [8]] = Inr m'"
    using mx.append_all_ok [OF m(2), of "[[7], [8]]"] m(3,4) by auto
  have "matrix_rows m' = 2" using append_all_header [OF m(2) v m'] m(4) by (simp add: matrix_rows_def)
  then show ?thesis using m m' refresh_is_prepare [OF m(2) _ prepare_ok [OF m(2)] v m', of "[]" "[True, False]"]
      prepare_ok [OF m(2), of "[]"] by auto
qed

end
