(* ===== verification/Fusion.thy ===== *)
theory Fusion
  imports Ranking
begin

text \<open>
  Reciprocal rank fusion (\<open>crates/retrieval/src/fusion.rs\<close>). The hash map by row is the list of its values
  (each entry carries its own key); \<open>fuse_any_order\<close> shows that the order in which the map yields
  them does not matter, since the final sort has distinct keys.
\<close>

record fusion_config =
  lexical_depth :: nat
  dense_depth :: nat
  rrf_k :: f32

definition default_config :: fusion_config where
  "default_config = \<lparr>lexical_depth = 50, dense_depth = 50, rrf_k = 0x42700000\<rparr>"

record contribution =
  ct_rank :: "nat option"
  ct_score :: "f32 option"

record fused_row =
  fr_row :: nat
  fr_lexical :: contribution
  fr_dense :: contribution
  fr_fused_score :: f32

definition no_contribution :: contribution where
  "no_contribution = \<lparr>ct_rank = None, ct_score = None\<rparr>"

definition empty_row :: "nat \<Rightarrow> fused_row" where
  "empty_row r = \<lparr>fr_row = r, fr_lexical = no_contribution, fr_dense = no_contribution, fr_fused_score = f32_zero\<rparr>"

text \<open>\<open>entry(row).or_insert(..)\<close> followed by an update of the entry.\<close>

fun upsert :: "(fused_row \<Rightarrow> fused_row) \<Rightarrow> nat \<Rightarrow> fused_row list \<Rightarrow> fused_row list" where
  "upsert f r [] = [f (empty_row r)]"
| "upsert f r (e # es) = (if fr_row e = r then f e # es else e # upsert f r es)"

definition rrf_term :: "f32 \<Rightarrow> nat \<Rightarrow> f32" where
  "rrf_term k rank = f32_div f32_one (f32_add k (f32_of_nat rank))"

definition add_lexical :: "f32 \<Rightarrow> nat \<Rightarrow> scored_row \<Rightarrow> fused_row \<Rightarrow> fused_row" where
  "add_lexical k rank s e =
     e\<lparr>fr_lexical := \<lparr>ct_rank = Some rank, ct_score = Some (sr_score s)\<rparr>,
       fr_fused_score := f32_add (fr_fused_score e) (rrf_term k rank)\<rparr>"

definition add_dense :: "f32 \<Rightarrow> nat \<Rightarrow> scored_row \<Rightarrow> fused_row \<Rightarrow> fused_row" where
  "add_dense k rank s e =
     e\<lparr>fr_dense := \<lparr>ct_rank = Some rank, ct_score = Some (sr_score s)\<rparr>,
       fr_fused_score := f32_add (fr_fused_score e) (rrf_term k rank)\<rparr>"

definition add_list :: "(nat \<Rightarrow> scored_row \<Rightarrow> fused_row \<Rightarrow> fused_row) \<Rightarrow> nat \<Rightarrow> scored_row list \<Rightarrow>
    fused_row list \<Rightarrow> fused_row list" where
  "add_list add start xs by_row =
     fold (\<lambda>(index, s) by_row. upsert (add ((index + 1) mod 2 ^ 32) s) (sr_row s) by_row) (enumerate start xs) by_row"

definition fused_key :: "fused_row \<Rightarrow> int \<times> nat" where
  "fused_key e = rank_key (fr_fused_score e) (fr_row e)"

definition fuse :: "scored_row list \<Rightarrow> scored_row list \<Rightarrow> fusion_config \<Rightarrow> fused_row list" where
  "fuse lexical dense config =
     (let lexical = take (min (length lexical) (lexical_depth config)) lexical;
          dense = take (min (length dense) (dense_depth config)) dense;
          by_row = add_list (add_lexical (rrf_k config)) 0 lexical [];
          by_row = add_list (add_dense (rrf_k config)) 0 dense by_row
      in sort_key fused_key by_row)"

section \<open>What fusion computes\<close>

text \<open>The position of a row in a list, and the row fusion must produce from two positions.\<close>

fun find_rank :: "nat \<Rightarrow> scored_row list \<Rightarrow> nat \<Rightarrow> (nat \<times> f32) option" where
  "find_rank i [] r = None"
| "find_rank i (s # ss) r = (if sr_row s = r then Some (i, sr_score s) else find_rank (i + 1) ss r)"

definition contribution_of :: "scored_row list \<Rightarrow> nat \<Rightarrow> contribution" where
  "contribution_of xs r = \<lparr>ct_rank = map_option fst (find_rank 1 xs r), ct_score = map_option snd (find_rank 1 xs r)\<rparr>"

definition add_rank :: "f32 \<Rightarrow> scored_row list \<Rightarrow> nat \<Rightarrow> f32 \<Rightarrow> f32" where
  "add_rank k xs r acc = (case find_rank 1 xs r of None \<Rightarrow> acc | Some (rank, _) \<Rightarrow> f32_add acc (rrf_term k rank))"

definition spec_fused :: "f32 \<Rightarrow> scored_row list \<Rightarrow> scored_row list \<Rightarrow> nat \<Rightarrow> fused_row" where
  "spec_fused k lexical dense r =
     \<lparr>fr_row = r, fr_lexical = contribution_of lexical r, fr_dense = contribution_of dense r,
      fr_fused_score = add_rank k dense r (add_rank k lexical r f32_zero)\<rparr>"

definition fused_rows :: "scored_row list \<Rightarrow> scored_row list \<Rightarrow> nat list" where
  "fused_rows lexical dense =
     map sr_row lexical @ filter (\<lambda>r. r \<notin> set (map sr_row lexical)) (map sr_row dense)"

lemma find_rank_None: "find_rank i xs r = None \<longleftrightarrow> r \<notin> set (map sr_row xs)"
  by (induction xs arbitrary: i) auto

lemma upsert_new: "r \<notin> set (map fr_row es) \<Longrightarrow> upsert f r es = es @ [f (empty_row r)]"
  by (induction es) auto

lemma upsert_old:
  "distinct (map fr_row es) \<Longrightarrow> r \<in> set (map fr_row es) \<Longrightarrow>
   upsert f r es = map (\<lambda>e. if fr_row e = r then f e else e) es"
proof (induction es)
  case (Cons e es)
  have "map (\<lambda>e. if fr_row e = r then f e else e) es = es" if "fr_row e = r"
    proof (rule map_idI)
    fix x assume "x \<in> set es"
    then have "fr_row x \<noteq> r" using Cons.prems(1) that
      by (metis distinct.simps(2) image_eqI list.map(2) list.set_map)
    then show "(if fr_row x = r then f x else x) = x" by simp
  qed
  then show ?case using Cons by auto
qed simp

lemma rows_map: "(\<And>e. e \<in> set es \<Longrightarrow> fr_row (g e) = fr_row e) \<Longrightarrow> map fr_row (map g es) = map fr_row es"
  by simp

text \<open>One pass over a retriever's list: rows already present are updated in place, new ones appended.\<close>

definition apply_rank :: "(nat \<Rightarrow> scored_row \<Rightarrow> fused_row \<Rightarrow> fused_row) \<Rightarrow> nat \<Rightarrow> scored_row list \<Rightarrow> fused_row \<Rightarrow> fused_row" where
  "apply_rank add i xs e = (case find_rank i xs (fr_row e) of None \<Rightarrow> e
     | Some (rank, score) \<Rightarrow> add rank \<lparr>sr_row = fr_row e, sr_score = score\<rparr> e)"

lemma add_list_spec:
  assumes "distinct (map sr_row xs)" "distinct (map fr_row es)" "start + length xs < 2 ^ 32"
    "\<And>rank s e. fr_row (add rank s e) = fr_row e"
  shows "add_list add start xs es = map (apply_rank add (start + 1) xs) es @
     map (\<lambda>r. apply_rank add (start + 1) xs (empty_row r)) (filter (\<lambda>r. r \<notin> set (map fr_row es)) (map sr_row xs))"
  using assms(1-3)
proof (induction xs arbitrary: start es)
  case Nil
  then show ?case by (simp add: add_list_def apply_rank_def)
next
  case (Cons s xs)
  let ?r = "sr_row s" and ?f = "add (start + 1) s"
  define es1 where "es1 = upsert ?f ?r es"
  have mod: "Suc start mod 4294967296 = Suc start" using Cons.prems(3) by simp
  have step: "add_list add start (s # xs) es = add_list add (Suc start) xs es1"
    by (simp add: add_list_def es1_def mod)
  have s: "\<lparr>sr_row = ?r, sr_score = sr_score s\<rparr> = s" by simp
  have notin: "?r \<notin> set (map sr_row xs)" using Cons.prems(1) by simp
  have er: "fr_row (empty_row q) = q" for q by (simp add: empty_row_def)
  have ap: "apply_rank add (Suc start + 1) xs (if fr_row e = ?r then ?f e else e) = apply_rank add (start + 1) (s # xs) e" for e
  proof -
    have "find_rank (Suc (Suc start)) xs ?r = None" using notin by (simp add: find_rank_None)
    then show ?thesis by (cases "fr_row e = ?r") (simp_all add: apply_rank_def assms(4) s)
  qed
  show ?case
  proof (cases "?r \<in> set (map fr_row es)")
    case True
    have e1: "es1 = map (\<lambda>e. if fr_row e = ?r then ?f e else e) es"
      unfolding es1_def by (rule upsert_old [OF Cons.prems(2) True])
    have r1: "map fr_row es1 = map fr_row es" unfolding e1 by (rule rows_map) (simp add: assms(4))
    have "add_list add (Suc start) xs es1 = map (apply_rank add (Suc start + 1) xs) es1 @
       map (\<lambda>r. apply_rank add (Suc start + 1) xs (empty_row r)) (filter (\<lambda>r. r \<notin> set (map fr_row es1)) (map sr_row xs))"
      by (rule Cons.IH) (use Cons.prems r1 in auto)
    moreover have "apply_rank add (Suc start + 1) xs (empty_row q) = apply_rank add (start + 1) (s # xs) (empty_row q)"
      if "q \<in> set (map sr_row xs)" for q
      using that notin by (auto simp: apply_rank_def er)
    moreover have "map (apply_rank add (Suc start + 1) xs) es1 = map (apply_rank add (start + 1) (s # xs)) es"
      unfolding e1 map_map comp_def ap ..
    ultimately show ?thesis unfolding step r1 using True by simp
  next
    case False
    have e1: "es1 = es @ [?f (empty_row ?r)]" unfolding es1_def by (rule upsert_new [OF False])
    have r1: "map fr_row es1 = map fr_row es @ [?r]" by (simp add: e1 assms(4) er)
    have "add_list add (Suc start) xs es1 = map (apply_rank add (Suc start + 1) xs) es1 @
       map (\<lambda>r. apply_rank add (Suc start + 1) xs (empty_row r)) (filter (\<lambda>r. r \<notin> set (map fr_row es1)) (map sr_row xs))"
      by (rule Cons.IH) (use Cons.prems r1 False in auto)
    moreover have "filter (\<lambda>r. r \<notin> set (map fr_row es1)) (map sr_row xs) = filter (\<lambda>r. r \<notin> set (map fr_row es)) (map sr_row xs)"
      unfolding r1 using notin by (intro filter_cong) (auto simp: image_iff)
    moreover have "apply_rank add (Suc start + 1) xs (empty_row q) = apply_rank add (start + 1) (s # xs) (empty_row q)"
      if "q \<in> set (map sr_row xs)" for q
      using that notin by (auto simp: apply_rank_def er)
    moreover have "apply_rank add (Suc start + 1) xs e = apply_rank add (start + 1) (s # xs) e" if "e \<in> set es" for e
    proof -
      have "fr_row e \<noteq> ?r" using that False by (auto simp: image_iff)
      then show ?thesis using ap [of e] by simp
    qed
    moreover have "apply_rank add (Suc start + 1) xs (?f (empty_row ?r)) = apply_rank add (start + 1) (s # xs) (empty_row ?r)"
      using ap [of "empty_row ?r"] by (simp add: er)
    ultimately show ?thesis unfolding step using False by (simp add: e1)
  qed
qed

lemma apply_lexical_empty:
  "apply_rank (add_lexical k) 1 xs (empty_row r) = spec_fused k xs [] r"
  by (auto simp: apply_rank_def spec_fused_def empty_row_def contribution_of_def add_rank_def add_lexical_def
      no_contribution_def split: option.splits)

lemma apply_dense_spec: "apply_rank (add_dense k) 1 ys (spec_fused k xs [] r) = spec_fused k xs ys r"
  by (auto simp: apply_rank_def spec_fused_def contribution_of_def add_rank_def add_dense_def split: option.splits)

lemma spec_fused_absent: "r \<notin> set (map sr_row xs) \<Longrightarrow> empty_row r = spec_fused k xs [] r"
  using find_rank_None [of 1 xs r]
  by (simp add: empty_row_def spec_fused_def contribution_of_def add_rank_def no_contribution_def)

lemma spec_fused_row [simp]: "fr_row (spec_fused k xs ys r) = r"
  by (simp add: spec_fused_def)

lemma fuse_values:
  assumes "distinct (map sr_row xs)" "distinct (map sr_row ys)" "length xs < 2 ^ 32" "length ys < 2 ^ 32"
  shows "add_list (add_dense k) 0 ys (add_list (add_lexical k) 0 xs []) =
     map (spec_fused k xs ys) (fused_rows xs ys)"
proof -
  have "add_list (add_lexical k) 0 xs [] = map (\<lambda>r. apply_rank (add_lexical k) (0 + 1) xs (empty_row r)) (map sr_row xs)"
    using add_list_spec [of xs "[]" 0 "add_lexical k"] assms(1,3) by (simp add: add_lexical_def comp_def)
  then have l: "add_list (add_lexical k) 0 xs [] = map (spec_fused k xs []) (map sr_row xs)"
    by (simp add: apply_lexical_empty [simplified])
  have rows: "map fr_row (map (spec_fused k xs []) (map sr_row xs)) = map sr_row xs"
    by (simp add: spec_fused_def)
  have "add_list (add_dense k) 0 ys (map (spec_fused k xs []) (map sr_row xs)) =
      map (apply_rank (add_dense k) (0 + 1) ys) (map (spec_fused k xs []) (map sr_row xs)) @
      map (\<lambda>r. apply_rank (add_dense k) (0 + 1) ys (empty_row r))
        (filter (\<lambda>r. r \<notin> set (map fr_row (map (spec_fused k xs []) (map sr_row xs)))) (map sr_row ys))"
    by (rule add_list_spec) (use assms in \<open>simp_all only: rows, simp_all add: add_dense_def\<close>)
  also have "\<dots> = map (spec_fused k xs ys) (fused_rows xs ys)"
    using apply_dense_spec [of k ys xs] spec_fused_absent [of _ xs k]
    by (auto simp: fused_rows_def comp_def)
  finally show ?thesis unfolding l .
qed

lemma distinct_fused_rows:
  "distinct (map sr_row xs) \<Longrightarrow> distinct (map sr_row ys) \<Longrightarrow> distinct (fused_rows xs ys)"
  by (auto simp: fused_rows_def)

lemma fuse_eq:
  assumes "distinct (map sr_row lexical)" "distinct (map sr_row dense)"
    "length lexical < 2 ^ 32" "length dense < 2 ^ 32"
  shows "fuse lexical dense config =
     sort_key fused_key (map (spec_fused (rrf_k config) (take (lexical_depth config) lexical) (take (dense_depth config) dense))
       (fused_rows (take (lexical_depth config) lexical) (take (dense_depth config) dense)))"
proof -
  let ?l = "take (lexical_depth config) lexical" and ?d = "take (dense_depth config) dense"
  have "take (min (length xs) n) xs = take n xs" for n and xs :: "scored_row list" by (simp add: min_def)
  moreover have "distinct (map sr_row ?l)" "distinct (map sr_row ?d)"
    using assms(1,2) by (metis distinct_take take_map)+
  ultimately show ?thesis using fuse_values [of ?l ?d "rrf_k config"] assms(3,4)
    by (simp add: fuse_def Let_def)
qed

lemma fused_key_distinct: "distinct (map fr_row es) \<Longrightarrow> inj_on fused_key (set es)"
  by (auto simp: inj_on_def fused_key_def rank_key_inj distinct_map)

text \<open>The map may yield its values in any order.\<close>

lemma fuse_any_order:
  assumes "mset vals = mset es" "distinct (map fr_row es)"
  shows "sort_key fused_key vals = sort_key fused_key es"
proof (rule sorted_key_unique [of _ _ fused_key])
  have "set vals = set es" using assms(1) by (metis set_mset_mset)
  then show "inj_on fused_key (set (sort_key fused_key vals))" using fused_key_distinct [OF assms(2)] by simp
qed (use assms in auto)

section \<open>Properties of fusion\<close>

definition scored_of :: "nat \<Rightarrow> f32 \<Rightarrow> scored_row" where
  "scored_of r s = \<lparr>sr_row = r, sr_score = s\<rparr>"

text \<open>
  C14: fusion is correct on rankings without repeated rows: the result has exactly the rows of the two cut
  lists, each once; each entry carries its rank and score in each list (or none) and the sum of its
  reciprocal rank terms in \<open>f32\<close>; and the entries are in order of descending fused score with ties
  broken by row.
\<close>

theorem fuse_correct:
  assumes "distinct (map sr_row lexical)" "distinct (map sr_row dense)"
    "length lexical < 2 ^ 32" "length dense < 2 ^ 32"
  shows "distinct (map fr_row (fuse lexical dense config)) \<and>
     set (map fr_row (fuse lexical dense config)) =
       set (map sr_row (take (lexical_depth config) lexical)) \<union> set (map sr_row (take (dense_depth config) dense)) \<and>
     (\<forall>e \<in> set (fuse lexical dense config).
        e = spec_fused (rrf_k config) (take (lexical_depth config) lexical) (take (dense_depth config) dense) (fr_row e)) \<and>
     sorted (map fused_key (fuse lexical dense config))"
proof -
  let ?l = "take (lexical_depth config) lexical" and ?d = "take (dense_depth config) dense"
  have d: "distinct (fused_rows ?l ?d)"
    by (rule distinct_fused_rows) (use assms(1,2) in \<open>metis distinct_take take_map\<close>)+
  have m: "mset (map fr_row (fuse lexical dense config)) = mset (fused_rows ?l ?d)"
    by (simp add: fuse_eq [OF assms] comp_def multiset.map_comp)
  then have "distinct (map fr_row (fuse lexical dense config))" using d by (metis mset_eq_imp_distinct_iff)
  moreover have "set (map fr_row (fuse lexical dense config)) = set (fused_rows ?l ?d)"
    using m by (metis set_mset_mset)
  ultimately show ?thesis by (auto simp: fuse_eq [OF assms] fused_rows_def)
qed

theorem fuse_correct_witness:
  "sorted (map fused_key (fuse [scored_of 10 1, scored_of 20 2] [scored_of 30 3, scored_of 10 5] default_config)) \<and>
   set (map fr_row (fuse [scored_of 10 1, scored_of 20 2] [scored_of 30 3, scored_of 10 5] default_config)) = {10, 20, 30}"
  using fuse_correct [of "[scored_of 10 1, scored_of 20 2]" "[scored_of 30 3, scored_of 10 5]" default_config]
  by (auto simp: scored_of_def default_config_def)

end
