(* ===== verification/Fusion_Order.thy ===== *)
theory Fusion_Order
  imports Fusion
begin

text \<open>
  Fusion with the default configuration when only one retriever returns rows. The fifty reciprocal rank
  terms are evaluated in \<open>f32\<close> arithmetic and strictly decrease, so the retriever's order is kept.
\<close>

text \<open>The reciprocal rank terms of the default configuration, as bit patterns, rank by rank.\<close>

definition default_terms :: "f32 list" where
  "default_terms =
     [0x3C864B8A, 0x3C842108, 0x3C820821, 0x3C800000, 0x3C7C0FC1, 0x3C783E10, 0x3C74898D, 0x3C70F0F1, 0x3C6D7304, 0x3C6A0EA1,
      0x3C66C2B4, 0x3C638E39, 0x3C607038, 0x3C5D67C9, 0x3C5A740E, 0x3C579436, 0x3C54C77B, 0x3C520D21, 0x3C4F6475, 0x3C4CCCCD,
      0x3C4A4588, 0x3C47CE0C, 0x3C4565C8, 0x3C430C31, 0x3C40C0C1, 0x3C3E82FA, 0x3C3C5264, 0x3C3A2E8C, 0x3C381703, 0x3C360B61,
      0x3C340B41, 0x3C321643, 0x3C302C0B, 0x3C2E4C41, 0x3C2C7692, 0x3C2AAAAB, 0x3C28E83F, 0x3C272F05, 0x3C257EB5, 0x3C23D70A,
      0x3C2237C3, 0x3C20A0A1, 0x3C1F1166, 0x3C1D89D9, 0x3C1C09C1, 0x3C1A90E8, 0x3C191F1A, 0x3C17B426, 0x3C164FDA, 0x3C14F209]"

lemma default_rrf_0: "map (rrf_term 0x42700000) [1..<11] =
  [0x3C864B8A, 0x3C842108, 0x3C820821, 0x3C800000, 0x3C7C0FC1, 0x3C783E10, 0x3C74898D, 0x3C70F0F1, 0x3C6D7304, 0x3C6A0EA1]"
  by code_simp

lemma default_sum_0: "map (f32_add f32_zero)
  [0x3C864B8A, 0x3C842108, 0x3C820821, 0x3C800000, 0x3C7C0FC1, 0x3C783E10, 0x3C74898D, 0x3C70F0F1, 0x3C6D7304, 0x3C6A0EA1] =
  [0x3C864B8A, 0x3C842108, 0x3C820821, 0x3C800000, 0x3C7C0FC1, 0x3C783E10, 0x3C74898D, 0x3C70F0F1, 0x3C6D7304, 0x3C6A0EA1]"
  by code_simp

lemma default_rrf_10: "map (rrf_term 0x42700000) [11..<21] =
  [0x3C66C2B4, 0x3C638E39, 0x3C607038, 0x3C5D67C9, 0x3C5A740E, 0x3C579436, 0x3C54C77B, 0x3C520D21, 0x3C4F6475, 0x3C4CCCCD]"
  by code_simp

lemma default_sum_10: "map (f32_add f32_zero)
  [0x3C66C2B4, 0x3C638E39, 0x3C607038, 0x3C5D67C9, 0x3C5A740E, 0x3C579436, 0x3C54C77B, 0x3C520D21, 0x3C4F6475, 0x3C4CCCCD] =
  [0x3C66C2B4, 0x3C638E39, 0x3C607038, 0x3C5D67C9, 0x3C5A740E, 0x3C579436, 0x3C54C77B, 0x3C520D21, 0x3C4F6475, 0x3C4CCCCD]"
  by code_simp

lemma default_rrf_20: "map (rrf_term 0x42700000) [21..<31] =
  [0x3C4A4588, 0x3C47CE0C, 0x3C4565C8, 0x3C430C31, 0x3C40C0C1, 0x3C3E82FA, 0x3C3C5264, 0x3C3A2E8C, 0x3C381703, 0x3C360B61]"
  by code_simp

lemma default_sum_20: "map (f32_add f32_zero)
  [0x3C4A4588, 0x3C47CE0C, 0x3C4565C8, 0x3C430C31, 0x3C40C0C1, 0x3C3E82FA, 0x3C3C5264, 0x3C3A2E8C, 0x3C381703, 0x3C360B61] =
  [0x3C4A4588, 0x3C47CE0C, 0x3C4565C8, 0x3C430C31, 0x3C40C0C1, 0x3C3E82FA, 0x3C3C5264, 0x3C3A2E8C, 0x3C381703, 0x3C360B61]"
  by code_simp

lemma default_rrf_30: "map (rrf_term 0x42700000) [31..<41] =
  [0x3C340B41, 0x3C321643, 0x3C302C0B, 0x3C2E4C41, 0x3C2C7692, 0x3C2AAAAB, 0x3C28E83F, 0x3C272F05, 0x3C257EB5, 0x3C23D70A]"
  by code_simp

lemma default_sum_30: "map (f32_add f32_zero)
  [0x3C340B41, 0x3C321643, 0x3C302C0B, 0x3C2E4C41, 0x3C2C7692, 0x3C2AAAAB, 0x3C28E83F, 0x3C272F05, 0x3C257EB5, 0x3C23D70A] =
  [0x3C340B41, 0x3C321643, 0x3C302C0B, 0x3C2E4C41, 0x3C2C7692, 0x3C2AAAAB, 0x3C28E83F, 0x3C272F05, 0x3C257EB5, 0x3C23D70A]"
  by code_simp

lemma default_rrf_40: "map (rrf_term 0x42700000) [41..<51] =
  [0x3C2237C3, 0x3C20A0A1, 0x3C1F1166, 0x3C1D89D9, 0x3C1C09C1, 0x3C1A90E8, 0x3C191F1A, 0x3C17B426, 0x3C164FDA, 0x3C14F209]"
  by code_simp

lemma default_sum_40: "map (f32_add f32_zero)
  [0x3C2237C3, 0x3C20A0A1, 0x3C1F1166, 0x3C1D89D9, 0x3C1C09C1, 0x3C1A90E8, 0x3C191F1A, 0x3C17B426, 0x3C164FDA, 0x3C14F209] =
  [0x3C2237C3, 0x3C20A0A1, 0x3C1F1166, 0x3C1D89D9, 0x3C1C09C1, 0x3C1A90E8, 0x3C191F1A, 0x3C17B426, 0x3C164FDA, 0x3C14F209]"
  by code_simp

lemma default_terms_eq: "map (\<lambda>i. f32_add f32_zero (rrf_term (rrf_k default_config) i)) [1..<51] = default_terms"
proof -
  have "[1..<51] = [1..<11] @ [11..<21] @ [21..<31] @ [31..<41] @ [41..<51]"
    by code_simp
  then have "map (rrf_term 0x42700000) [1..<51] = default_terms"
    by (simp only: map_append default_rrf_0 [simplified] default_rrf_0 default_rrf_10 default_rrf_20 default_rrf_30 default_rrf_40
        default_terms_def append.simps add_0 One_nat_def)
  moreover have "map (f32_add f32_zero) default_terms = default_terms"
    using default_sum_0 default_sum_10 default_sum_20 default_sum_30 default_sum_40
    by (simp only: default_terms_def list.map list.inject)
  moreover have "map (\<lambda>i. f32_add f32_zero (rrf_term (rrf_k default_config) i)) [1..<51] =
      map (f32_add f32_zero) (map (rrf_term 0x42700000) [1..<51])"
    by (simp add: default_config_def comp_def del: upt_Suc)
  ultimately show ?thesis by simp
qed

lemma default_terms_decrease: "sorted_wrt (\<lambda>a b. total_key b < total_key a) default_terms"
  by code_simp

lemma find_rank_nth:
  "distinct (map sr_row xs) \<Longrightarrow> i < length xs \<Longrightarrow> find_rank k xs (sr_row (xs ! i)) = Some (k + i, sr_score (xs ! i))"
proof (induction xs arbitrary: i k)
  case (Cons x xs)
  show ?case
  proof (cases i)
    case (Suc j)
    then have "sr_row (xs ! j) \<in> set (map sr_row xs)" using Cons.prems(2) by simp
    then have "sr_row (xs ! j) \<noteq> sr_row x" using Cons.prems(1) by (metis distinct.simps(2) list.map(2))
    then show ?thesis using Cons.IH [of j "Suc k"] Cons.prems Suc by simp
  qed simp
qed simp

text \<open>Rows whose scores are the terms of the ranks in order are already sorted.\<close>

lemma default_order_sorted:
  assumes "distinct rows" "length rows \<le> 50" "\<And>r. fr_row (g r) = r"
    "\<And>i. i < length rows \<Longrightarrow> fr_fused_score (g (rows ! i)) = default_terms ! i"
  shows "map fr_row (sort_key fused_key (map g rows)) = rows"
proof -
  have len: "length default_terms = 50" by (simp add: default_terms_def)
  have "fused_key (g (rows ! i)) < fused_key (g (rows ! j))" if "i < j" "j < length rows" for i j
    using sorted_wrt_nth_less [OF default_terms_decrease, of i j] that assms(2) assms(4) [of i] assms(4) [of j] len
    by (simp add: fused_key_def rank_key_def)
  then have s: "sorted (map fused_key (map g rows))"
    by (auto simp: sorted_wrt_iff_nth_less intro: less_imp_le)
  have d: "distinct (map fr_row (map g rows))" using assms(1,3) by (simp add: comp_def)
  have "sort_key fused_key (map g rows) = map g rows"
    by (rule sorted_key_unique [of _ _ fused_key]) (use s fused_key_distinct [OF d] in auto)
  then show ?thesis by (simp add: comp_def assms(3))
qed

lemma default_term_nth: "i < 50 \<Longrightarrow> f32_add f32_zero (rrf_term (rrf_k default_config) (Suc i)) = default_terms ! i"
  using arg_cong [OF default_terms_eq, of "\<lambda>xs. xs ! i"] by (simp add: nth_upt del: upt_Suc upt_rec_numeral)

lemma fuse_single_order:
  assumes "distinct (map sr_row xs)" "length xs < 2 ^ 32"
  shows "map fr_row (fuse xs [] default_config) = map sr_row (take 50 xs) \<and>
     map fr_row (fuse [] xs default_config) = map sr_row (take 50 xs)"
proof -
  let ?l = "take 50 xs" and ?k = "rrf_k default_config"
  have d: "distinct (map sr_row ?l)" using assms(1) by (metis distinct_take take_map)
  have dep: "lexical_depth default_config = 50" "dense_depth default_config = 50" by (simp_all add: default_config_def)
  have sc: "add_rank ?k ?l (map sr_row ?l ! i) f32_zero = default_terms ! i" if "i < length (map sr_row ?l)" for i
    using that find_rank_nth [OF d, of i 1] default_term_nth [of i] by (simp add: add_rank_def)
  have e: "add_rank ?k [] r acc = acc" for r acc by (simp add: add_rank_def)
  have "map fr_row (sort_key fused_key (map (spec_fused ?k ?l []) (map sr_row ?l))) = map sr_row ?l"
    by (rule default_order_sorted) (use d sc e in \<open>simp_all add: spec_fused_def\<close>)
  moreover have "map fr_row (sort_key fused_key (map (spec_fused ?k [] ?l) (map sr_row ?l))) = map sr_row ?l"
    by (rule default_order_sorted) (use d sc e in \<open>simp_all add: spec_fused_def\<close>)
  ultimately show ?thesis
    using fuse_eq [of xs "[]" default_config] fuse_eq [of "[]" xs default_config] assms
    by (simp add: dep fused_rows_def)
qed

text \<open>
  C15: when only one retriever returns rows, fusion with the default configuration keeps that retriever's
  ranking: the fused order is the order of the first fifty rows of the list, whichever list it is.
\<close>

theorem fuse_single_list_keeps_order:
  assumes "distinct (map sr_row xs)" "length xs < 2 ^ 32"
  shows "map fr_row (fuse xs [] default_config) = map sr_row (take 50 xs) \<and>
     map fr_row (fuse [] xs default_config) = map sr_row (take 50 xs)"
  using assms by (rule fuse_single_order)

theorem fuse_single_list_keeps_order_witness:
  "map fr_row (fuse [scored_of 9 1, scored_of 4 7] [] default_config) = [9, 4]"
  using fuse_single_list_keeps_order [of "[scored_of 9 1, scored_of 4 7]"] by (simp add: scored_of_def)

end
