(* ===== verification/Tokenize.thy ===== *)
theory Tokenize
  imports Utf8_Text
begin

text \<open>
  Code-aware tokenization (\<open>crates/retrieval/src/tokenize.rs\<close>): an identifier becomes the whole
  identifier and its camel-case, acronym and separator delimited parts, lower-cased and without
  repetition; a text becomes the terms of its words with byte offsets and word positions.
\<close>

section \<open>Identifiers\<close>

definition push_unique :: "string list \<Rightarrow> string \<Rightarrow> string list" where
  "push_unique terms term = (if term \<noteq> [] \<and> term \<notin> set terms then terms @ [term] else terms)"

text \<open>A character is its bytes; only one-byte characters can be ASCII alphanumeric.\<close>

definition ch_alnum :: "bytes \<Rightarrow> bool" where
  "ch_alnum ch = (case ch of [c] \<Rightarrow> is_alnum c | _ \<Rightarrow> False)"

definition ch_is :: "char \<Rightarrow> bytes \<Rightarrow> bool" where
  "ch_is c ch \<longleftrightarrow> ch = [c]"

definition identifier_separator :: "bytes \<Rightarrow> bool" where
  "identifier_separator ch \<longleftrightarrow> ch_is (CHR ''_'') ch \<or> ch_is (CHR ''-'') ch \<or> \<not> ch_alnum ch"

definition has_namespace_separator :: "string \<Rightarrow> bool" where
  "has_namespace_separator token =
     list_ex (\<lambda>ch. \<not> ch_alnum ch \<and> \<not> ch_is (CHR ''_'') ch \<and> \<not> ch_is (CHR ''-'') ch) (chars token)"

definition components :: "string \<Rightarrow> string list" where
  "components token = map concat (split_chars identifier_separator (chars token))"

definition word_boundary :: "string \<Rightarrow> nat \<Rightarrow> bool" where
  "word_boundary characters index =
     (let previous = characters ! (index - 1);
          current = characters ! index;
          next_lower = (index + 1 < length characters \<and> is_lower (characters ! (index + 1)));
          lower_to_upper = (is_lower previous \<and> is_upper current);
          acronym_to_word = (is_upper previous \<and> is_upper current \<and> next_lower)
      in lower_to_upper \<or> acronym_to_word)"

text \<open>The loop over \<open>1..len\<close>: \<open>fuel\<close> counts the indices left, so it ends exactly at the last one.\<close>

fun split_component :: "string \<Rightarrow> nat \<Rightarrow> nat \<Rightarrow> nat \<Rightarrow> string list \<Rightarrow> string list" where
  "split_component characters start index 0 terms =
     (if start < length characters
      then push_unique terms (to_ascii_lowercase (drop start characters)) else terms)"
| "split_component characters start index (Suc fuel) terms =
     (if word_boundary characters index
      then split_component characters index (index + 1) fuel
             (push_unique terms (to_ascii_lowercase (subslice start index characters)))
      else split_component characters start (index + 1) fuel terms)"

definition add_component :: "string \<Rightarrow> string list \<Rightarrow> string list" where
  "add_component characters terms = split_component characters 0 1 (length characters - 1) terms"

definition split_identifier :: "string \<Rightarrow> string list" where
  "split_identifier token =
     (let terms = (if token \<noteq> [] \<and> \<not> has_namespace_separator token
                   then push_unique [] (to_ascii_lowercase token) else [])
      in fold add_component (components token) terms)"

section \<open>Token streams\<close>

record token =
  tk_offset_from :: nat
  tk_offset_to :: nat
  tk_position :: nat
  tk_text :: string

fun find_sub :: "string \<Rightarrow> string \<Rightarrow> nat option" where
  "find_sub w [] = (if w = [] then Some 0 else None)"
| "find_sub w (c # cs) = (if starts_with w (c # cs) then Some 0 else map_option Suc (find_sub w cs))"

fun stream_words :: "string \<Rightarrow> string list \<Rightarrow> nat \<Rightarrow> nat \<Rightarrow> token list" where
  "stream_words text [] position search_from = []"
| "stream_words text (w # ws) position search_from =
     (let offset_from = (case find_sub w (drop search_from text) of
                           Some offset \<Rightarrow> search_from + offset | None \<Rightarrow> search_from);
          offset_to = offset_from + length w;
          terms = split_identifier w
      in if terms = [] then stream_words text ws position offset_to
         else map (\<lambda>term. \<lparr>tk_offset_from = offset_from, tk_offset_to = offset_to,
                          tk_position = position, tk_text = term\<rparr>) terms @
              stream_words text ws (position + 1) offset_to)"

definition token_stream :: "string \<Rightarrow> token list" where
  "token_stream text = stream_words text (split_whitespace text) 0 0"

text \<open>\<open>TokenStream::advance\<close>: the stream hands out its tokens one after the other.\<close>

record token_cursor =
  tc_tokens :: "token list"
  tc_index :: nat
  tc_current :: "token option"

definition advance :: "token_cursor \<Rightarrow> bool \<times> token_cursor" where
  "advance c = (if tc_index c < length (tc_tokens c)
     then (True, c\<lparr>tc_current := Some (tc_tokens c ! tc_index c), tc_index := tc_index c + 1\<rparr>)
     else (False, c))"

section \<open>What splitting computes\<close>

text \<open>The parts of a component as the loop cuts them, before lower-casing and deduplication.\<close>

fun parts_from :: "string \<Rightarrow> nat \<Rightarrow> nat \<Rightarrow> nat \<Rightarrow> string list" where
  "parts_from cs start index 0 = (if start < length cs then [drop start cs] else [])"
| "parts_from cs start index (Suc fuel) =
     (if word_boundary cs index then subslice start index cs # parts_from cs index (index + 1) fuel
      else parts_from cs start (index + 1) fuel)"

definition component_parts :: "string \<Rightarrow> string list" where
  "component_parts cs = parts_from cs 0 1 (length cs - 1)"

lemma split_component_fold:
  "split_component cs start index fuel terms =
     fold (\<lambda>p terms. push_unique terms (to_ascii_lowercase p)) (parts_from cs start index fuel) terms"
  by (induction cs start index fuel terms rule: split_component.induct) auto

lemma parts_from_concat:
  assumes "index + fuel = max 1 (length cs)" "start < index" "start \<le> length cs"
  shows "concat (parts_from cs start index fuel) = drop start cs \<and> [] \<notin> set (parts_from cs start index fuel)"
  using assms
proof (induction fuel arbitrary: start index)
  case 0
  then show ?case by auto
next
  case (Suc fuel)
  then have idx: "index < length cs" by auto
  show ?case
  proof (cases "word_boundary cs index")
    case True
    have "concat (parts_from cs index (index + 1) fuel) = drop index cs \<and> [] \<notin> set (parts_from cs index (index + 1) fuel)"
      using Suc idx by (intro Suc.IH) auto
    moreover have "subslice start index cs @ drop index cs = drop start cs"
      using Suc.prems idx by (simp add: subslice_def) (metis append_take_drop_id drop_drop le_add_diff_inverse2 less_imp_le)
    moreover have "subslice start index cs \<noteq> []" using Suc.prems idx by (simp flip: length_0_conv)
    ultimately show ?thesis using True by auto
  next
    case False
    then show ?thesis using Suc.IH [of "index + 1" start] Suc.prems by simp
  qed
qed

lemma set_fold_push:
  "set (fold (\<lambda>p terms. push_unique terms (f p)) ps terms) = set terms \<union> {f p | p. p \<in> set ps \<and> f p \<noteq> []}"
  by (induction ps arbitrary: terms) (auto simp: push_unique_def)

lemma distinct_fold_push:
  "distinct terms \<Longrightarrow> distinct (fold (\<lambda>p terms. push_unique terms (f p)) ps terms)"
  by (induction ps arbitrary: terms) (auto simp: push_unique_def)

lemma lower_Nil [simp]:
  "to_ascii_lowercase s = [] \<longleftrightarrow> s = []" "[] = to_ascii_lowercase s \<longleftrightarrow> s = []"
  by (auto simp: to_ascii_lowercase_def)

lemma component_parts_props: "concat (component_parts cs) = cs \<and> [] \<notin> set (component_parts cs)"
  unfolding component_parts_def
  using parts_from_concat [of 1 "length cs - 1" cs 0] by (cases cs) auto

lemma add_component_set:
  "set (add_component cs terms) = set terms \<union> to_ascii_lowercase ` set (component_parts cs)"
  using component_parts_props [of cs]
  by (auto simp: add_component_def split_component_fold set_fold_push component_parts_def)

lemma add_component_distinct: "distinct terms \<Longrightarrow> distinct (add_component cs terms)"
  by (simp add: add_component_def split_component_fold distinct_fold_push)

lemma fold_components:
  "distinct terms \<Longrightarrow> distinct (fold add_component cs terms) \<and>
   set (fold add_component cs terms) = set terms \<union> (\<Union>c \<in> set cs. to_ascii_lowercase ` set (component_parts c))"
  by (induction cs arbitrary: terms) (auto simp: add_component_set add_component_distinct)


end
