(* ===== verification/Lexical.thy ===== *)
theory Lexical
  imports Ranking Tokenize
begin

text \<open>
  The lexical retriever (\<open>crates/retrieval/src/lexical.rs\<close>). The full-text engine (tantivy) is not part of
  the repository: it is the record \<open>tantivy\<close> of the operations the code calls, a parameter of the model,
  and \<open>tantivy_runs\<close> states its documented behaviour: a deletion removes the staged documents with
  that row, an addition stages one document, and a commit followed by a reload makes what is staged
  visible to searches.
\<close>

section \<open>Documents\<close>

datatype field = F_row | F_symbol | F_signature | F_doc | F_file | F_body

datatype field_value = U64 nat | Text string

type_synonym document = "(field \<times> field_value) list"

record lexical_document =
  ld_symbol :: string
  ld_signature :: string
  ld_doc_first_line :: "string option"
  ld_file :: string
  ld_body :: string

definition to_document :: "nat \<Rightarrow> lexical_document \<Rightarrow> document" where
  "to_document r d =
     [(F_row, U64 r), (F_symbol, Text (ld_symbol d)), (F_signature, Text (ld_signature d))] @
     (case ld_doc_first_line d of None \<Rightarrow> [] | Some l \<Rightarrow> [(F_doc, Text l)]) @
     [(F_file, Text (ld_file d)), (F_body, Text (ld_body d))]"

definition get_text :: "document \<Rightarrow> field \<Rightarrow> string option" where
  "get_text d f = (case map_of d f of Some (Text s) \<Rightarrow> Some s | _ \<Rightarrow> None)"

definition lexical_doc :: "document \<Rightarrow> lexical_document option" where
  "lexical_doc d =
     (case get_text d F_symbol of None \<Rightarrow> None | Some sy \<Rightarrow>
      case get_text d F_signature of None \<Rightarrow> None | Some si \<Rightarrow>
      case get_text d F_file of None \<Rightarrow> None | Some fi \<Rightarrow>
      case get_text d F_body of None \<Rightarrow> None | Some bo \<Rightarrow>
        Some \<lparr>ld_symbol = sy, ld_signature = si, ld_doc_first_line = get_text d F_doc, ld_file = fi, ld_body = bo\<rparr>)"

definition doc_row :: "document \<Rightarrow> nat option" where
  "doc_row d = (case map_of d F_row of Some (U64 r) \<Rightarrow> Some r | _ \<Rightarrow> None)"

section \<open>Queries\<close>

definition SYMBOL_BOOST :: f32 where "SYMBOL_BOOST = 0x40800000"
definition SIGNATURE_BOOST :: f32 where "SIGNATURE_BOOST = 0x40400000"
definition DOC_BOOST :: f32 where "DOC_BOOST = 0x40000000"
definition BODY_BOOST :: f32 where "BODY_BOOST = 0x3F800000"
definition FILE_BOOST :: f32 where "FILE_BOOST = 0x3F000000"

text \<open>A disjunction of boosted term queries.\<close>

record clause =
  cl_field :: field
  cl_term :: string
  cl_boost :: f32

definition query_terms :: "string \<Rightarrow> string list" where
  "query_terms query =
     fold (\<lambda>t terms. if tk_text t \<in> set terms then terms else terms @ [tk_text t]) (token_stream query) []"

definition field_boosts :: "(field \<times> f32) list" where
  "field_boosts = [(F_symbol, SYMBOL_BOOST), (F_signature, SIGNATURE_BOOST), (F_doc, DOC_BOOST),
     (F_body, BODY_BOOST), (F_file, FILE_BOOST)]"

definition build_query :: "string \<Rightarrow> clause list option" where
  "build_query query =
     (let terms = query_terms query
      in if terms = [] then None
         else Some (concat (map (\<lambda>term. map (\<lambda>(f, boost). \<lparr>cl_field = f, cl_term = term, cl_boost = boost\<rparr>)
                field_boosts) terms)))"

section \<open>The engine and the index\<close>

record 'i tantivy =
  tv_delete_row :: "nat \<Rightarrow> 'i \<Rightarrow> 'i"
  tv_add_document :: "document \<Rightarrow> 'i \<Rightarrow> string + 'i"
  tv_commit :: "'i \<Rightarrow> string + 'i"
  tv_reload :: "'i \<Rightarrow> string + 'i"
  tv_search_rows :: "clause list \<Rightarrow> nat \<Rightarrow> 'i \<Rightarrow> string + (f32 \<times> nat) list"
  tv_find_row :: "nat \<Rightarrow> 'i \<Rightarrow> string + document option"
  tv_num_docs :: "'i \<Rightarrow> nat"

definition tantivy_error :: "string + 'a \<Rightarrow> (retrieval_error, 'a) res" where
  "tantivy_error m = (case m of Inl s \<Rightarrow> Inl (Raise (RTantivy s)) | Inr a \<Rightarrow> Inr a)"

definition lexical_search :: "'i tantivy \<Rightarrow> 'i \<Rightarrow> string \<Rightarrow> nat \<Rightarrow> (retrieval_error, scored_row list) res" where
  "lexical_search T i query limit =
     (if limit = 0 then Inr []
      else case build_query query of None \<Rightarrow> Inr []
      | Some parsed \<Rightarrow> bind_res (tantivy_error (tv_search_rows T parsed limit i)) (\<lambda>docs.
          Inr (map (\<lambda>(score, r). \<lparr>sr_row = r, sr_score = score\<rparr>) docs)))"

definition load_document :: "'i tantivy \<Rightarrow> 'i \<Rightarrow> nat \<Rightarrow> (retrieval_error, document option) res" where
  "load_document T i r = tantivy_error (tv_find_row T r i)"

definition bodies :: "'i tantivy \<Rightarrow> 'i \<Rightarrow> nat list \<Rightarrow> (retrieval_error, string option list) res" where
  "bodies T i rows = map_res (\<lambda>r. bind_res (load_document T i r) (\<lambda>d.
     Inr (case d of None \<Rightarrow> None | Some d \<Rightarrow> map_option ld_body (lexical_doc d)))) rows"

type_synonym 'i lexical_step = "(retrieval_error, unit) res \<times> 'i"

definition put_document :: "'i tantivy \<Rightarrow> nat \<Rightarrow> lexical_document \<Rightarrow> 'i \<Rightarrow> 'i lexical_step" where
  "put_document T r d i = (case tantivy_error (tv_add_document T (to_document r d) i) of
      Inl e \<Rightarrow> (Inl e, i) | Inr i \<Rightarrow> (Inr (), i))"

text \<open>A loop over a list whose body may fail: the first error ends it with the state reached.\<close>

fun for_each :: "('a \<Rightarrow> 'i \<Rightarrow> 'i lexical_step) \<Rightarrow> 'a list \<Rightarrow> 'i \<Rightarrow> 'i lexical_step" where
  "for_each body [] i = (Inr (), i)"
| "for_each body (x # xs) i = (case body x i of (Inl e, i) \<Rightarrow> (Inl e, i) | (Inr _, i) \<Rightarrow> for_each body xs i)"

definition add_batch :: "'i tantivy \<Rightarrow> (nat \<times> lexical_document) list \<Rightarrow> 'i \<Rightarrow> 'i lexical_step" where
  "add_batch T docs i = for_each (\<lambda>(r, d) i. put_document T r d (tv_delete_row T r i)) docs i"

definition remove_rows :: "'i tantivy \<Rightarrow> nat list \<Rightarrow> 'i \<Rightarrow> 'i lexical_step" where
  "remove_rows T rows i = for_each (\<lambda>r i. (Inr (), tv_delete_row T r i)) rows i"

definition update_file_path :: "'i tantivy \<Rightarrow> nat \<times> string \<Rightarrow> 'i \<Rightarrow> 'i lexical_step" where
  "update_file_path T = (\<lambda>(r, path) i.
     case load_document T i r of Inl e \<Rightarrow> (Inl e, i) | Inr None \<Rightarrow> (Inr (), i) | Inr (Some old) \<Rightarrow>
     case lexical_doc old of None \<Rightarrow> (Inr (), i) | Some d \<Rightarrow>
       put_document T r (d\<lparr>ld_file := path\<rparr>) (tv_delete_row T r i))"

definition update_file_paths :: "'i tantivy \<Rightarrow> (nat \<times> string) list \<Rightarrow> 'i \<Rightarrow> 'i lexical_step" where
  "update_file_paths T paths i = for_each (update_file_path T) paths i"

definition renumber_row :: "'i tantivy \<Rightarrow> nat \<times> nat \<Rightarrow> 'i \<Rightarrow> 'i lexical_step" where
  "renumber_row T = (\<lambda>(old_row, new_row) i.
     case load_document T i old_row of Inl e \<Rightarrow> (Inl e, i) | Inr None \<Rightarrow> (Inr (), i) | Inr (Some old) \<Rightarrow>
     case lexical_doc old of None \<Rightarrow> (Inr (), i) | Some d \<Rightarrow>
       put_document T new_row d (tv_delete_row T new_row (tv_delete_row T old_row i)))"

definition renumber :: "'i tantivy \<Rightarrow> (nat \<times> nat) list \<Rightarrow> 'i \<Rightarrow> 'i lexical_step" where
  "renumber T mapping i = for_each (renumber_row T) mapping i"

definition lexical_commit :: "'i tantivy \<Rightarrow> 'i \<Rightarrow> 'i lexical_step" where
  "lexical_commit T i =
     (case tantivy_error (tv_commit T i) of Inl e \<Rightarrow> (Inl e, i) | Inr i \<Rightarrow>
      case tantivy_error (tv_reload T i) of Inl e \<Rightarrow> (Inl e, i) | Inr i \<Rightarrow> (Inr (), i))"

definition num_docs :: "'i tantivy \<Rightarrow> 'i \<Rightarrow> nat" where
  "num_docs T i = tv_num_docs T i"

section \<open>The engine's contract\<close>

definition tantivy_runs :: "'i tantivy \<Rightarrow> ('i \<Rightarrow> document list) \<Rightarrow> ('i \<Rightarrow> document list) \<Rightarrow> bool" where
  "tantivy_runs T staged visible \<longleftrightarrow>
     (\<forall>r i. staged (tv_delete_row T r i) = filter (\<lambda>d. doc_row d \<noteq> Some r) (staged i) \<and>
            visible (tv_delete_row T r i) = visible i) \<and>
     (\<forall>d i. \<exists>i'. tv_add_document T d i = Inr i' \<and> staged i' = staged i @ [d] \<and> visible i' = visible i) \<and>
     (\<forall>i. \<exists>i1 i2. tv_commit T i = Inr i1 \<and> tv_reload T i1 = Inr i2 \<and>
            staged i2 = staged i \<and> visible i2 = staged i) \<and>
     (\<forall>r i. tv_find_row T r i = Inr (find (\<lambda>d. doc_row d = Some r) (visible i)))"

lemma doc_row_to_document [simp]: "doc_row (to_document r d) = Some r"
  by (simp add: doc_row_def to_document_def)

text \<open>Reading a stored document back gives the document that was stored.\<close>

lemma lexical_doc_to_document [simp]: "lexical_doc (to_document r d) = Some d"
  by (cases "ld_doc_first_line d") (simp_all add: lexical_doc_def to_document_def get_text_def)

lemma tantivy_delete:
  assumes "tantivy_runs T staged visible"
  shows "staged (tv_delete_row T r i) = filter (\<lambda>d. doc_row d \<noteq> Some r) (staged i)"
    "visible (tv_delete_row T r i) = visible i"
  using assms by (simp_all add: tantivy_runs_def)

lemma tantivy_put:
  assumes "tantivy_runs T staged visible"
  shows "\<exists>i'. put_document T r d i = (Inr (), i') \<and> staged i' = staged i @ [to_document r d] \<and> visible i' = visible i"
proof -
  obtain i' where "tv_add_document T (to_document r d) i = Inr i'" "staged i' = staged i @ [to_document r d]"
    "visible i' = visible i" using assms unfolding tantivy_runs_def by blast
  then show ?thesis by (simp add: put_document_def tantivy_error_def)
qed

lemma tantivy_commit:
  assumes "tantivy_runs T staged visible"
  shows "\<exists>i'. lexical_commit T i = (Inr (), i') \<and> staged i' = staged i \<and> visible i' = staged i"
proof -
  obtain i1 i2 where "tv_commit T i = Inr i1" "tv_reload T i1 = Inr i2" "staged i2 = staged i" "visible i2 = staged i"
    using assms unfolding tantivy_runs_def by blast
  then show ?thesis by (simp add: lexical_commit_def tantivy_error_def)
qed

lemma tantivy_load:
  "tantivy_runs T staged visible \<Longrightarrow> load_document T i r = Inr (find (\<lambda>d. doc_row d = Some r) (visible i))"
  by (simp add: load_document_def tantivy_error_def tantivy_runs_def)

section \<open>Storing and renumbering\<close>

definition docs_of :: "(nat \<times> lexical_document) list \<Rightarrow> document list" where
  "docs_of ds = map (\<lambda>(r, d). to_document r d) ds"

lemma find_docs_of:
  "find (\<lambda>d. doc_row d = Some r) (docs_of ds) = map_option (to_document r) (map_of ds r)"
  by (induction ds) (auto simp: docs_of_def)

lemma find_filter: "find P (filter Q xs) = find (\<lambda>x. Q x \<and> P x) xs"
  by (induction xs) auto

lemma find_append: "find P (xs @ ys) = (case find P xs of None \<Rightarrow> find P ys | Some x \<Rightarrow> Some x)"
  by (induction xs) auto

lemma find_False [simp]: "find (\<lambda>x. False) xs = None"
  by (induction xs) auto

lemma find_cong_pred: "(\<And>x. P x = Q x) \<Longrightarrow> find P xs = find Q xs"
  by (induction xs) auto

lemma add_batch_staged:
  assumes T: "tantivy_runs T staged visible"
  shows "\<exists>i'. add_batch T docs i = (Inr (), i') \<and> visible i' = visible i \<and>
     (\<forall>r. find (\<lambda>d. doc_row d = Some r) (staged i') =
        (case map_of (rev docs) r of Some d \<Rightarrow> Some (to_document r d)
         | None \<Rightarrow> find (\<lambda>d. doc_row d = Some r) (staged i)))"
proof (induction docs arbitrary: i)
  case Nil
  then show ?case by (simp add: add_batch_def)
next
  case (Cons x docs)
  obtain r d where x: "x = (r, d)" by fastforce
  obtain i1 where i1: "put_document T r d (tv_delete_row T r i) = (Inr (), i1)"
    "staged i1 = filter (\<lambda>d. doc_row d \<noteq> Some r) (staged i) @ [to_document r d]" "visible i1 = visible i"
    using tantivy_put [OF T] tantivy_delete [OF T] by metis
  have f1: "find (\<lambda>d. doc_row d = Some q) (staged i1) =
      (if q = r then Some (to_document r d) else find (\<lambda>d. doc_row d = Some q) (staged i))" for q
  proof (cases "q = r")
    case True
    then show ?thesis by (auto simp: i1(2) find_append find_filter find_None_iff split: option.splits)
  next
    case False
    then have "find (\<lambda>x. doc_row x \<noteq> Some r \<and> doc_row x = Some q) (staged i) = find (\<lambda>x. doc_row x = Some q) (staged i)"
      by (intro find_cong_pred) auto
    then show ?thesis using False by (auto simp: i1(2) find_append find_filter split: option.splits)
  qed
  obtain i' where i': "add_batch T docs i1 = (Inr (), i')" "visible i' = visible i1"
    "\<forall>q. find (\<lambda>d. doc_row d = Some q) (staged i') =
        (case map_of (rev docs) q of Some d \<Rightarrow> Some (to_document q d)
         | None \<Rightarrow> find (\<lambda>d. doc_row d = Some q) (staged i1))"
    using Cons.IH by blast
  have "add_batch T (x # docs) i = (Inr (), i')" using i'(1) i1(1) by (simp add: add_batch_def x)
  moreover have "find (\<lambda>d. doc_row d = Some q) (staged i') =
        (case map_of (rev (x # docs)) q of Some d \<Rightarrow> Some (to_document q d)
         | None \<Rightarrow> find (\<lambda>d. doc_row d = Some q) (staged i))" for q
    using i'(3) f1 [of q] by (auto simp: x map_add_def split: option.splits)
  ultimately show ?case using i'(2) i1(3) by auto
qed

lemma filter_docs_of: "filter (\<lambda>d. doc_row d \<noteq> Some r) (docs_of ds) = docs_of (filter (\<lambda>(q, d). q \<noteq> r) ds)"
  by (induction ds) (auto simp: docs_of_def)

lemma filter_zip_rows: "k \<le> n \<Longrightarrow> filter (\<lambda>(q, d). q \<noteq> n) (zip [0..<k] xs) = zip [0..<k] xs"
  by (rule filter_True) (auto dest!: set_zip_leftD)

text \<open>One step of the renumbering loop, after the first \<open>length done\<close> rows have been moved.\<close>

lemma renumber_steps:
  assumes T: "tantivy_runs T staged visible"
    and vis: "\<forall>(r, d) \<in> set todo. find (\<lambda>x. doc_row x = Some r) (visible i) = Some (to_document r d)"
    and st: "staged i = docs_of (todo @ zip [0..<k] ds)" and k: "k = length ds"
    and sorted: "sorted_wrt (<) (map fst todo)" and low: "\<forall>r \<in> set (map fst todo). k \<le> r"
  shows "\<exists>i'. renumber T (zip (map fst todo) [k..<k + length todo]) i = (Inr (), i') \<and>
     staged i' = docs_of (zip [0..<k + length todo] (ds @ map snd todo))"
  using assms(2-)
proof (induction todo arbitrary: i k ds)
  case Nil
  then show ?case by (simp add: renumber_def)
next
  case (Cons x todo)
  obtain r d where x: "x = (r, d)" by fastforce
  have rk: "k \<le> r" and later: "\<forall>q \<in> set (map fst todo). r < q"
    using Cons.prems(4,5) by (auto simp: x)
  have load: "load_document T i r = Inr (Some (to_document r d))"
    using Cons.prems(1) tantivy_load [OF T] by (simp add: x)
  define del where "del = tv_delete_row T k (tv_delete_row T r i)"
  have todo1: "filter (\<lambda>(q, d). q \<noteq> k) (filter (\<lambda>(q, d). q \<noteq> r) ((r, d) # todo)) = todo"
    using later rk by (auto intro!: filter_True)
  have "staged del = docs_of (filter (\<lambda>(q, d). q \<noteq> k) (filter (\<lambda>(q, d). q \<noteq> r) ((x # todo) @ zip [0..<k] ds)))"
    by (simp add: del_def tantivy_delete [OF T] Cons.prems(2) filter_docs_of)
  also have "\<dots> = docs_of (todo @ zip [0..<k] ds)"
    using todo1 filter_zip_rows [of k r ds] filter_zip_rows [of k k ds] rk by (simp add: x del: filter_filter)
  finally have sdel: "staged del = docs_of (todo @ zip [0..<k] ds)" .
  obtain i1 where i1: "put_document T k d del = (Inr (), i1)" "staged i1 = staged del @ [to_document k d]"
    "visible i1 = visible del"
    using tantivy_put [OF T] by metis
  have v1: "visible i1 = visible i" by (simp add: i1(3) del_def tantivy_delete [OF T])
  have step: "renumber_row T (r, k) i = (Inr (), i1)"
    using load i1(1) by (simp add: renumber_row_def del_def)
  have z: "zip [0..<k] ds @ [(k, d)] = zip [0..<Suc k] (ds @ [d])"
    using Cons.prems(3) by simp
  have s1: "staged i1 = docs_of (todo @ zip [0..<Suc k] (ds @ [d]))"
    unfolding i1(2) sdel z [symmetric] by (simp add: docs_of_def)
  have "\<exists>i'. renumber T (zip (map fst todo) [Suc k..<Suc k + length todo]) i1 = (Inr (), i') \<and>
     staged i' = docs_of (zip [0..<Suc k + length todo] ((ds @ [d]) @ map snd todo))"
    by (rule Cons.IH) (use Cons.prems s1 v1 later rk in \<open>auto simp: x\<close>)
  then show ?case using step by (simp add: renumber_def x upt_conv_Cons del: upt_Suc)
qed

section \<open>Properties of the lexical index\<close>

text \<open>An engine that keeps its staged and visible documents in two lists.\<close>

definition clause_matches :: "document \<Rightarrow> clause \<Rightarrow> bool" where
  "clause_matches d c = (case get_text d (cl_field c) of None \<Rightarrow> False
     | Some s \<Rightarrow> cl_term c \<in> set (map tk_text (token_stream s)))"

definition list_engine :: "(document list \<times> document list) tantivy" where
  "list_engine = \<lparr>
     tv_delete_row = (\<lambda>r (st, vi). (filter (\<lambda>d. doc_row d \<noteq> Some r) st, vi)),
     tv_add_document = (\<lambda>d (st, vi). Inr (st @ [d], vi)),
     tv_commit = (\<lambda>i. Inr i),
     tv_reload = (\<lambda>(st, vi). Inr (st, st)),
     tv_search_rows = (\<lambda>cs limit (st, vi). Inr (take limit (concat (map (\<lambda>d.
        case doc_row d of Some r \<Rightarrow> if list_ex (clause_matches d) cs then [(f32_one, r)] else [] | None \<Rightarrow> []) vi)))),
     tv_find_row = (\<lambda>r (st, vi). Inr (find (\<lambda>d. doc_row d = Some r) vi)),
     tv_num_docs = (\<lambda>(st, vi). length vi)\<rparr>"

lemma list_engine_runs: "tantivy_runs list_engine fst snd"
  by (auto simp: tantivy_runs_def list_engine_def)

definition wit_doc :: "string \<Rightarrow> lexical_document" where
  "wit_doc b = \<lparr>ld_symbol = ''s'', ld_signature = ''fn s'', ld_doc_first_line = None, ld_file = ''f.rs'', ld_body = b\<rparr>"

text \<open>
  C17: renumbering after a compaction moves every document with its row. When the index holds the documents
  of the live rows in ascending order and is renumbered with the mapping of the compaction, the
  committed index holds exactly those documents, the one of the \<open>k\<close>-th live row now at row \<open>k\<close>,
  although old and new row numbers overlap.
\<close>

theorem renumber_follows_compaction:
  assumes "tantivy_runs T staged visible" "sorted_wrt (<) (map fst ds)"
    "staged i = docs_of ds" "visible i = docs_of ds"
  shows "\<exists>i1 i2. renumber T (zip (map fst ds) [0..<length ds]) i = (Inr (), i1) \<and>
     lexical_commit T i1 = (Inr (), i2) \<and>
     visible i2 = map (\<lambda>(r, d). to_document r d) (zip [0..<length ds] (map snd ds))"
proof -
  have "distinct (map fst ds)" using assms(2) by (simp add: strict_sorted_iff)
  then have "\<forall>(r, d) \<in> set ds. find (\<lambda>x. doc_row x = Some r) (visible i) = Some (to_document r d)"
    by (auto simp: assms(4) find_docs_of)
  from renumber_steps [OF assms(1) this, of 0 "[]"] obtain i1 where
    i1: "renumber T (zip (map fst ds) [0..<length ds]) i = (Inr (), i1)"
      "staged i1 = docs_of (zip [0..<length ds] (map snd ds))"
    using assms(2,3) by auto
  then show ?thesis using tantivy_commit [OF assms(1), of i1] by (auto simp: docs_of_def)
qed

theorem renumber_follows_compaction_witness:
  "\<exists>i1 i2. renumber list_engine [(1, 0), (2, 1)]
       (docs_of [(1, wit_doc ''a''), (2, wit_doc ''b'')], docs_of [(1, wit_doc ''a''), (2, wit_doc ''b'')]) = (Inr (), i1) \<and>
     lexical_commit list_engine i1 = (Inr (), i2) \<and>
     snd i2 = [to_document 0 (wit_doc ''a''), to_document 1 (wit_doc ''b'')]"
  using renumber_follows_compaction [OF list_engine_runs, of "[(1, wit_doc ''a''), (2, wit_doc ''b'')]"
      "(docs_of [(1, wit_doc ''a''), (2, wit_doc ''b'')], docs_of [(1, wit_doc ''a''), (2, wit_doc ''b'')])"]
  by (simp add: numeral_2_eq_2)

text \<open>
  What is stored is what is read: after a batch of documents is added and committed, the stored body of
  every row is the body of the last document of the batch for that row, and a row outside the batch
  keeps the body it had.
\<close>

theorem add_batch_then_bodies:
  assumes "tantivy_runs T staged visible" "staged i = docs_of old"
  shows "\<exists>i1 i2. add_batch T docs i = (Inr (), i1) \<and> lexical_commit T i1 = (Inr (), i2) \<and>
     bodies T i2 rows = Inr (map (\<lambda>r. case map_of (rev docs) r of Some d \<Rightarrow> Some (ld_body d)
       | None \<Rightarrow> map_option ld_body (map_of old r)) rows)"
proof -
  obtain i1 where i1: "add_batch T docs i = (Inr (), i1)"
    "\<forall>r. find (\<lambda>d. doc_row d = Some r) (staged i1) =
        (case map_of (rev docs) r of Some d \<Rightarrow> Some (to_document r d)
         | None \<Rightarrow> find (\<lambda>d. doc_row d = Some r) (staged i))"
    using add_batch_staged [OF assms(1)] by blast
  obtain i2 where i2: "lexical_commit T i1 = (Inr (), i2)" "visible i2 = staged i1"
    using tantivy_commit [OF assms(1)] by blast
  have "bodies T i2 rows = Inr (map (\<lambda>r. case map_of (rev docs) r of Some d \<Rightarrow> Some (ld_body d)
       | None \<Rightarrow> map_option ld_body (map_of old r)) rows)"
    unfolding bodies_def
    by (rule map_res_Inr) (auto simp: tantivy_load [OF assms(1)] i2(2) i1(2) assms(2) find_docs_of
        split: option.splits)
  then show ?thesis using i1(1) i2(1) by auto
qed

theorem add_batch_then_bodies_witness:
  "\<exists>i1 i2. add_batch list_engine [(3, wit_doc ''a''), (3, wit_doc ''b'')] (docs_of [(0, wit_doc ''z'')], []) = (Inr (), i1) \<and>
     lexical_commit list_engine i1 = (Inr (), i2) \<and>
     bodies list_engine i2 [0, 3, 5] = Inr [Some ''z'', Some ''b'', None]"
  using add_batch_then_bodies [OF list_engine_runs, of "(docs_of [(0, wit_doc ''z'')], [])" "[(0, wit_doc ''z'')]"
      "[(3, wit_doc ''a''), (3, wit_doc ''b'')]" "[0, 3, 5]"]
  by (simp add: wit_doc_def)

end
