(* ===== verification/Search.thy ===== *)
theory Search
  imports Dense Fusion Lexical Store_Correct
begin

text \<open>
  Fused search (\<open>crates/retrieval/src/search.rs\<close>) and result records (\<open>result.rs\<close>): embed the query, run
  both retrievers, fuse, look the records up and assemble previews. The embedding model is the record
  \<open>embedder\<close> (the trait \<open>Embedder\<close>), a parameter. Wall-clock readings are an argument, and the
  artificial delays of tests have no effect on results; the forced failures of tests are the hooks.
\<close>

section \<open>Results\<close>

definition PREVIEW_MAX_BYTES :: nat where "PREVIEW_MAX_BYTES = 320"

record search_result =
  res_file :: string
  res_symbol :: string
  res_signature :: string
  res_doc :: "string option"
  res_preview :: string
  res_lines :: "nat \<times> nat"
  res_lexical_score :: "f32 option"
  res_dense_score :: "f32 option"
  res_fused_score :: f32

record stage_timings =
  tm_embed :: nat
  tm_lexical :: nat
  tm_dense :: nat
  tm_fuse :: nat
  tm_assemble :: nat
  tm_total :: nat

record search_diagnostics =
  dg_lexical_ok :: bool
  dg_dense_ok :: bool
  dg_lexical_error :: "string option"
  dg_dense_error :: "string option"
  dg_stage_millis :: stage_timings

record search_response =
  rs_results :: "search_result list"
  rs_diagnostics :: search_diagnostics

fun back_to_boundary :: "string \<Rightarrow> nat \<Rightarrow> nat" where
  "back_to_boundary body 0 = 0"
| "back_to_boundary body (Suc end') =
     (if is_char_boundary body (Suc end') then Suc end' else back_to_boundary body end')"

definition preview_from_body :: "string \<Rightarrow> string" where
  "preview_from_body body =
     (if length body \<le> PREVIEW_MAX_BYTES then body
      else take (back_to_boundary body PREVIEW_MAX_BYTES) body)"

section \<open>Dispatch\<close>

datatype role = Query | Document

record embedding =
  em_vector :: "f16 list"
  em_truncated :: bool

record embedder =
  eb_model_id :: string
  eb_dims :: nat
  eb_embed :: "string list \<Rightarrow> role \<Rightarrow> (infer_error, embedding list) res"

record dispatch_hooks =
  force_lexical :: "string option"
  force_dense :: "string option"

definition no_hooks :: dispatch_hooks where
  "no_hooks = \<lparr>force_lexical = None, force_dense = None\<rparr>"

definition maybe_force_lexical_error :: "string option \<Rightarrow> (retrieval_error, unit) res" where
  "maybe_force_lexical_error forced = (case forced of Some msg \<Rightarrow> Inl (Raise (RTantivy msg)) | None \<Rightarrow> Inr ())"

definition maybe_force_dense_error :: "string option \<Rightarrow> (retrieval_error, unit) res" where
  "maybe_force_dense_error forced = (case forced of Some msg \<Rightarrow> Inl (Raise (RDense msg)) | None \<Rightarrow> Inr ())"

record 'i dispatch_request =
  rq_engine :: "'i tantivy"
  rq_lexical :: 'i
  rq_dense :: dense_index
  rq_text :: string
  rq_query_vec :: "f16 list"
  rq_model_id :: string
  rq_config :: fusion_config
  rq_run_lexical :: bool
  rq_hooks :: dispatch_hooks

record dispatch_outcome =
  do_lexical :: "(retrieval_error, scored_row list) res"
  do_dense :: "(retrieval_error, scored_row list) res"

definition lexical_path :: "'i dispatch_request \<Rightarrow> (retrieval_error, scored_row list) res" where
  "lexical_path r = bind_res (maybe_force_lexical_error (force_lexical (rq_hooks r))) (\<lambda>_.
     lexical_search (rq_engine r) (rq_lexical r) (rq_text r) (lexical_depth (rq_config r)))"

definition dense_path :: "'i dispatch_request \<Rightarrow> (retrieval_error, scored_row list) res" where
  "dense_path r = bind_res (maybe_force_dense_error (force_dense (rq_hooks r))) (\<lambda>_.
     dense_search (rq_dense r) (rq_query_vec r) (rq_model_id r) (dense_depth (rq_config r)))"

definition dispatch_sequential :: "'i dispatch_request \<Rightarrow> dispatch_outcome" where
  "dispatch_sequential r =
     \<lparr>do_lexical = (if rq_run_lexical r then lexical_path r else Inr []), do_dense = dense_path r\<rparr>"

text \<open>Both threads only read shared state; the scope joins them and collects both results.\<close>

definition dispatch_concurrent :: "'i dispatch_request \<Rightarrow> dispatch_outcome" where
  "dispatch_concurrent r = \<lparr>do_lexical = lexical_path r, do_dense = dense_path r\<rparr>"

section \<open>Assembly and search\<close>

definition result_of :: "fused_row \<Rightarrow> chunk_record \<Rightarrow> string option \<Rightarrow> search_result" where
  "result_of fr rec body =
     \<lparr>res_file = rec_file rec, res_symbol = rec_symbol rec, res_signature = rec_signature rec,
      res_doc = rec_doc_first_line rec,
      res_preview = preview_from_body (case body of Some b \<Rightarrow> b | None \<Rightarrow> []),
      res_lines = (rec_line_start rec, rec_line_end rec),
      res_lexical_score = ct_score (fr_lexical fr), res_dense_score = ct_score (fr_dense fr),
      res_fused_score = fr_fused_score fr\<rparr>"

definition assemble :: "chunk_store \<Rightarrow> 'i tantivy \<Rightarrow> 'i \<Rightarrow> fused_row list \<Rightarrow> nat \<Rightarrow>
    (retrieval_error, search_result list) res" where
  "assemble s T i fused top_k =
     (let selected = take top_k fused;
          row_ids = map fr_row selected;
          records = fst (get_many s row_ids)
      in bind_res (bodies T i row_ids) (\<lambda>bs.
         Inr (concat (map (\<lambda>(index, fr).
           case (if index < length records then records ! index else None) of
             None \<Rightarrow> []
           | Some rec \<Rightarrow> [result_of fr rec (if index < length bs then bs ! index else None)])
           (enumerate 0 selected)))))"

record 'i searcher =
  se_engine :: "'i tantivy"
  se_lexical :: 'i
  se_dense :: dense_index
  se_store :: chunk_store
  se_embedder :: embedder
  se_concurrent :: bool
  se_hooks :: dispatch_hooks

definition searcher_new :: "'i tantivy \<Rightarrow> 'i \<Rightarrow> dense_index \<Rightarrow> chunk_store \<Rightarrow> embedder \<Rightarrow> 'i searcher" where
  "searcher_new T i d s e = \<lparr>se_engine = T, se_lexical = i, se_dense = d, se_store = s, se_embedder = e,
     se_concurrent = True, se_hooks = no_hooks\<rparr>"

definition with_concurrent :: "'i searcher \<Rightarrow> bool \<Rightarrow> 'i searcher" where
  "with_concurrent se c = se\<lparr>se_concurrent := c\<rparr>"

definition with_forced_lexical_error :: "'i searcher \<Rightarrow> string \<Rightarrow> 'i searcher" where
  "with_forced_lexical_error se msg = se\<lparr>se_hooks := (se_hooks se)\<lparr>force_lexical := Some msg\<rparr>\<rparr>"

definition with_forced_dense_error :: "'i searcher \<Rightarrow> string \<Rightarrow> 'i searcher" where
  "with_forced_dense_error se msg = se\<lparr>se_hooks := (se_hooks se)\<lparr>force_dense := Some msg\<rparr>\<rparr>"

definition finish_search :: "'i searcher \<Rightarrow> nat \<Rightarrow> fusion_config \<Rightarrow> stage_timings \<Rightarrow> bool \<Rightarrow> bool \<Rightarrow>
    string option \<Rightarrow> string option \<Rightarrow> scored_row list \<Rightarrow> scored_row list \<Rightarrow> (retrieval_error, search_response) res" where
  "finish_search se top_k config tm lexical_ok dense_ok lexical_error dense_error lexical_rows dense_rows =
     (if \<not> lexical_ok \<and> \<not> dense_ok
      then Inl (Raise (BothRetrieversFailed
             (case lexical_error of Some e \<Rightarrow> e | None \<Rightarrow> ''unknown'')
             (case dense_error of Some e \<Rightarrow> e | None \<Rightarrow> ''unknown'')))
      else let fused = fuse lexical_rows dense_rows config
      in bind_res (assemble (se_store se) (se_engine se) (se_lexical se) fused top_k) (\<lambda>results.
         Inr \<lparr>rs_results = results, rs_diagnostics =
               \<lparr>dg_lexical_ok = lexical_ok, dg_dense_ok = dense_ok, dg_lexical_error = lexical_error,
                dg_dense_error = dense_error, dg_stage_millis = tm\<rparr>\<rparr>))"

definition run_search :: "'i searcher \<Rightarrow> stage_timings \<Rightarrow> string \<Rightarrow> nat \<Rightarrow> fusion_config \<Rightarrow> role \<Rightarrow> bool \<Rightarrow>
    (retrieval_error, search_response) res" where
  "run_search se tm text top_k config rl run_lexical =
     bind_res (map_err RInference (eb_embed (se_embedder se) [text] rl)) (\<lambda>embeddings.
     let query_vec = (case embeddings of [] \<Rightarrow> [] | e # _ \<Rightarrow> em_vector e);
         request = \<lparr>rq_engine = se_engine se, rq_lexical = se_lexical se, rq_dense = se_dense se, rq_text = text,
                    rq_query_vec = query_vec, rq_model_id = eb_model_id (se_embedder se), rq_config = config,
                    rq_run_lexical = run_lexical, rq_hooks = se_hooks se\<rparr>;
         outcome = (if se_concurrent se \<and> run_lexical then dispatch_concurrent request
                    else dispatch_sequential request)
     in case do_lexical outcome of
          Inl (Panic w) \<Rightarrow> Inl (Panic w)
        | Inl (Raise le) \<Rightarrow> (case do_dense outcome of
              Inl (Panic w) \<Rightarrow> Inl (Panic w)
            | Inl (Raise de) \<Rightarrow> finish_search se top_k config tm False False
                (Some (retrieval_to_string le)) (Some (retrieval_to_string de)) [] []
            | Inr dense_rows \<Rightarrow> finish_search se top_k config tm False True
                (Some (retrieval_to_string le)) None [] dense_rows)
        | Inr lexical_rows \<Rightarrow> (case do_dense outcome of
              Inl (Panic w) \<Rightarrow> Inl (Panic w)
            | Inl (Raise de) \<Rightarrow> finish_search se top_k config tm True False None
                (Some (retrieval_to_string de)) lexical_rows []
            | Inr dense_rows \<Rightarrow> finish_search se top_k config tm True True None None lexical_rows dense_rows))"

definition search :: "'i searcher \<Rightarrow> stage_timings \<Rightarrow> string \<Rightarrow> nat \<Rightarrow> fusion_config \<Rightarrow>
    (retrieval_error, search_response) res" where
  "search se tm query top_k config = run_search se tm query top_k config Query True"

definition search_similar :: "'i searcher \<Rightarrow> stage_timings \<Rightarrow> string \<Rightarrow> nat \<Rightarrow> fusion_config \<Rightarrow>
    (retrieval_error, search_response) res" where
  "search_similar se tm code top_k config = run_search se tm code top_k config Document False"

section \<open>Previews\<close>

lemma back_to_boundary_ok:
  "back_to_boundary body n \<le> n \<and> is_char_boundary body (back_to_boundary body n)"
  by (induction n) (auto simp: is_char_boundary_def le_Suc_eq)

lemma back_to_boundary_max: "is_char_boundary body k \<Longrightarrow> k \<le> n \<Longrightarrow> k \<le> back_to_boundary body n"
  by (induction n) (auto simp: le_Suc_eq)

text \<open>A character has at most four bytes, so one of any four consecutive positions is a boundary.\<close>

lemma utf8_step_le4: "utf8_step bs = Some k \<Longrightarrow> k \<le> 4"
  by (auto simp: utf8_step_def split: list.splits if_splits)

lemma utf8_lead: "utf8_step bs = Some k \<Longrightarrow> \<not> is_cont (hd bs)"
  by (auto simp: utf8_step_def is_cont_def byte_in_def split: list.splits if_splits)

lemma boundary_after_step:
  assumes "utf8_step bs = Some k" "valid_utf8 (drop k bs)"
  shows "is_char_boundary bs k"
proof (cases "k < length bs")
  case True
  then have "drop k bs \<noteq> []" by simp
  then obtain j where "utf8_step (drop k bs) = Some j"
    using assms(2) by (auto simp: valid_utf8.simps [of "drop k bs"] split: option.splits)
  from utf8_lead [OF this] show ?thesis using True by (simp add: is_char_boundary_def hd_drop_conv_nth)
next
  case False
  then show ?thesis using utf8_step_bounds [OF assms(1)] by (simp add: is_char_boundary_def)
qed

lemma boundary_near:
  "valid_utf8 bs \<Longrightarrow> n \<le> length bs \<Longrightarrow> \<exists>k. is_char_boundary bs k \<and> k \<le> n \<and> n < k + 4"
proof (induction bs arbitrary: n rule: valid_utf8.induct)
  case (1 bs)
  show ?case
  proof (cases "bs = [] \<or> n < 4")
    case True
    then show ?thesis using "1.prems" by (intro exI [of _ 0]) (auto simp: is_char_boundary_def)
  next
    case False
    then obtain k where k: "utf8_step bs = Some k" "valid_utf8 (drop k bs)"
      using "1.prems"(1) by (auto simp: valid_utf8.simps [of bs] split: option.splits)
    have k4: "0 < k" "k \<le> 4" "k \<le> length bs" using utf8_step_bounds [OF k(1)] utf8_step_le4 [OF k(1)] by auto
    have "n - k \<le> length (drop k bs)" using "1.prems"(2) by simp
    from "1.IH" [OF k this] obtain j where j: "is_char_boundary (drop k bs) j" "j \<le> n - k" "n - k < j + 4" by blast
    have "is_char_boundary bs (k + j)"
    proof (cases "j = 0")
      case True
      then show ?thesis using boundary_after_step [OF k] by simp
    next
      case False
      then show ?thesis using j(1) k4 by (auto simp: is_char_boundary_def)
    qed
    then show ?thesis using j k4 False by (intro exI [of _ "k + j"]) auto
  qed
qed

text \<open>
  C19: a preview is a prefix of the body, well-formed UTF-8 and at most 320 bytes; a short body is its own
  preview, and a long one loses at most the three bytes of a character cut at the limit.
\<close>

theorem preview_is_bounded_prefix:
  assumes "valid_utf8 body"
  shows "\<exists>n. preview_from_body body = take n body \<and> valid_utf8 (preview_from_body body) \<and>
     length (preview_from_body body) \<le> 320 \<and>
     (if length body \<le> 320 then preview_from_body body = body
      else 317 \<le> length (preview_from_body body))"
proof (cases "length body \<le> 320")
  case True
  then show ?thesis using assms
    by (intro exI [of _ "length body"]) (simp add: preview_from_body_def PREVIEW_MAX_BYTES_def)
next
  case False
  let ?n = "back_to_boundary body 320"
  have b: "?n \<le> 320" "is_char_boundary body ?n" using back_to_boundary_ok by auto
  obtain k where k: "is_char_boundary body k" "k \<le> 320" "320 < k + 4"
    using boundary_near [OF assms, of 320] False by auto
  then have "317 \<le> ?n" using back_to_boundary_max [OF k(1,2)] by simp
  then show ?thesis using False b valid_utf8_take [OF assms b(2)]
    by (intro exI [of _ ?n]) (simp add: preview_from_body_def PREVIEW_MAX_BYTES_def)
qed

theorem preview_is_bounded_prefix_witness:
  "preview_from_body (replicate 400 (CHR ''a'')) = take 320 (replicate 400 (CHR ''a'')) \<or>
   317 \<le> length (preview_from_body (replicate 400 (CHR ''a'')))"
proof -
  have "valid_utf8 (replicate 400 (CHR ''a''))"
    by (rule valid_utf8_ascii) (simp add: list_all_iff is_ascii_def)
  from preview_is_bounded_prefix [OF this] show ?thesis by auto
qed

section \<open>Assembly\<close>

text \<open>The record a fused row resolves to, and the body stored for it.\<close>

definition visible_rows :: "chunk_store \<Rightarrow> fused_row list \<Rightarrow> (fused_row \<times> chunk_record) list" where
  "visible_rows s frs = concat (map (\<lambda>fr. case get_row s (fr_row fr) of None \<Rightarrow> [] | Some rec \<Rightarrow> [(fr, rec)]) frs)"

lemma concat_map_enumerate:
  "concat (map (\<lambda>(index, x). f (g index) (h index) x) (enumerate k xs)) =
   concat (map (\<lambda>(a, b, x). f a b x) (zip (map g [k..<k + length xs]) (zip (map h [k..<k + length xs]) xs)))"
  by (induction xs arbitrary: k) (auto simp: upt_conv_Cons simp del: upt_Suc)

lemma map_nth_in_range: "map (\<lambda>i. if i < length ys then ys ! i else None) [0..<length ys] = ys"
  by (rule nth_equalityI) auto

lemma concat_visible:
  "concat (map (\<lambda>(a, b, x). case a of None \<Rightarrow> [] | Some rec \<Rightarrow> [result_of x rec b])
     (zip (map (get_row s) (map fr_row xs)) (zip (map body (map fr_row xs)) xs))) =
   map (\<lambda>(fr, rec). result_of fr rec (body (fr_row fr))) (visible_rows s xs)"
  by (induction xs) (auto simp: visible_rows_def split: option.splits)

lemma assemble_ok:
  assumes inv: "store_inv s" and b: "bodies T i (map fr_row (take top_k fused)) = Inr (map body (map fr_row (take top_k fused)))"
  shows "assemble s T i fused top_k =
     Inr (map (\<lambda>(fr, rec). result_of fr rec (body (fr_row fr))) (visible_rows s (take top_k fused)))"
proof -
  let ?sel = "take top_k fused"
  let ?recs = "map (get_row s) (map fr_row ?sel)" and ?bs = "map body (map fr_row ?sel)"
  let ?f = "\<lambda>r b fr. case r of None \<Rightarrow> [] | Some rec \<Rightarrow> [result_of fr rec b]"
  have r: "fst (get_many s (map fr_row ?sel)) = ?recs" by (rule get_many_map [OF inv])
  have "concat (map (\<lambda>(index, fr). ?f (if index < length ?recs then ?recs ! index else None)
           (if index < length ?bs then ?bs ! index else None) fr) (enumerate 0 ?sel)) =
        concat (map (\<lambda>(a, b, x). ?f a b x) (zip ?recs (zip ?bs ?sel)))"
    using map_nth_in_range [of ?recs] map_nth_in_range [of ?bs] by (subst concat_map_enumerate) simp
  also have "\<dots> = map (\<lambda>(fr, rec). result_of fr rec (body (fr_row fr))) (visible_rows s ?sel)"
    by (rule concat_visible)
  finally show ?thesis using b by (simp only: assemble_def r Let_def bind_res_simps)
qed

lemma visible_rows_get: "(fr, rec) \<in> set (visible_rows s frs) \<Longrightarrow> get_row s (fr_row fr) = Some rec \<and> fr \<in> set frs"
  by (auto simp: visible_rows_def split: option.splits)

lemma length_visible_rows: "length (visible_rows s frs) \<le> length frs"
  by (induction frs) (auto simp: visible_rows_def split: option.splits)

lemma assemble_visible:
  assumes "store_inv s" "assemble s T i fused top_k = Inr results"
  shows "\<exists>body. results = map (\<lambda>(fr, rec). result_of fr rec (body (fr_row fr))) (visible_rows s (take top_k fused))"
proof -
  obtain bs where bs: "bodies T i (map fr_row (take top_k fused)) = Inr bs"
    using assms(2) by (auto simp: assemble_def Let_def bind_res_Inr_conv)
  then obtain f where "bodies T i (map fr_row (take top_k fused)) = Inr (map f (map fr_row (take top_k fused)))"
    using map_res_projr unfolding bodies_def by metis
  from assemble_ok [OF assms(1) this] assms(2) show ?thesis by auto
qed

lemma preview_length: "length (preview_from_body body) \<le> 320"
  using back_to_boundary_ok [of body 320] by (auto simp: preview_from_body_def PREVIEW_MAX_BYTES_def)

lemma finish_search_assembles:
  "finish_search se top_k config tm lo do' le de lr dr = Inr resp \<Longrightarrow>
   \<exists>fused. assemble (se_store se) (se_engine se) (se_lexical se) fused top_k = Inr (rs_results resp)"
  by (auto simp: finish_search_def Let_def bind_res_Inr_conv split: if_splits)

lemma run_search_assembles:
  assumes "run_search se tm text top_k config rl run_lexical = Inr resp"
  shows "\<exists>fused. assemble (se_store se) (se_engine se) (se_lexical se) fused top_k = Inr (rs_results resp)"
  using assms unfolding run_search_def Let_def bind_res_Inr_conv
  by (elim exE conjE) (auto intro: finish_search_assembles split: sum.splits fault.splits)

section \<open>Properties of search\<close>

text \<open>
  C20: a search returns only what the store holds: at most \<open>top_k\<close> results, each the record of a row that
  is live in the store (rows tombstoned since the retrievers were built are dropped), with a preview
  of at most 320 bytes, for queries and for similar-code searches alike.
\<close>

theorem search_returns_live_records:
  assumes "store_inv (se_store se)" "run_search se tm text top_k config rl run_lexical = Inr resp"
  shows "length (rs_results resp) \<le> top_k \<and>
     (\<forall>r \<in> set (rs_results resp). \<exists>row rec. get_row (se_store se) row = Some rec \<and>
        res_file r = rec_file rec \<and> res_symbol r = rec_symbol rec \<and> res_signature r = rec_signature rec \<and>
        res_doc r = rec_doc_first_line rec \<and> res_lines r = (rec_line_start rec, rec_line_end rec) \<and>
        length (res_preview r) \<le> 320)"
proof -
  obtain fused body where r: "rs_results resp = map (\<lambda>(fr, rec). result_of fr rec (body (fr_row fr)))
      (visible_rows (se_store se) (take top_k fused))"
  proof -
    obtain fused where "assemble (se_store se) (se_engine se) (se_lexical se) fused top_k = Inr (rs_results resp)"
      using run_search_assembles [OF assms(2)] ..
    from assemble_visible [OF assms(1) this] show ?thesis using that by blast
  qed
  have "length (rs_results resp) \<le> top_k"
    using length_visible_rows [of "se_store se" "take top_k fused"] by (simp add: r)
  moreover have "\<exists>row rec. get_row (se_store se) row = Some rec \<and>
        res_file x = rec_file rec \<and> res_symbol x = rec_symbol rec \<and> res_signature x = rec_signature rec \<and>
        res_doc x = rec_doc_first_line rec \<and> res_lines x = (rec_line_start rec, rec_line_end rec) \<and>
        length (res_preview x) \<le> 320" if "x \<in> set (rs_results resp)" for x
  proof -
    obtain fr rec where "(fr, rec) \<in> set (visible_rows (se_store se) (take top_k fused))"
      "x = result_of fr rec (body (fr_row fr))" using \<open>x \<in> set (rs_results resp)\<close> by (auto simp: r)
    then show ?thesis using visible_rows_get preview_length
      by (intro exI [of _ "fr_row fr"] exI [of _ rec]) (auto simp: result_of_def)
  qed
  ultimately show ?thesis by blast
qed

definition wit_embedder :: embedder where
  "wit_embedder = \<lparr>eb_model_id = ''m'', eb_dims = 1, eb_embed = (\<lambda>ts r. Inr (map (\<lambda>_. \<lparr>em_vector = [0x3C00], em_truncated = False\<rparr>) ts))\<rparr>"

definition wit_timings :: stage_timings where
  "wit_timings = \<lparr>tm_embed = 0, tm_lexical = 0, tm_dense = 0, tm_fuse = 0, tm_assemble = 0, tm_total = 0\<rparr>"

definition wit_searcher :: "chunk_store \<Rightarrow> (document list \<times> document list) searcher" where
  "wit_searcher s = searcher_new list_engine ([], [])
     \<lparr>di_matrix = [], di_rows = 0, di_dims = 1, di_model_id = ''m'', di_live = [], di_uploaded_bytes = 0\<rparr> s wit_embedder"

lemma wit_search_runs: "\<exists>resp. run_search (wit_searcher s) wit_timings ''q'' 5 default_config Query False = Inr resp"
proof -
  have "fuse [] [] default_config = []" by (simp add: fuse_def add_list_def)
  then show ?thesis
    by (simp add: run_search_def wit_searcher_def searcher_new_def wit_embedder_def dispatch_sequential_def
        dense_path_def maybe_force_dense_error_def no_hooks_def dense_search_def default_config_def search_cpu_def
        chunks_exact.simps select_scores_def finish_search_def assemble_def bodies_def)
qed

theorem search_returns_live_records_witness:
  "\<exists>s resp. store_create Map.empty 1 ''m'' = Inr s \<and>
     run_search (wit_searcher s) wit_timings ''q'' 5 default_config Query False = Inr resp \<and> length (rs_results resp) \<le> 5"
proof -
  obtain s where s: "store_create Map.empty 1 ''m'' = Inr s" "store_inv s" by (rule wit_store)
  obtain resp where r: "run_search (wit_searcher s) wit_timings ''q'' 5 default_config Query False = Inr resp"
    using wit_search_runs by blast
  have "store_inv (se_store (wit_searcher s))" using s(2) by (simp add: wit_searcher_def searcher_new_def)
  from search_returns_live_records [OF this r] show ?thesis using s(1) r by blast
qed


end
