(* ===== verification/Collector.thy ===== *)
theory Collector
  imports Search
begin

text \<open>
  How a lexical search collects its rows (\<open>RowTopCollector\<close> in \<open>crates/retrieval/src/lexical.rs\<close>), and opening the index. The engine keeps an index in
  segments; the collector takes the best hits of each and merges them. The selection of the best \<open>n\<close> is the engine's, a parameter
  \<open>top_n\<close> with its documented order: descending score, and among equal scores ascending document, here the row first. C18: the ranking
  does not depend on how the documents are spread over segments.
\<close>

section \<open>The best of parts\<close>

lemma take_sort_key_set:
  fixes key :: "'a \<Rightarrow> 'k::linorder"
  assumes "distinct (map key xs)"
  shows "set (take n (sort_key key xs)) = {x \<in> set xs. card {y \<in> set xs. key y < key x} < n}"
proof -
  let ?s = "sort_key key xs"
  have d: "distinct (map key ?s)" using assms by (metis mset_eq_imp_distinct_iff mset_map mset_sort)
  have st: "sorted (map key ?s)" by simp
  have less: "key (?s ! j) < key (?s ! i) \<longleftrightarrow> j < i" if "i < length ?s" "j < length ?s" for i j
    using sorted_wrt_nth_less [OF strict_sorted_iff [THEN iffD2, OF conjI [OF st d]], of j i]
      sorted_wrt_nth_less [OF strict_sorted_iff [THEN iffD2, OF conjI [OF st d]], of i j] that
    by (cases j i rule: linorder_cases) (auto simp: not_less)
  have ds: "distinct ?s" using d by (simp add: distinct_map)
  have "card {y \<in> set xs. key y < key (?s ! i)} = i" if "i < length ?s" for i
  proof -
    have "y \<in> set xs \<and> key y < key (?s ! i) \<longleftrightarrow> (\<exists>j < i. y = ?s ! j)" for y
      using less [OF that] that by (metis in_set_conv_nth less_trans set_sort)
    then have "{y \<in> set xs. key y < key (?s ! i)} = (\<lambda>j. ?s ! j) ` {..<i}" by auto
    then show ?thesis using card_image [of "\<lambda>j. ?s ! j" "{..<i}"] ds that by (auto simp: inj_on_def nth_eq_iff_index_eq)
  qed
  note rank = this
  have "x \<in> set (take n ?s) \<longleftrightarrow> (\<exists>i. i < n \<and> i < length ?s \<and> x = ?s ! i)" for x
    by (auto simp: in_set_conv_nth)
  moreover have "x \<in> set xs \<longleftrightarrow> (\<exists>i. i < length ?s \<and> x = ?s ! i)" for x
    using in_set_conv_nth [of x ?s] by (auto simp: set_sort)
  ultimately show ?thesis using rank by (intro set_eqI) fastforce
qed

lemma take_sort_key_unique:
  fixes key :: "'a \<Rightarrow> 'k::linorder"
  assumes "distinct (map key xs)" "distinct (map key ys)" "set (take n (sort_key key xs)) = set (take n (sort_key key ys))"
  shows "take n (sort_key key xs) = take n (sort_key key ys)"
proof -
  have d: "distinct (map key (take n (sort_key key zs)))" if "distinct (map key zs)" for zs
    using that by (metis distinct_take mset_eq_imp_distinct_iff mset_map mset_sort take_map)
  have inj: "inj_on key (set (take n (sort_key key xs)))" using d [OF assms(1)] by (simp add: distinct_map)
  have "mset (take n (sort_key key xs)) = mset (take n (sort_key key ys))"
    using assms(3) d [OF assms(1)] d [OF assms(2)] by (metis distinct_map set_eq_iff_mset_eq_distinct)
  moreover have "sorted (map key (take n (sort_key key zs)))" for zs by (simp add: sorted_wrt_take flip: take_map)
  ultimately show ?thesis using inj by (intro sorted_key_unique [of _ _ key]) auto
qed

lemma distinct_parts:
  assumes "distinct (map key (concat parts))"
  shows "distinct (map key (concat (map (\<lambda>p. take n (sort_key key p)) parts)))"
proof -
  have "mset (take n (sort_key key p)) \<subseteq># mset p" for p
    by (metis append_take_drop_id mset_append mset_sort mset_subset_eq_add_left)
  then have "mset (concat (map (\<lambda>p. take n (sort_key key p)) parts)) \<subseteq># mset (concat parts)"
    by (induction parts) (auto intro: subset_mset.add_mono)
  then obtain zs where "mset (concat parts) = mset (concat (map (\<lambda>p. take n (sort_key key p)) parts) @ zs)"
    by (metis ex_mset mset_append subset_mset.le_iff_add)
  then have "distinct (map key (concat (map (\<lambda>p. take n (sort_key key p)) parts) @ zs))"
    using assms by (metis mset_eq_imp_distinct_iff mset_map)
  then show ?thesis by simp
qed

text \<open>Keeping the best \<open>n\<close> of each part first loses none of the best \<open>n\<close> of the whole.\<close>

lemma best_of_parts:
  fixes key :: "'a \<Rightarrow> 'k::linorder"
  assumes "distinct (map key (concat parts))"
  shows "take n (sort_key key (concat (map (\<lambda>p. take n (sort_key key p)) parts))) = take n (sort_key key (concat parts))"
proof (rule take_sort_key_unique [OF distinct_parts [OF assms] assms])
  let ?all = "concat parts" let ?kept = "concat (map (\<lambda>p. take n (sort_key key p)) parts)"
  let ?below = "\<lambda>x. {y \<in> set ?all. key y < key x}"
  note best = take_sort_key_set [OF assms, of n]
  have sub: "set ?kept \<subseteq> set ?all" using in_set_takeD [of _ n "sort_key key _"] by fastforce
  have keeps: "set (take n (sort_key key ?all)) \<subseteq> set ?kept"
  proof
    fix x assume "x \<in> set (take n (sort_key key ?all))"
    then have x: "x \<in> set ?all" "card (?below x) < n" using best by auto
    then obtain p where p: "p \<in> set parts" "x \<in> set p" by auto
    then have "distinct (map key p)" using assms by (metis distinct_concat_iff map_concat image_eqI list.set_map)
    moreover have "card {y \<in> set p. key y < key x} \<le> card (?below x)" using p by (intro card_mono) auto
    ultimately show "x \<in> set ?kept" using take_sort_key_set [of key p n] p x(2) by auto
  qed
  have "card (?below x) < n" if "x \<in> set ?kept" "card {y \<in> set ?kept. key y < key x} < n" for x
  proof (rule ccontr)
    assume "\<not> ?thesis"
    then have ge: "n \<le> card (?below x)" by simp
    also have "\<dots> \<le> length ?all" by (metis (no_types, lifting) card_length card_mono finite_set le_trans mem_Collect_eq subsetI)
    finally have "length (take n (sort_key key ?all)) = n" by simp
    moreover have "distinct (take n (sort_key key ?all))" using assms by (simp add: distinct_map)
    ultimately have "card (set (take n (sort_key key ?all))) = n" by (simp add: distinct_card)
    moreover have "key y < key x" if "y \<in> set (take n (sort_key key ?all))" for y
    proof (rule ccontr)
      assume "\<not> key y < key x"
      then have "card (?below x) \<le> card (?below y)" by (intro card_mono) auto
      then show False using that best ge by auto
    qed
    then have "set (take n (sort_key key ?all)) \<subseteq> {y \<in> set ?kept. key y < key x}" using keeps by auto
    ultimately show False using card_mono [of "{y \<in> set ?kept. key y < key x}" "set (take n (sort_key key ?all))"] that(2) by simp
  qed
  moreover have "card {y \<in> set ?kept. key y < key x} \<le> card (?below x)" for x using sub by (intro card_mono) auto
  ultimately show "set (take n (sort_key key ?kept)) = set (take n (sort_key key ?all))"
    using take_sort_key_set [OF distinct_parts [OF assms, of n], of n] best keeps sub by (auto intro: le_less_trans)
qed

section \<open>Collecting rows\<close>

text \<open>
  A segment as a query sees it: the column of row numbers and the matching documents with their scores. A hit is a score with the row
  and the address (segment and document) it was found at.
\<close>

record segment =
  sg_rows :: "nat \<Rightarrow> nat"
  sg_hits :: "(nat \<times> f32) list"

type_synonym hit = "f32 \<times> nat \<times> nat \<times> nat"

definition hit_key :: "hit \<Rightarrow> int \<times> nat \<times> nat \<times> nat" where
  "hit_key = (\<lambda>(score, r, ord, doc). (- total_key score, r, ord, doc))"

definition collect_segment :: "(nat \<Rightarrow> hit list \<Rightarrow> hit list) \<Rightarrow> nat \<Rightarrow> nat \<Rightarrow> segment \<Rightarrow> hit list" where
  "collect_segment top_n limit ord seg = top_n limit (map (\<lambda>(doc, score). (score, sg_rows seg doc, ord, doc)) (sg_hits seg))"

text \<open>Opening the column of a segment may fail, which fails the search.\<close>

fun segment_fruits :: "(nat \<Rightarrow> hit list \<Rightarrow> hit list) \<Rightarrow> nat \<Rightarrow> nat \<Rightarrow> (string + segment) list \<Rightarrow> string + hit list list" where
  "segment_fruits top_n limit ord [] = Inr []"
| "segment_fruits top_n limit ord (Inl e # segs) = Inl e"
| "segment_fruits top_n limit ord (Inr seg # segs) = (case segment_fruits top_n limit (ord + 1) segs of
     Inl e \<Rightarrow> Inl e | Inr fruits \<Rightarrow> Inr (collect_segment top_n limit ord seg # fruits))"

definition merge_fruits :: "(nat \<Rightarrow> hit list \<Rightarrow> hit list) \<Rightarrow> nat \<Rightarrow> hit list list \<Rightarrow> hit list" where
  "merge_fruits top_n limit fruits = top_n limit (concat fruits)"

definition row_top_search :: "(nat \<Rightarrow> hit list \<Rightarrow> hit list) \<Rightarrow> nat \<Rightarrow> (string + segment) list \<Rightarrow> string + (f32 \<times> nat) list" where
  "row_top_search top_n limit segs = (case segment_fruits top_n limit 0 segs of
     Inl e \<Rightarrow> Inl e | Inr fruits \<Rightarrow> Inr (map (\<lambda>(score, r, address). (score, r)) (merge_fruits top_n limit fruits)))"

section \<open>Opening the index\<close>

datatype schema_entry = U64Entry bool bool bool | TextEntry string bool

definition build_schema :: "(string \<times> schema_entry) list" where
  "build_schema = (''row'', U64Entry True True True) #
     map (\<lambda>name. (name, TextEntry ''code'' True)) [''symbol'', ''signature'', ''doc'', ''file'', ''body'']"

text \<open>The engine's part of opening a directory: creating it, whether it has a \<open>meta.json\<close>, the index opened or created with its schema.\<close>

record 'i index_dir =
  id_create_dirs :: "string option"
  id_has_meta :: bool
  id_open :: "string + 'i \<times> (string \<times> schema_entry) list"
  id_create :: "(string \<times> schema_entry) list \<Rightarrow> string + 'i"
  id_missing_field :: "string \<Rightarrow> string"
  id_writer :: "'i \<Rightarrow> string + unit"
  id_reader :: "'i \<Rightarrow> string + unit"

definition schema_fields :: "(string \<Rightarrow> string) \<Rightarrow> (string \<times> schema_entry) list \<Rightarrow> (retrieval_error, schema_entry list) res" where
  "schema_fields missing schema = map_res (\<lambda>name. case map_of schema name of
       None \<Rightarrow> Inl (Raise (RTantivy (missing name))) | Some e \<Rightarrow> Inr e) [''row'', ''symbol'', ''signature'', ''doc'', ''file'', ''body'']"

definition lexical_open :: "'i index_dir \<Rightarrow> (retrieval_error, 'i) res" where
  "lexical_open D = (case id_create_dirs D of
     Some e \<Rightarrow> Inl (Raise (RIo e))
   | None \<Rightarrow>
       bind_res (tantivy_error (if id_has_meta D then id_open D
         else case id_create D build_schema of Inl e \<Rightarrow> Inl e | Inr i \<Rightarrow> Inr (i, build_schema))) (\<lambda>(i, schema).
       bind_res (schema_fields (id_missing_field D) schema) (\<lambda>fields.
       bind_res (tantivy_error (id_writer D i)) (\<lambda>w.
       bind_res (tantivy_error (id_reader D i)) (\<lambda>r. Inr i)))))"

text \<open>A new index has every field the code asks for.\<close>

lemma new_index_opens:
  assumes "id_create_dirs D = None" "\<not> id_has_meta D" "id_create D build_schema = Inr i" "id_writer D i = Inr ()" "id_reader D i = Inr ()"
  shows "lexical_open D = Inr i"
  using assms by (simp add: lexical_open_def tantivy_error_def schema_fields_def build_schema_def)

section \<open>The ranking of a search\<close>

definition bm25_score :: "f32 \<Rightarrow> bool" where
  "bm25_score score \<longleftrightarrow> \<not> fp_neg F32 (uint score) \<and> \<not> fp_is_nan F32 (uint score)"

text \<open>The engine's selection, on scores that are not negative and not NaN, of distinct documents.\<close>

definition top_n_ok :: "(nat \<Rightarrow> hit list \<Rightarrow> hit list) \<Rightarrow> bool" where
  "top_n_ok top_n \<longleftrightarrow> (\<forall>n xs. 0 < n \<longrightarrow> distinct (map snd xs) \<longrightarrow> (\<forall>h \<in> set xs. bm25_score (fst h)) \<longrightarrow>
     top_n n xs = take n (sort_key hit_key xs))"

definition segment_hits :: "nat \<Rightarrow> segment \<Rightarrow> hit list" where
  "segment_hits ord seg = map (\<lambda>(doc, score). (score, sg_rows seg doc, ord, doc)) (sg_hits seg)"

definition scored_hits :: "segment list \<Rightarrow> scored_row list" where
  "scored_hits segs = concat (map (\<lambda>seg. map (\<lambda>(doc, score). \<lparr>sr_row = sg_rows seg doc, sr_score = score\<rparr>) (sg_hits seg)) segs)"

definition row_of_hit :: "hit \<Rightarrow> scored_row" where
  "row_of_hit = (\<lambda>(score, r, address). \<lparr>sr_row = r, sr_score = score\<rparr>)"

definition all_hits :: "nat \<Rightarrow> segment list \<Rightarrow> hit list list" where
  "all_hits ord segs = map (\<lambda>(i, seg). segment_hits i seg) (enumerate ord segs)"

lemma all_hits_simps [simp]: "all_hits ord [] = []" "all_hits ord (seg # segs) = segment_hits ord seg # all_hits (Suc ord) segs"
  by (simp_all add: all_hits_def)

lemma rows_of_all_hits: "map row_of_hit (concat (all_hits ord segs)) = scored_hits segs"
  by (induction segs arbitrary: ord) (auto simp: scored_hits_def segment_hits_def row_of_hit_def)

lemma segment_fruits_eq: "segment_fruits top_n limit ord (map Inr segs) = Inr (map (top_n limit) (all_hits ord segs))"
  by (induction segs arbitrary: ord) (simp_all add: collect_segment_def segment_hits_def)

text \<open>With distinct rows a hit is ranked by its score and row alone.\<close>

lemma distinct_hits:
  assumes "distinct (map sr_row (map row_of_hit hs))"
  shows "distinct (map hit_key hs)" "distinct (map snd hs)"
  using assms by (auto simp: distinct_map row_of_hit_def hit_key_def inj_on_def split: prod.splits) (metis prod.inject scored_row.select_convs(1))+

lemma sort_hits:
  assumes "distinct (map sr_row (map row_of_hit hs))"
  shows "map row_of_hit (sort_key hit_key hs) = sort_key scored_key (map row_of_hit hs)"
proof (rule sorted_key_unique [of _ _ scored_key])
  show "inj_on scored_key (set (map row_of_hit (sort_key hit_key hs)))" by (auto intro: inj_onI simp: scored_key_inj)
  have "scored_key (row_of_hit a) \<le> scored_key (row_of_hit b)" if "hit_key a \<le> hit_key b" for a b
    using that by (auto simp: hit_key_def row_of_hit_def scored_key_def rank_key_def less_eq_prod_def split: prod.splits)
  note mono = this
  have "sorted_wrt (\<lambda>a b. hit_key a \<le> hit_key b) (sort_key hit_key hs)" using sorted_sort_key [of hit_key hs] by (simp only: sorted_map)
  then have "sorted_wrt (\<lambda>a b. scored_key (row_of_hit a) \<le> scored_key (row_of_hit b)) (sort_key hit_key hs)"
    by (rule sorted_wrt_mono_rel [rotated]) (rule mono)
  then show "sorted (map scored_key (map row_of_hit (sort_key hit_key hs)))" by (simp only: sorted_map map_map comp_def)
qed (simp_all)

lemma collector_best:
  assumes "top_n_ok top_n" "0 < limit" "distinct (map sr_row (scored_hits segs))" "\<forall>s \<in> set (scored_hits segs). bm25_score (sr_score s)"
  shows "row_top_search top_n limit (map Inr segs) =
     Inr (map (\<lambda>s. (sr_score s, sr_row s)) (take limit (sort_key scored_key (scored_hits segs))))"
proof -
  let ?parts = "all_hits 0 segs" let ?all = "concat ?parts"
  have d: "distinct (map sr_row (map row_of_hit ?all))" using assms(3) by (simp only: rows_of_all_hits)
  note dist = distinct_hits [OF d]
  have ok: "bm25_score (fst h)" if "h \<in> set ?all" for h
  proof -
    have "row_of_hit h \<in> set (scored_hits segs)" unfolding rows_of_all_hits [of 0, symmetric] using that by simp
    then show ?thesis using assms(4) by (fastforce simp: row_of_hit_def split: prod.splits)
  qed
  have part: "top_n limit p = take limit (sort_key hit_key p)" if "p \<in> set ?parts" for p
  proof -
    have "distinct (map snd p)" using dist(2) that by (metis distinct_concat_iff image_eqI list.set_map map_concat)
    then show ?thesis using assms(1,2) ok that unfolding top_n_ok_def by (metis UN_I set_concat)
  qed
  let ?kept = "concat (map (\<lambda>p. take limit (sort_key hit_key p)) ?parts)"
  have kept: "map (top_n limit) ?parts = map (\<lambda>p. take limit (sort_key hit_key p)) ?parts" using part by simp
  have sub: "set ?kept \<subseteq> set ?all" using in_set_takeD [of _ limit "sort_key hit_key _"] by fastforce
  have "distinct ?kept" using distinct_parts [OF dist(1), of limit] by (simp add: distinct_map)
  moreover have "inj_on snd (set ?all)" using dist(2) by (simp add: distinct_map)
  ultimately have "distinct (map snd ?kept)" using sub by (auto simp: distinct_map intro: inj_on_subset)
  moreover have "\<forall>h \<in> set ?kept. bm25_score (fst h)" using ok sub by blast
  ultimately have "merge_fruits top_n limit (map (top_n limit) ?parts) = take limit (sort_key hit_key ?kept)"
    using assms(1,2) unfolding merge_fruits_def kept top_n_ok_def by blast
  also have "\<dots> = take limit (sort_key hit_key ?all)" using best_of_parts [OF dist(1)] .
  finally have "map row_of_hit (merge_fruits top_n limit (map (top_n limit) ?parts)) = take limit (sort_key scored_key (scored_hits segs))"
    using sort_hits [OF d] by (simp add: take_map rows_of_all_hits flip: take_map)
  moreover have "(\<lambda>(score, r, address). (score, r)) = (\<lambda>s. (sr_score s, sr_row s)) \<circ> row_of_hit" by (auto simp: row_of_hit_def)
  ultimately show ?thesis by (simp add: row_top_search_def segment_fruits_eq flip: map_map)
qed

text \<open>
  C18: the ranking of a lexical search does not depend on the segments of the index. Over an engine that selects as documented, a
  search whose matching documents have distinct rows returns the best rows of all segments together, by descending score
  and ascending row, however the documents are spread over segments and whatever their order there.
\<close>

theorem lexical_search_ignores_segments:
  assumes "top_n_ok top_n" "\<And>q n i. tv_search_rows T q n i = row_top_search top_n n (map Inr (segments q i))"
    "build_query query = Some parsed" "distinct (map sr_row (scored_hits (segments parsed i)))"
    "\<forall>s \<in> set (scored_hits (segments parsed i)). bm25_score (sr_score s)" "mset hits = mset (scored_hits (segments parsed i))"
  shows "lexical_search T i query limit = Inr (take limit (sort_key scored_key hits))"
proof -
  have "sort_key scored_key hits = sort_key scored_key (scored_hits (segments parsed i))"
    by (rule sorted_key_unique [of _ _ scored_key]) (use assms(6) in \<open>auto intro: inj_onI simp: scored_key_inj\<close>)
  moreover have "map (\<lambda>s. \<lparr>sr_row = sr_row s, sr_score = sr_score s\<rparr>) xs = xs" for xs :: "scored_row list" by (induction xs) auto
  ultimately show ?thesis using collector_best [OF assms(1) _ assms(4,5), of limit] assms(2,3)
    by (auto simp: lexical_search_def tantivy_error_def comp_def case_prod_beta)
qed

text \<open>Two segments with a tie: row 2 of the second comes before row 7 of the first.\<close>

definition wit_segments :: "segment list" where
  "wit_segments = [\<lparr>sg_rows = (\<lambda>doc. 7 + doc), sg_hits = [(0, 0x3F800000), (1, 0x40000000)]\<rparr>, \<lparr>sg_rows = (\<lambda>doc. 2), sg_hits = [(0, 0x3F800000)]\<rparr>]"

definition sorting_top_n :: "nat \<Rightarrow> hit list \<Rightarrow> hit list" where
  "sorting_top_n n xs = take n (sort_key hit_key xs)"

definition segmented_engine :: "(document list \<times> document list) tantivy" where
  "segmented_engine = list_engine\<lparr>tv_search_rows := (\<lambda>q n i. row_top_search sorting_top_n n (map Inr wit_segments))\<rparr>"

theorem lexical_search_ignores_segments_witness:
  "lexical_search segmented_engine ([], []) ''q'' 2 = Inr [\<lparr>sr_row = 8, sr_score = 0x40000000\<rparr>, \<lparr>sr_row = 2, sr_score = 0x3F800000\<rparr>]"
proof -
  let ?hits = "[\<lparr>sr_row = 2, sr_score = 0x3F800000\<rparr>, \<lparr>sr_row = 7, sr_score = 0x3F800000\<rparr>, \<lparr>sr_row = 8, sr_score = 0x40000000\<rparr>]"
  have "build_query ''q'' \<noteq> None" by code_simp
  then obtain parsed where q: "build_query ''q'' = Some parsed" by blast
  have h: "scored_hits wit_segments = [\<lparr>sr_row = 7, sr_score = 0x3F800000\<rparr>, \<lparr>sr_row = 8, sr_score = 0x40000000\<rparr>, \<lparr>sr_row = 2, sr_score = 0x3F800000\<rparr>]"
    by (simp add: scored_hits_def wit_segments_def)
  have b: "bm25_score 0x3F800000" "bm25_score 0x40000000" by code_simp+
  have k: "total_key 0x3F800000 < total_key 0x40000000" by code_simp
  have "lexical_search segmented_engine ([], []) ''q'' 2 = Inr (take 2 (sort_key scored_key ?hits))"
    by (rule lexical_search_ignores_segments [of sorting_top_n _ "\<lambda>_ _. wit_segments", OF _ _ q])
      (simp_all add: top_n_ok_def sorting_top_n_def [abs_def] segmented_engine_def h b)
  also have "take 2 (sort_key scored_key ?hits) = [\<lparr>sr_row = 8, sr_score = 0x40000000\<rparr>, \<lparr>sr_row = 2, sr_score = 0x3F800000\<rparr>]"
    using k by (simp add: scored_key_def rank_key_def less_eq_prod_def)
  finally show ?thesis .
qed

end
