(* ===== verification/Search_Degraded.thy ===== *)
theory Search_Degraded
  imports Search Fusion_Order
begin

text \<open>
  Search when a retriever fails (\<open>crates/retrieval/src/search.rs\<close>): the composition of dispatch, fusion and
  assembly, with the default configuration.
\<close>

lemma visible_rows_map:
  "map (\<lambda>(fr, rec). (fr_row fr, rec)) (visible_rows s frs) =
   concat (map (\<lambda>r. case get_row s r of None \<Rightarrow> [] | Some rec \<Rightarrow> [(r, rec)]) (map fr_row frs))"
  by (induction frs) (auto simp: visible_rows_def split: option.splits)

text \<open>What a caller sees of a result list: which records, in which order.\<close>

definition shown :: "search_result list \<Rightarrow> (string \<times> string \<times> (nat \<times> nat)) list" where
  "shown rs = map (\<lambda>r. (res_file r, res_symbol r, res_lines r)) rs"

definition shown_rows :: "chunk_store \<Rightarrow> nat list \<Rightarrow> (string \<times> string \<times> (nat \<times> nat)) list" where
  "shown_rows s rows = concat (map (\<lambda>r. case get_row s r of None \<Rightarrow> []
     | Some rec \<Rightarrow> [(rec_file rec, rec_symbol rec, (rec_line_start rec, rec_line_end rec))]) rows)"

lemma shown_visible:
  "shown (map (\<lambda>(fr, rec). result_of fr rec (body (fr_row fr))) (visible_rows s frs)) = shown_rows s (map fr_row frs)"
  by (induction frs) (auto simp: shown_def shown_rows_def visible_rows_def result_of_def split: option.splits)

lemma finish_shown:
  assumes "store_inv (se_store se)" "lo \<or> do'"
    "\<And>rows. bodies (se_engine se) (se_lexical se) rows = Inr (map body rows)"
  shows "\<exists>resp. finish_search se top_k config tm lo do' le de lr dr = Inr resp \<and>
     shown (rs_results resp) = shown_rows (se_store se) (take top_k (map fr_row (fuse lr dr config))) \<and>
     rs_diagnostics resp = \<lparr>dg_lexical_ok = lo, dg_dense_ok = do', dg_lexical_error = le, dg_dense_error = de, dg_stage_millis = tm\<rparr>"
  using assms(2) assemble_ok [OF assms(1) assms(3), where top_k = top_k and fused = "fuse lr dr config"]
  by (auto simp: finish_search_def Let_def shown_visible take_map)

text \<open>Without injected failures a query's outcome is that of the two retrievers, in either dispatch mode.\<close>

lemma search_outcomes:
  assumes "se_hooks se = no_hooks" "eb_embed (se_embedder se) [text] Query = Inr (e # es)"
  shows "search se tm text top_k config =
     (case lexical_search (se_engine se) (se_lexical se) text (lexical_depth config) of
        Inl (Panic w) \<Rightarrow> Inl (Panic w)
      | Inl (Raise le) \<Rightarrow> (case dense_search (se_dense se) (em_vector e) (eb_model_id (se_embedder se)) (dense_depth config) of
            Inl (Panic w) \<Rightarrow> Inl (Panic w)
          | Inl (Raise de) \<Rightarrow> finish_search se top_k config tm False False
              (Some (retrieval_to_string le)) (Some (retrieval_to_string de)) [] []
          | Inr dr \<Rightarrow> finish_search se top_k config tm False True (Some (retrieval_to_string le)) None [] dr)
      | Inr lr \<Rightarrow> (case dense_search (se_dense se) (em_vector e) (eb_model_id (se_embedder se)) (dense_depth config) of
            Inl (Panic w) \<Rightarrow> Inl (Panic w)
          | Inl (Raise de) \<Rightarrow> finish_search se top_k config tm True False None (Some (retrieval_to_string de)) lr []
          | Inr dr \<Rightarrow> finish_search se top_k config tm True True None None lr dr))"
  using assms
  by (simp add: search_def run_search_def Let_def map_err_def dispatch_concurrent_def dispatch_sequential_def
      lexical_path_def dense_path_def maybe_force_lexical_error_def maybe_force_dense_error_def no_hooks_def
      cong: sum.case_cong fault.case_cong)

text \<open>
  C22: degraded search keeps the surviving ranking. When the dense retriever fails and the lexical one
  answers, the search succeeds, reports exactly the dense failure with its message, and shows the live
  rows among the first \<open>top_k\<close> lexical rows in lexical order.
\<close>

theorem search_survives_dense_failure:
  assumes "store_inv (se_store se)" "se_hooks se = no_hooks"
    "eb_embed (se_embedder se) [text] Query = Inr (e # es)"
    "lexical_search (se_engine se) (se_lexical se) text 50 = Inr rows"
    "distinct (map sr_row rows)" "length rows \<le> 50"
    "dense_search (se_dense se) (em_vector e) (eb_model_id (se_embedder se)) 50 = Inl (Raise de)"
    "\<And>rs. bodies (se_engine se) (se_lexical se) rs = Inr (map body rs)"
  shows "\<exists>resp. search se tm text top_k default_config = Inr resp \<and>
     shown (rs_results resp) = shown_rows (se_store se) (take top_k (map sr_row rows)) \<and>
     dg_lexical_ok (rs_diagnostics resp) \<and> dg_lexical_error (rs_diagnostics resp) = None \<and>
     \<not> dg_dense_ok (rs_diagnostics resp) \<and> dg_dense_error (rs_diagnostics resp) = Some (retrieval_to_string de)"
proof -
  have dep: "lexical_depth default_config = 50" "dense_depth default_config = 50" by (simp_all add: default_config_def)
  have "search se tm text top_k default_config =
      finish_search se top_k default_config tm True False None (Some (retrieval_to_string de)) rows []"
    using assms(4,7) by (simp add: search_outcomes [OF assms(2,3)] dep)
  moreover have "map fr_row (fuse rows [] default_config) = map sr_row rows"
    using fuse_single_order [OF assms(5)] assms(6) by simp
  ultimately show ?thesis
    using finish_shown [OF assms(1) _ assms(8), of True False top_k default_config tm None "Some (retrieval_to_string de)" rows "[]"]
    by auto
qed

definition failing_searcher :: "chunk_store \<Rightarrow> (document list \<times> document list) searcher" where
  "failing_searcher s = searcher_new list_engine ([], [])
     \<lparr>di_matrix = [], di_rows = 0, di_dims = 7, di_model_id = ''m'', di_live = [], di_uploaded_bytes = 0\<rparr> s wit_embedder"

theorem search_survives_dense_failure_witness:
  "\<exists>s resp. store_create Map.empty 1 ''m'' = Inr s \<and>
     search (failing_searcher s) wit_timings ''q'' 5 default_config = Inr resp \<and>
     dg_dense_error (rs_diagnostics resp) = Some ''embedding dimension mismatch: expected 7, got 1''"
proof -
  obtain s where s: "store_create Map.empty 1 ''m'' = Inr s" "store_inv s" by (rule wit_store)
  let ?se = "failing_searcher s"
  note d = failing_searcher_def searcher_new_def wit_embedder_def
  have "lexical_search list_engine ([], []) ''q'' 50 = Inr []"
    by (cases "build_query ''q''") (simp_all add: lexical_search_def list_engine_def tantivy_error_def)
  moreover have "bodies list_engine ([], []) rs = Inr (map (\<lambda>_. None) rs)" for rs
    unfolding bodies_def by (rule map_res_Inr) (simp add: load_document_def list_engine_def tantivy_error_def)
  moreover have "dense_search (se_dense ?se) [0x3C00] ''m'' 50 = Inl (Raise (RDimensionMismatch 7 1))"
    by (simp add: dense_search_def d)
  moreover have "retrieval_to_string (RDimensionMismatch 7 1) = ''embedding dimension mismatch: expected 7, got 1''"
    by code_simp
  ultimately show ?thesis
    using search_survives_dense_failure [of ?se "''q''" "\<lparr>em_vector = [0x3C00], em_truncated = False\<rparr>" "[]" "[]" "RDimensionMismatch 7 1" "\<lambda>_. None" wit_timings 5] s
    by (auto simp: d)
qed

text \<open>
  C23: when both retrievers fail, the search fails, with both messages; it never answers with an empty
  result list in their place.
\<close>

theorem search_fails_when_both_fail:
  assumes "se_hooks se = no_hooks" "eb_embed (se_embedder se) [text] Query = Inr (e # es)"
    "lexical_search (se_engine se) (se_lexical se) text (lexical_depth config) = Inl (Raise e1)"
    "dense_search (se_dense se) (em_vector e) (eb_model_id (se_embedder se)) (dense_depth config) = Inl (Raise e2)"
  shows "search se tm text top_k config =
     Inl (Raise (BothRetrieversFailed (retrieval_to_string e1) (retrieval_to_string e2)))"
  using assms(3,4) by (simp add: search_outcomes [OF assms(1,2)] finish_search_def)

theorem search_fails_when_both_fail_witness:
  "\<forall>s. search ((failing_searcher s)\<lparr>se_engine := list_engine\<lparr>tv_search_rows := (\<lambda>_ _ _. Inl ''down'')\<rparr>\<rparr>)
     wit_timings ''q'' 5 default_config =
   Inl (Raise (BothRetrieversFailed ''tantivy error: down'' ''embedding dimension mismatch: expected 7, got 1''))"
proof
  fix s
  let ?se = "(failing_searcher s)\<lparr>se_engine := list_engine\<lparr>tv_search_rows := (\<lambda>_ _ _. Inl ''down'')\<rparr>\<rparr>"
  note d = failing_searcher_def searcher_new_def wit_embedder_def
  have "build_query ''q'' \<noteq> None" by code_simp
  then have l: "lexical_search (se_engine ?se) (se_lexical ?se) ''q'' (lexical_depth default_config) = Inl (Raise (RTantivy ''down''))"
    by (auto simp: lexical_search_def default_config_def tantivy_error_def)
  have e: "dense_search (se_dense ?se) (em_vector \<lparr>em_vector = [0x3C00], em_truncated = False\<rparr>) (eb_model_id (se_embedder ?se)) (dense_depth default_config) =
      Inl (Raise (RDimensionMismatch 7 1))"
    by (simp add: dense_search_def d)
  have "retrieval_to_string (RDimensionMismatch 7 1) = ''embedding dimension mismatch: expected 7, got 1''"
    by code_simp
  then show "search ?se wit_timings ''q'' 5 default_config =
     Inl (Raise (BothRetrieversFailed ''tantivy error: down'' ''embedding dimension mismatch: expected 7, got 1''))"
    using search_fails_when_both_fail [OF _ _ l e, of "[]" wit_timings 5] by (simp add: d)
qed

end
