(* ===== verification/Content_Hash.thy ===== *)
theory Content_Hash
  imports Utf8_Text Store
begin

text \<open>
  Languages (\<open>crates/indexing/src/language.rs\<close>) and content hashes (\<open>hash.rs\<close>). The hash function blake3 is
  a parameter: a function from the bytes fed to the hasher to the 32 bytes of the digest. Bodies are
  normalized on the list of their characters, each the list of its UTF-8 bytes.
\<close>

section \<open>Languages\<close>

datatype language = Rust | Python | TypeScript | JavaScript | Go | C | Cpp

text \<open>\<open>Path::file_name\<close> and \<open>Path::extension\<close>.\<close>

definition file_name :: "string \<Rightarrow> string option" where
  "file_name p = (case rev (path_components p) of Normal n # _ \<Rightarrow> Some n | _ \<Rightarrow> None)"

definition extension :: "string \<Rightarrow> string option" where
  "extension p = (case file_name p of None \<Rightarrow> None | Some n \<Rightarrow>
     (case rev (split_on (CHR ''.'') n) of
        after # before # rest \<Rightarrow> if before = [] \<and> rest = [] then None else Some after
      | _ \<Rightarrow> None))"

definition language_from_path :: "string \<Rightarrow> language option" where
  "language_from_path p = (case extension p of None \<Rightarrow> None | Some ext \<Rightarrow>
     if ext = ''rs'' then Some Rust
     else if ext = ''py'' then Some Python
     else if ext \<in> {''ts'', ''tsx''} then Some TypeScript
     else if ext \<in> {''js'', ''jsx'', ''mjs'', ''cjs''} then Some JavaScript
     else if ext = ''go'' then Some Go
     else if ext \<in> {''c'', ''h''} then Some C
     else if ext \<in> {''cc'', ''cpp'', ''cxx'', ''hpp'', ''hh'', ''hxx''} then Some Cpp
     else None)"

fun language_str :: "language \<Rightarrow> string" where
  "language_str Rust = ''rust''"
| "language_str Python = ''python''"
| "language_str TypeScript = ''typescript''"
| "language_str JavaScript = ''javascript''"
| "language_str Go = ''go''"
| "language_str C = ''c''"
| "language_str Cpp = ''cpp''"

section \<open>Normalization\<close>

definition lf :: bytes where "lf = [newline]"
definition cr :: bytes where "cr = [carriage_return]"

fun replace_crlf :: "bytes list \<Rightarrow> bytes list" where
  "replace_crlf (c # d # cs) = (if c = cr \<and> d = lf then lf # replace_crlf cs else c # replace_crlf (d # cs))"
| "replace_crlf cs = cs"

definition replace_cr :: "bytes list \<Rightarrow> bytes list" where
  "replace_cr cs = map (\<lambda>c. if c = cr then lf else c) cs"

definition trim_end :: "bytes list \<Rightarrow> bytes list" where
  "trim_end l = rev (dropWhile is_whitespace (rev l))"

definition strip_blank :: "bytes list list \<Rightarrow> bytes list list" where
  "strip_blank ls = dropWhile (\<lambda>l. l = []) (rev (dropWhile (\<lambda>l. l = []) (rev ls)))"

definition indent_char :: "bytes \<Rightarrow> bool" where
  "indent_char c \<longleftrightarrow> c = [CHR '' ''] \<or> c = [CHR 0x09]"

definition line_indent :: "bytes list \<Rightarrow> nat" where
  "line_indent l = length (takeWhile indent_char l)"

definition common_indent :: "bytes list list \<Rightarrow> nat" where
  "common_indent ls = (case map line_indent (filter (\<lambda>l. l \<noteq> []) ls) of [] \<Rightarrow> 0 | n # ns \<Rightarrow> fold min ns n)"

fun join_lines :: "bytes list list \<Rightarrow> bytes list" where
  "join_lines [] = []"
| "join_lines [l] = l"
| "join_lines (l # m # ls) = l @ lf # join_lines (m # ls)"

definition normalize_lines :: "bytes list list \<Rightarrow> bytes list list" where
  "normalize_lines ls =
     (let ls = strip_blank (map trim_end ls);
          indent = common_indent ls
      in if 0 < indent then map (\<lambda>l. if l = [] then l else drop indent l) ls else ls)"

definition normalize_chars :: "bytes list \<Rightarrow> bytes list" where
  "normalize_chars cs =
     join_lines (normalize_lines (split_chars (\<lambda>c. c = lf) (replace_cr (replace_crlf cs))))"

definition normalize_body :: "string \<Rightarrow> string" where
  "normalize_body body = concat (normalize_chars (chars body))"

section \<open>Hashes\<close>

definition HASH_SCHEME_VERSION :: nat where "HASH_SCHEME_VERSION = 1"

definition hash_input :: "language \<Rightarrow> string \<Rightarrow> string \<Rightarrow> bytes" where
  "hash_input language symbol body =
     le_bytes 4 HASH_SCHEME_VERSION @ [CHR 0xFF] @ language_str language @ [CHR 0xFF] @ symbol @
     [CHR 0xFF] @ normalize_body body"

definition content_hash_of :: "(bytes \<Rightarrow> bytes) \<Rightarrow> language \<Rightarrow> string \<Rightarrow> string \<Rightarrow> content_hash" where
  "content_hash_of blake3 language symbol body = blake3 (hash_input language symbol body)"

section \<open>Characters\<close>

definition is_char :: "bytes \<Rightarrow> bool" where
  "is_char c \<longleftrightarrow> utf8_step c = Some (length c)"

lemma utf8_step_append: "utf8_step bs = Some k \<Longrightarrow> utf8_step (bs @ r) = Some k"
proof -
  assume k: "utf8_step bs = Some k"
  then have "utf8_step (take (length bs) (bs @ r)) = Some k" by simp
  have b: "k \<le> length bs" using utf8_step_bounds [OF k] by simp
  obtain c cs where bs: "bs = c # cs" using k by (cases bs) (auto simp: utf8_step_def)
  show ?thesis using k unfolding bs utf8_step_def by (auto split: list.splits if_splits)
qed

lemma chars_concat: "list_all is_char cs \<Longrightarrow> chars (concat cs) = cs"
proof (induction cs)
  case (Cons c cs)
  then have "utf8_step (c @ concat cs) = Some (length c)" by (simp add: is_char_def utf8_step_append)
  then show ?case using Cons by (simp add: chars.simps [of "c @ concat cs"])
qed simp

lemma is_char_lf [simp]: "is_char lf"
  by (simp add: is_char_def lf_def utf8_step_def newline_def byte_in_def)

lemma chars_is_char: "list_all is_char (chars bs)"
proof (induction bs rule: chars.induct)
  case (1 bs)
  show ?case
  proof (cases "utf8_step bs")
    case None
    then show ?thesis by (simp add: chars.simps [of bs])
  next
    case (Some k)
    have "is_char (take k bs)"
      using utf8_step_take [OF Some order_refl] utf8_step_bounds [OF Some] by (simp add: is_char_def min_def)
    then show ?thesis using 1 [OF Some] Some by (simp add: chars.simps [of bs])
  qed
qed

section \<open>Normal form\<close>

text \<open>A line without trailing whitespace; lines in normal form: outer lines not blank, no common indent.\<close>

definition trimmed :: "bytes list \<Rightarrow> bool" where
  "trimmed l \<longleftrightarrow> (l = [] \<or> \<not> is_whitespace (last l))"

lemma trimmed_trim_end [simp]: "trimmed (trim_end l)"
proof (cases "dropWhile is_whitespace (rev l)")
  case (Cons a as)
  then have "\<not> is_whitespace a" using hd_dropWhile [of is_whitespace "rev l"] by simp
  then show ?thesis by (simp add: trimmed_def trim_end_def Cons)
qed (simp add: trimmed_def trim_end_def)

lemma trim_end_trimmed: "trimmed l \<Longrightarrow> trim_end l = l"
  by (cases l rule: rev_cases) (auto simp: trimmed_def trim_end_def)

lemma set_trim_end: "set (trim_end l) \<subseteq> set l"
  using set_dropWhileD [of _ is_whitespace "rev l"] by (auto simp: trim_end_def)

lemma indent_char_whitespace: "indent_char c \<Longrightarrow> is_whitespace c"
  by (auto simp: indent_char_def is_whitespace_def)

lemma line_indent_less: "trimmed l \<Longrightarrow> l \<noteq> [] \<Longrightarrow> line_indent l < length l"
proof -
  assume l: "trimmed l" "l \<noteq> []"
  then have "\<not> indent_char (last l)" using indent_char_whitespace by (auto simp: trimmed_def)
  then have "takeWhile indent_char l \<noteq> l" using l(2) by (metis last_in_set takeWhile_eq_all_conv)
  then show ?thesis unfolding line_indent_def using length_takeWhile_le [of indent_char l] takeWhile_eq_take [of indent_char l]
    by (metis le_neq_implies_less take_all_iff order_refl)
qed

lemma line_indent_drop: "k \<le> line_indent l \<Longrightarrow> line_indent (drop k l) = line_indent l - k"
proof (induction l arbitrary: k)
  case (Cons c l)
  then show ?case by (cases k) (auto simp: line_indent_def split: if_splits)
qed (simp add: line_indent_def)

lemma fold_min_le: "fold min ns n \<le> n \<and> (\<forall>x \<in> set ns. fold min ns n \<le> x) \<and> fold min ns n \<in> insert n (set ns)"
  for n :: nat
proof (induction ns arbitrary: n)
  case (Cons a ns)
  from Cons.IH [of "min a n"] show ?case by (auto simp: min_def split: if_splits)
qed simp

lemma common_indent_le: "l \<in> set ls \<Longrightarrow> l \<noteq> [] \<Longrightarrow> common_indent ls \<le> line_indent l"
proof -
  assume l: "l \<in> set ls" "l \<noteq> []"
  then have i: "line_indent l \<in> set (map line_indent (filter (\<lambda>l. l \<noteq> []) ls))" by auto
  then obtain n ns where n: "map line_indent (filter (\<lambda>l. l \<noteq> []) ls) = n # ns"
    by (cases "map line_indent (filter (\<lambda>l. l \<noteq> []) ls)") auto
  show ?thesis using i fold_min_le [of ns n] by (auto simp: common_indent_def n)
qed

lemma common_indent_attained:
  "(\<exists>l \<in> set ls. l \<noteq> []) \<Longrightarrow> \<exists>l \<in> set ls. l \<noteq> [] \<and> line_indent l = common_indent ls"
proof -
  assume "\<exists>l \<in> set ls. l \<noteq> []"
  then obtain n ns where n: "map line_indent (filter (\<lambda>l. l \<noteq> []) ls) = n # ns"
    by (cases "filter (\<lambda>l. l \<noteq> []) ls") (auto simp: filter_empty_conv)
  then have "common_indent ls \<in> set (map line_indent (filter (\<lambda>l. l \<noteq> []) ls))"
    using fold_min_le [of ns n] by (auto simp: common_indent_def)
  then show ?thesis by auto
qed

lemma common_indent_eqI:
  assumes "l \<in> set ls" "l \<noteq> []" "line_indent l = k" "\<And>l. l \<in> set ls \<Longrightarrow> l \<noteq> [] \<Longrightarrow> k \<le> line_indent l"
  shows "common_indent ls = k"
  using common_indent_attained [of ls] common_indent_le [OF assms(1,2)] assms by force

definition dedent :: "nat \<Rightarrow> bytes list \<Rightarrow> bytes list" where
  "dedent k l = (if l = [] then l else drop k l)"

lemma normalize_lines_dedent:
  "normalize_lines ls = map (dedent (common_indent (strip_blank (map trim_end ls)))) (strip_blank (map trim_end ls))"
  by (auto simp: normalize_lines_def dedent_def Let_def intro: map_idI [symmetric])

lemma set_strip_blank: "set (strip_blank ls) \<subseteq> set ls"
  unfolding strip_blank_def by (auto dest!: set_dropWhileD)

lemma strip_blank_ends:
  "strip_blank ls = [] \<or> hd (strip_blank ls) \<noteq> [] \<and> last (strip_blank ls) \<noteq> []"
proof -
  let ?m = "rev (dropWhile (\<lambda>l. l = []) (rev ls))"
  have h: "strip_blank ls \<noteq> [] \<Longrightarrow> hd (strip_blank ls) \<noteq> []"
    using hd_dropWhile [of "\<lambda>l. l = []" ?m] by (simp add: strip_blank_def)
  have "last (strip_blank ls) \<noteq> []" if ne: "strip_blank ls \<noteq> []"
  proof -
    have m: "?m \<noteq> []" using ne unfolding strip_blank_def by (metis dropWhile.simps(1))
    then have "hd (dropWhile (\<lambda>l. l = []) (rev ls)) \<noteq> []" using hd_dropWhile [of "\<lambda>l. l = []" "rev ls"] by simp
    then have "last ?m \<noteq> []" using m by (simp add: last_rev)
    moreover have "last (strip_blank ls) = last ?m"
      using ne by (metis strip_blank_def last_append takeWhile_dropWhile_id)
    ultimately show ?thesis by simp
  qed
  then show ?thesis using h by blast
qed

lemma strip_blank_id: "ls = [] \<or> hd ls \<noteq> [] \<and> last ls \<noteq> [] \<Longrightarrow> strip_blank ls = ls"
proof -
  assume a: "ls = [] \<or> hd ls \<noteq> [] \<and> last ls \<noteq> []"
  have id: "xs = [] \<or> hd xs \<noteq> [] \<Longrightarrow> dropWhile (\<lambda>l. l = []) xs = xs" for xs :: "bytes list list" by (cases xs) auto
  have "dropWhile (\<lambda>l. l = []) (rev ls) = rev ls" using a by (intro id) (auto simp: hd_rev)
  moreover have "dropWhile (\<lambda>l. l = []) ls = ls" using a by (intro id) auto
  ultimately show ?thesis by (simp add: strip_blank_def)
qed

definition normal_lines :: "bytes list list \<Rightarrow> bool" where
  "normal_lines ls \<longleftrightarrow> list_all trimmed ls \<and> (ls = [] \<or> hd ls \<noteq> [] \<and> last ls \<noteq> []) \<and> common_indent ls = 0"

lemma normalize_normal: "normal_lines ls \<Longrightarrow> normalize_lines ls = ls"
proof -
  assume n: "normal_lines ls"
  then have t: "map trim_end ls = ls" by (intro map_idI) (auto simp: normal_lines_def list_all_iff trim_end_trimmed)
  show ?thesis using n by (simp add: normalize_lines_def t strip_blank_id normal_lines_def)
qed

lemma dedent_trimmed:
  assumes "trimmed l" "l \<noteq> [] \<Longrightarrow> k \<le> line_indent l"
  shows "trimmed (dedent k l)" "dedent k l = [] \<longleftrightarrow> l = []"
proof -
  have "k < length l" if "l \<noteq> []" using line_indent_less [OF assms(1) that] assms(2) that by simp
  then show "trimmed (dedent k l)" "dedent k l = [] \<longleftrightarrow> l = []"
    using assms(1) by (auto simp: dedent_def trimmed_def last_drop)
qed

lemma normal_normalize: "normal_lines (normalize_lines ls)"
proof -
  let ?m = "strip_blank (map trim_end ls)"
  let ?k = "common_indent ?m"
  have t: "trimmed l" if "l \<in> set ?m" for l using that set_strip_blank [of "map trim_end ls"] by auto
  have d: "trimmed (dedent ?k l)" "dedent ?k l = [] \<longleftrightarrow> l = []" if "l \<in> set ?m" for l
    using dedent_trimmed [OF t [OF that], of ?k] common_indent_le [OF that] by auto
  have "?m = [] \<or> hd (map (dedent ?k) ?m) \<noteq> [] \<and> last (map (dedent ?k) ?m) \<noteq> []"
    using strip_blank_ends [of "map trim_end ls"] d(2) by (auto simp: hd_map last_map)
  moreover have "common_indent (map (dedent ?k) ?m) = 0"
  proof (cases "?m = []")
    case True
    then show ?thesis by (simp add: common_indent_def)
  next
    case False
    then have "\<exists>l \<in> set ?m. l \<noteq> []" using strip_blank_ends [of "map trim_end ls"] hd_in_set by blast
    from common_indent_attained [OF this] obtain l where l: "l \<in> set ?m" "l \<noteq> []" "line_indent l = ?k" by blast
    show ?thesis
      by (rule common_indent_eqI [of "dedent ?k l"])
         (use l d(2) [OF l(1)] line_indent_drop [of ?k l] in \<open>auto simp: dedent_def\<close>)
  qed
  ultimately show ?thesis unfolding normalize_lines_dedent normal_lines_def using d(1) by (auto simp: list_all_iff)
qed

section \<open>Splitting and joining\<close>

lemma split_lf_none: "lf \<notin> set cs \<Longrightarrow> split_chars (\<lambda>c. c = lf) cs = [cs]"
  by (induction cs) auto

lemma split_lf_append:
  "lf \<notin> set cs \<Longrightarrow> split_chars (\<lambda>c. c = lf) (cs @ lf # ds) = cs # split_chars (\<lambda>c. c = lf) ds"
  by (induction cs) auto

lemma split_join_lines:
  "ls \<noteq> [] \<Longrightarrow> \<forall>l \<in> set ls. lf \<notin> set l \<Longrightarrow> split_chars (\<lambda>c. c = lf) (join_lines ls) = ls"
  by (induction ls rule: join_lines.induct) (auto simp: split_lf_append split_lf_none)

lemma join_split_lines: "join_lines (split_chars (\<lambda>c. c = lf) cs) = cs"
proof (induction cs)
  case (Cons c cs)
  obtain l ls where "split_chars (\<lambda>c. c = lf) cs = l # ls"
    by (metis list.exhaust split_chars_nonempty)
  then show ?case using Cons by (cases ls) auto
qed simp

lemma set_join_lines: "set (join_lines ls) \<subseteq> insert lf (\<Union>l \<in> set ls. set l)"
  by (induction ls rule: join_lines.induct) auto

lemma replace_crlf_id: "cr \<notin> set cs \<Longrightarrow> replace_crlf cs = cs"
  by (induction cs rule: replace_crlf.induct) auto

lemma replace_cr_id: "cr \<notin> set cs \<Longrightarrow> replace_cr cs = cs"
  by (auto simp: replace_cr_def intro: map_idI)

lemma cr_lf [simp]: "cr \<noteq> lf" "lf \<noteq> cr"
  by (simp_all add: cr_def lf_def newline_def carriage_return_def)

lemma cr_replace_cr: "cr \<notin> set (replace_cr cs)"
  by (auto simp: replace_cr_def)

lemma set_replace_crlf: "set (replace_crlf cs) \<subseteq> set cs"
  by (induction cs rule: replace_crlf.induct) auto

definition source_lines :: "bytes list \<Rightarrow> bytes list list" where
  "source_lines cs = split_chars (\<lambda>c. c = lf) (replace_cr (replace_crlf cs))"

lemma source_lines_chars:
  assumes "l \<in> set (source_lines cs)" "c \<in> set l"
  shows "c \<noteq> lf" "c \<noteq> cr" "c \<in> set cs"
proof -
  have "c \<noteq> lf" and m: "c \<in> set (replace_cr (replace_crlf cs))"
    using split_chars_piece [OF assms(1) [unfolded source_lines_def] assms(2)] by auto
  moreover have "c \<noteq> cr" using m cr_replace_cr by auto
  ultimately show "c \<noteq> lf" "c \<noteq> cr" "c \<in> set cs"
    using set_replace_crlf [of cs] by (auto simp: replace_cr_def split: if_splits)
qed

lemma normalize_lines_chars:
  assumes "l \<in> set (normalize_lines ls)" "c \<in> set l"
  shows "\<exists>m \<in> set ls. c \<in> set m"
proof -
  obtain m where m: "m \<in> set (strip_blank (map trim_end ls))"
    "l = dedent (common_indent (strip_blank (map trim_end ls))) m"
    using assms(1) by (auto simp: normalize_lines_dedent)
  then have "c \<in> set m" using assms(2) by (auto simp: dedent_def dest: in_set_dropD split: if_splits)
  moreover have "m \<in> trim_end ` set ls" using m(1) set_strip_blank [of "map trim_end ls"] by auto
  ultimately show ?thesis using set_trim_end by fastforce
qed

lemma source_lines_joined:
  assumes "\<And>l c. l \<in> set ls \<Longrightarrow> c \<in> set l \<Longrightarrow> c \<noteq> lf \<and> c \<noteq> cr"
  shows "source_lines (join_lines ls) = (if ls = [] then [[]] else ls)"
proof -
  have "cr \<notin> set (join_lines ls)" using set_join_lines [of ls] assms by fastforce
  then show ?thesis using assms split_join_lines [of ls]
    by (auto simp: source_lines_def replace_crlf_id replace_cr_id)
qed

lemma normalize_chars_idem: "normalize_chars (normalize_chars cs) = normalize_chars cs"
proof -
  let ?N = "normalize_lines (source_lines cs)"
  have n: "normalize_chars cs = join_lines ?N" by (simp add: normalize_chars_def source_lines_def)
  have "source_lines (join_lines ?N) = (if ?N = [] then [[]] else ?N)"
    by (rule source_lines_joined) (use normalize_lines_chars source_lines_chars in blast)
  moreover have "normalize_lines [[]] = []"
    by (simp add: normalize_lines_def strip_blank_def trim_end_def common_indent_def)
  ultimately show ?thesis using normalize_normal [OF normal_normalize]
    by (auto simp: n normalize_chars_def source_lines_def)
qed

lemma normalize_chars_valid: "list_all is_char cs \<Longrightarrow> list_all is_char (normalize_chars cs)"
  using set_join_lines [of "normalize_lines (source_lines cs)"]
  by (auto simp: list_all_iff normalize_chars_def source_lines_def [symmetric]
      dest!: subsetD normalize_lines_chars source_lines_chars)

lemma chars_normalize_body: "chars (normalize_body body) = normalize_chars (chars body)"
  unfolding normalize_body_def by (intro chars_concat normalize_chars_valid chars_is_char)

section \<open>Layout changes\<close>

text \<open>The same text with Windows line endings, and with every line moved to the right.\<close>

definition crlf_chars :: "bytes list \<Rightarrow> bytes list" where
  "crlf_chars cs = concat (map (\<lambda>c. if c = lf then [cr, lf] else [c]) cs)"

definition shift_chars :: "bytes list \<Rightarrow> bytes list \<Rightarrow> bytes list" where
  "shift_chars w cs = join_lines (map (\<lambda>l. w @ l) (split_chars (\<lambda>c. c = lf) cs))"

lemma replace_crlf_Cons: "c \<noteq> cr \<Longrightarrow> replace_crlf (c # cs) = c # replace_crlf cs"
  by (cases cs) auto

lemma replace_crlf_crlf_chars: "cr \<notin> set cs \<Longrightarrow> replace_crlf (crlf_chars cs) = cs"
  by (induction cs) (auto simp: crlf_chars_def replace_crlf_Cons)

lemma normalize_crlf: "cr \<notin> set cs \<Longrightarrow> normalize_chars (crlf_chars cs) = normalize_chars cs"
  by (simp add: normalize_chars_def replace_crlf_crlf_chars replace_crlf_id)

definition prefix_line :: "bytes list \<Rightarrow> bytes list \<Rightarrow> bytes list" where
  "prefix_line w l = (if l = [] then [] else w @ l)"

lemma prefix_line_Nil [simp]: "prefix_line w l = [] \<longleftrightarrow> l = []"
  by (simp add: prefix_line_def)

lemma trim_end_prefix:
  assumes "\<forall>c \<in> set w. is_whitespace c"
  shows "trim_end (w @ l) = prefix_line w (trim_end l)"
proof -
  have "dropWhile is_whitespace (rev w) = []" using assms by (simp add: dropWhile_eq_Nil_conv)
  then show ?thesis
    by (auto simp: trim_end_def prefix_line_def dropWhile_append dropWhile_eq_Nil_conv)
qed

lemma strip_blank_prefix: "strip_blank (map (prefix_line w) ls) = map (prefix_line w) (strip_blank ls)"
  by (simp add: strip_blank_def rev_map dropWhile_map comp_def)

lemma line_indent_prefix: "\<forall>c \<in> set w. indent_char c \<Longrightarrow> line_indent (w @ l) = length w + line_indent l"
  by (simp add: line_indent_def takeWhile_append2)

lemma common_indent_prefix:
  assumes w: "\<forall>c \<in> set w. indent_char c" and ne: "\<exists>l \<in> set ls. l \<noteq> []"
  shows "common_indent (map (prefix_line w) ls) = length w + common_indent ls"
proof -
  obtain l where l: "l \<in> set ls" "l \<noteq> []" "line_indent l = common_indent ls"
    using common_indent_attained [OF ne] by blast
  show ?thesis
    by (rule common_indent_eqI [of "prefix_line w l"])
       (use l common_indent_le line_indent_prefix [OF w] in \<open>auto simp: prefix_line_def\<close>)
qed

lemma normalize_prefix:
  assumes w: "\<forall>c \<in> set w. indent_char c"
  shows "normalize_lines (map (\<lambda>l. w @ l) ls) = normalize_lines ls"
proof -
  let ?m = "strip_blank (map trim_end ls)"
  have ws: "\<forall>c \<in> set w. is_whitespace c" using w indent_char_whitespace by blast
  have t: "strip_blank (map trim_end (map (\<lambda>l. w @ l) ls)) = map (prefix_line w) ?m"
    using trim_end_prefix [OF ws] by (simp add: comp_def flip: strip_blank_prefix)
  show ?thesis
  proof (cases "?m = []")
    case False
    then have "\<exists>l \<in> set ?m. l \<noteq> []" using strip_blank_ends [of "map trim_end ls"] hd_in_set by blast
    then show ?thesis
      unfolding normalize_lines_dedent t common_indent_prefix [OF w \<open>\<exists>l \<in> set ?m. l \<noteq> []\<close>]
      by (auto simp: dedent_def prefix_line_def)
  qed (simp only: normalize_lines_dedent t list.map)
qed

lemma indent_char_eol: "indent_char c \<Longrightarrow> c \<noteq> lf \<and> c \<noteq> cr"
  by (auto simp: indent_char_def lf_def cr_def newline_def carriage_return_def)

lemma set_shift_chars: "set (shift_chars w cs) \<subseteq> {lf} \<union> set w \<union> set cs"
proof
  fix c assume "c \<in> set (shift_chars w cs)"
  then consider "c = lf" | "c \<in> set w" | l where "l \<in> set (split_chars (\<lambda>c. c = lf) cs)" "c \<in> set l"
    using set_join_lines [of "map (\<lambda>l. w @ l) (split_chars (\<lambda>c. c = lf) cs)"]
    unfolding shift_chars_def by (auto dest!: subsetD)
  then show "c \<in> {lf} \<union> set w \<union> set cs" by cases (auto dest: split_chars_piece)
qed

lemma normalize_shift:
  assumes w: "\<forall>c \<in> set w. indent_char c" and cr: "cr \<notin> set cs"
  shows "normalize_chars (shift_chars w cs) = normalize_chars cs"
proof -
  let ?ls = "split_chars (\<lambda>c. c = lf) cs"
  have pw: "c \<noteq> lf \<and> c \<noteq> cr" if "c \<in> set w" for c
    using w that indent_char_eol by blast
  have pl: "c \<noteq> lf \<and> c \<noteq> cr" if "l \<in> set ?ls" "c \<in> set l" for l c
    using split_chars_piece [OF that] cr by auto
  have "source_lines (shift_chars w cs) = map (\<lambda>l. w @ l) ?ls"
    unfolding shift_chars_def by (subst source_lines_joined) (use pw pl in fastforce)+
  moreover have "source_lines cs = ?ls"
    by (simp add: source_lines_def replace_crlf_id replace_cr_id cr)
  ultimately show ?thesis
    unfolding normalize_chars_def source_lines_def [symmetric] by (simp only: normalize_prefix [OF w])
qed

lemma hash_normalized:
  "normalize_chars (chars a) = normalize_chars (chars b) \<Longrightarrow>
   content_hash_of blake3 language symbol a = content_hash_of blake3 language symbol b"
  by (simp add: content_hash_of_def hash_input_def normalize_body_def)

lemma is_char_indent: "indent_char c \<Longrightarrow> is_char c" "is_char cr"
  by (auto simp: indent_char_def is_char_def utf8_step_def byte_in_def cr_def carriage_return_def)



end
