(* ===== verification/Exclusions.thy ===== *)
theory Exclusions
  imports Content_Hash
begin

text \<open>
  Exclusion rules (\<open>crates/indexing/src/exclusions.rs\<close>). The crates \<open>globset\<close> and \<open>ignore\<close> are parameters:
  \<open>glob_engine\<close> compiles one glob, builds a set of them and parses the ignore file of a repository.
  Paths are their texts; the file system is a tree of nodes, the ones a path leads to after following
  links, read at absolute paths.
\<close>

section \<open>Paths and files\<close>

datatype fs_node = FFile bytes | FDir "(string \<times> fs_node) list" | FOther

fun node_at :: "fs_node \<Rightarrow> component list \<Rightarrow> fs_node option" where
  "node_at n [] = Some n"
| "node_at n (RootDir # cs) = node_at n cs"
| "node_at n (CurDir # cs) = node_at n cs"
| "node_at n (ParentDir # cs) = None"
| "node_at (FDir es) (Normal c # cs) = (case map_of es c of None \<Rightarrow> None | Some n \<Rightarrow> node_at n cs)"
| "node_at n (Normal c # cs) = None"

definition lookup :: "fs_node \<Rightarrow> string \<Rightarrow> fs_node option" where
  "lookup fs p = node_at fs (path_components p)"

definition is_dir :: "fs_node \<Rightarrow> string \<Rightarrow> bool" where
  "is_dir fs p = (case lookup fs p of Some (FDir _) \<Rightarrow> True | _ \<Rightarrow> False)"

definition is_file :: "fs_node \<Rightarrow> string \<Rightarrow> bool" where
  "is_file fs p = (case lookup fs p of Some (FFile _) \<Rightarrow> True | _ \<Rightarrow> False)"

definition path_join :: "string \<Rightarrow> string \<Rightarrow> string" where
  "path_join base p =
     (if path_has_root p then p
      else if base = [] \<or> last base = CHR ''/'' then base @ p
      else base @ ''/'' @ p)"

definition component_str :: "component \<Rightarrow> string" where
  "component_str c = (case c of RootDir \<Rightarrow> ''/'' | CurDir \<Rightarrow> ''.'' | ParentDir \<Rightarrow> ''..'' | Normal n \<Rightarrow> n)"

fun join_components :: "component list \<Rightarrow> string" where
  "join_components [] = []"
| "join_components [c] = component_str c"
| "join_components (RootDir # cs) = ''/'' @ join_components cs"
| "join_components (c # cs) = component_str c @ ''/'' @ join_components cs"

text \<open>\<open>Path::strip_prefix\<close> compares components; the rest is a path without doubled separators.\<close>

definition path_strip_prefix :: "string \<Rightarrow> string \<Rightarrow> string option" where
  "path_strip_prefix base p =
     (let rs = path_components base; ps = path_components p
      in if take (length rs) ps = rs then Some (join_components (drop (length rs) ps)) else None)"

section \<open>Rules\<close>

definition MAX_FILE_BYTES :: nat where "MAX_FILE_BYTES = 1048576"
definition HEAD_SNIFF_BYTES :: nat where "HEAD_SNIFF_BYTES = 8192"

datatype skip_reason =
    SecretPattern string
  | VendorDirectory string
  | GeneratedPattern string
  | GitIgnored
  | TooLarge nat nat
  | BinaryContent
  | UnsupportedLanguage

datatype chunk_error = CGlob string | CIgnore string | CParser string | CIo string

type_synonym glob_matcher = "string \<Rightarrow> bool"
type_synonym glob_set = "string \<Rightarrow> nat list"

record glob_engine =
  gl_new :: "string \<Rightarrow> string + glob_matcher"
  gl_build :: "glob_matcher list \<Rightarrow> string + glob_set"
  gl_gitignore :: "string \<Rightarrow> bytes \<Rightarrow> string + (string \<Rightarrow> bool \<Rightarrow> bool)"

record exclusions =
  ex_secret_globs :: glob_set
  ex_secret_patterns :: "string list"
  ex_vendor_globs :: glob_set
  ex_vendor_patterns :: "string list"
  ex_generated_globs :: glob_set
  ex_generated_patterns :: "string list"
  ex_gitignore :: "(string \<Rightarrow> bool \<Rightarrow> bool) option"
  ex_root :: string

definition glob_error :: "(string \<Rightarrow> chunk_error) \<Rightarrow> string + 'a \<Rightarrow> (chunk_error, 'a) res" where
  "glob_error e m = (case m of Inl s \<Rightarrow> Inl (Raise (e s)) | Inr a \<Rightarrow> Inr a)"

definition build_globs :: "glob_engine \<Rightarrow> (string \<times> string) list \<Rightarrow> (chunk_error, glob_set \<times> string list) res" where
  "build_globs G entries =
     bind_res (map_res (\<lambda>(glob, label). glob_error CGlob (gl_new G glob)) entries) (\<lambda>ms.
     bind_res (glob_error CGlob (gl_build G ms)) (\<lambda>globs. Inr (globs, map snd entries)))"

definition secret_entries :: "(string \<times> string) list" where
  "secret_entries =
     [(''.env'', ''.env''), (''.env.*'', ''.env.*''), (''**/.env'', ''.env''), (''**/.env.*'', ''.env.*''),
      (''*.pem'', ''*.pem''), (''**/*.pem'', ''*.pem''), (''*.key'', ''*.key''), (''**/*.key'', ''*.key''),
      (''id_rsa*'', ''id_rsa*''), (''**/id_rsa*'', ''id_rsa*''),
      (''credentials.*'', ''credentials.*''), (''**/credentials.*'', ''credentials.*''),
      (''secrets.*'', ''secrets.*''), (''**/secrets.*'', ''secrets.*'')]"

definition vendor_entries :: "(string \<times> string) list" where
  "vendor_entries =
     [(''node_modules'', ''node_modules/''), (''**/node_modules'', ''node_modules/''), (''**/node_modules/**'', ''node_modules/''),
      (''vendor'', ''vendor/''), (''**/vendor'', ''vendor/''), (''**/vendor/**'', ''vendor/''),
      (''target'', ''target/''), (''**/target'', ''target/''), (''**/target/**'', ''target/''),
      (''dist'', ''dist/''), (''**/dist'', ''dist/''), (''**/dist/**'', ''dist/''),
      (''.venv'', ''.venv/''), (''**/.venv'', ''.venv/''), (''**/.venv/**'', ''.venv/'')]"

definition generated_entries :: "(string \<times> string) list" where
  "generated_entries =
     [(''*_pb2.py'', ''*_pb2.py''), (''**/*_pb2.py'', ''*_pb2.py''),
      (''*.generated.*'', ''*.generated.*''), (''**/*.generated.*'', ''*.generated.*'')]"

definition for_repository :: "glob_engine \<Rightarrow> fs_node \<Rightarrow> string \<Rightarrow> (chunk_error, exclusions) res" where
  "for_repository G fs repo =
     bind_res (build_globs G secret_entries) (\<lambda>(secret_globs, secret_patterns).
     bind_res (build_globs G vendor_entries) (\<lambda>(vendor_globs, vendor_patterns).
     bind_res (build_globs G generated_entries) (\<lambda>(generated_globs, generated_patterns).
     bind_res (case lookup fs (path_join repo ''.gitignore'') of
         Some (FFile text) \<Rightarrow> bind_res (glob_error CIgnore (gl_gitignore G repo text)) (\<lambda>gi. Inr (Some gi))
       | _ \<Rightarrow> Inr None) (\<lambda>gitignore.
     Inr \<lparr>ex_secret_globs = secret_globs, ex_secret_patterns = secret_patterns,
          ex_vendor_globs = vendor_globs, ex_vendor_patterns = vendor_patterns,
          ex_generated_globs = generated_globs, ex_generated_patterns = generated_patterns,
          ex_gitignore = gitignore, ex_root = repo\<rparr>))))"

text \<open>The first glob of a set that matches, and its label.\<close>

definition first_match :: "glob_set \<Rightarrow> string list \<Rightarrow> string \<Rightarrow> string option" where
  "first_match globs patterns p = (case globs p of [] \<Rightarrow> None | idx # _ \<Rightarrow> Some (patterns ! idx))"

definition first_match_name :: "glob_set \<Rightarrow> string list \<Rightarrow> string \<Rightarrow> string option" where
  "first_match_name globs patterns p =
     (case file_name p of None \<Rightarrow> None | Some name \<Rightarrow> first_match globs patterns name)"

definition VENDOR_NAMES :: "string list" where
  "VENDOR_NAMES = [''node_modules'', ''vendor'', ''target'', ''dist'', ''.venv'']"

definition vendor_component :: "string \<Rightarrow> string option" where
  "vendor_component rel = (case filter (\<lambda>c. c \<in> set VENDOR_NAMES) (map component_str (path_components rel)) of
      [] \<Rightarrow> None | c # _ \<Rightarrow> Some (c @ ''/''))"

definition git_ignored :: "fs_node \<Rightarrow> exclusions \<Rightarrow> string \<Rightarrow> bool" where
  "git_ignored fs ex p = (case ex_gitignore ex of None \<Rightarrow> False | Some gi \<Rightarrow>
     let abs = (if path_has_root p then p else path_join (ex_root ex) p);
         dir = (is_dir fs abs \<or> (abs \<noteq> [] \<and> last abs = CHR ''/''))
     in gi abs dir)"

definition check_path :: "fs_node \<Rightarrow> exclusions \<Rightarrow> string \<Rightarrow> skip_reason option" where
  "check_path fs ex p =
     (let rel = (if path_has_root p then (case path_strip_prefix (ex_root ex) p of Some r \<Rightarrow> r | None \<Rightarrow> p) else p)
      in case first_match (ex_secret_globs ex) (ex_secret_patterns ex) rel of Some l \<Rightarrow> Some (SecretPattern l) | None \<Rightarrow>
         case first_match_name (ex_secret_globs ex) (ex_secret_patterns ex) rel of Some l \<Rightarrow> Some (SecretPattern l) | None \<Rightarrow>
         case vendor_component rel of Some l \<Rightarrow> Some (VendorDirectory l) | None \<Rightarrow>
         case first_match (ex_vendor_globs ex) (ex_vendor_patterns ex) rel of Some l \<Rightarrow> Some (VendorDirectory l) | None \<Rightarrow>
         case first_match (ex_generated_globs ex) (ex_generated_patterns ex) rel of Some l \<Rightarrow> Some (GeneratedPattern l) | None \<Rightarrow>
         case first_match_name (ex_generated_globs ex) (ex_generated_patterns ex) rel of Some l \<Rightarrow> Some (GeneratedPattern l) | None \<Rightarrow>
         if git_ignored fs ex p then Some GitIgnored else None)"

definition check_size :: "nat \<Rightarrow> skip_reason option" where
  "check_size n = (if MAX_FILE_BYTES < n then Some (TooLarge n MAX_FILE_BYTES) else None)"

definition check_head :: "bytes \<Rightarrow> skip_reason option" where
  "check_head head = (if CHR 0x00 \<in> set head then Some BinaryContent else None)"

section \<open>Components and texts\<close>

definition name_ok :: "string \<Rightarrow> bool" where
  "name_ok n \<longleftrightarrow> n \<noteq> [] \<and> n \<noteq> ''.'' \<and> n \<noteq> ''..'' \<and> CHR ''/'' \<notin> set n"

definition inner_component :: "component \<Rightarrow> bool" where
  "inner_component c = (case c of Normal n \<Rightarrow> name_ok n | ParentDir \<Rightarrow> True | _ \<Rightarrow> False)"

lemma path_components_inner:
  assumes "path_components p = c # cs"
  shows "list_all inner_component cs \<and> (c \<notin> {RootDir, CurDir} \<longrightarrow> inner_component c)"
proof -
  have "inner_component (path_component x)" if "x \<in> set (split_on (CHR ''/'') p)" "x \<noteq> []" "x \<noteq> ''.''" for x
    using that split_on_pieces [OF that(1)] by (auto simp: path_component_def inner_component_def name_ok_def)
  then have "list_all inner_component (map path_component (filter (\<lambda>x. x \<noteq> [] \<and> x \<noteq> ''.'') (split_on (CHR ''/'') p)))"
    by (auto simp: list_all_iff)
  then show ?thesis using assms by (auto simp: path_components_def Let_def split: if_splits)
qed

lemma inner_component_text:
  "inner_component c \<Longrightarrow> CHR ''/'' \<notin> set (component_str c) \<and> component_str c \<noteq> [] \<and> component_str c \<noteq> ''.'' \<and>
     path_component (component_str c) = c"
  by (cases c) (auto simp: inner_component_def component_str_def path_component_def name_ok_def)

lemma join_components_inner:
  "inner_component c \<Longrightarrow> cs \<noteq> [] \<Longrightarrow> join_components (c # cs) = component_str c @ ''/'' @ join_components cs"
  by (cases cs; cases c) (auto simp: inner_component_def)

lemma split_join_components:
  "list_all inner_component cs \<Longrightarrow> cs \<noteq> [] \<Longrightarrow> split_on (CHR ''/'') (join_components cs) = map component_str cs"
proof (induction cs)
  case (Cons c cs)
  then have c: "inner_component c" by simp
  show ?case
  proof (cases "cs = []")
    case True
    then show ?thesis using inner_component_text [OF c] by (simp add: split_on_no_sep)
  next
    case False
    then show ?thesis using Cons inner_component_text [OF c]
      by (simp add: join_components_inner [OF c] split_on_append)
  qed
qed simp

lemma path_components_join:
  assumes "list_all inner_component cs" "cs \<noteq> []"
  shows "path_components (join_components cs) = cs"
proof -
  note sp = split_join_components [OF assms]
  obtain c ds where cs: "cs = c # ds" using assms(2) by (cases cs) auto
  have t: "component_str c \<noteq> []" "component_str c \<noteq> ''.''" "CHR ''/'' \<notin> set (component_str c)"
    using assms(1) inner_component_text [of c] by (auto simp: cs)
  have "\<not> path_has_root (join_components cs)"
  proof
    assume "path_has_root (join_components cs)"
    then obtain r where "join_components cs = CHR ''/'' # r"
      by (cases "join_components cs") (auto simp: path_has_root_def starts_with_def)
    then have "hd (split_on (CHR ''/'') (join_components cs)) = []" by simp
    then show False using sp t(1) by (simp add: cs)
  qed
  moreover have "map path_component (filter (\<lambda>x. x \<noteq> [] \<and> x \<noteq> ''.'') (map component_str cs)) = cs"
    using assms(1) inner_component_text by (induction cs) (auto simp: list_all_iff)
  ultimately show ?thesis using t(2) by (simp add: path_components_def Let_def sp) (simp add: cs)
qed

text \<open>The part of a path below the repository's root keeps the file name.\<close>

lemma file_name_relative:
  assumes "path_strip_prefix base p = Some rel" "path_components base \<noteq> path_components p" "path_has_root base"
  shows "file_name rel = file_name p"
proof -
  obtain rs where r: "path_components base = RootDir # rs"
    using assms(3) by (auto simp: path_components_def Let_def)
  define cs where "cs = drop (length (RootDir # rs)) (path_components p)"
  have "take (length (RootDir # rs)) (path_components p) = RootDir # rs" and rel: "rel = join_components cs"
    using assms(1) by (auto simp: path_strip_prefix_def Let_def r cs_def split: if_splits)
  then have p: "path_components p = (RootDir # rs) @ cs" by (metis append_take_drop_id cs_def)
  have "cs \<noteq> []" using p r assms(2) by auto
  moreover have "list_all inner_component cs" using path_components_inner [of p] p by auto
  ultimately have "path_components rel = cs" using path_components_join rel by simp
  then show ?thesis using p \<open>cs \<noteq> []\<close> by (cases cs rule: rev_cases) (auto simp: file_name_def)
qed

section \<open>Secrets are never indexed\<close>

fun tails :: "'a list \<Rightarrow> 'a list list" where
  "tails [] = [[]]"
| "tails (x # xs) = (x # xs) # tails xs"

text \<open>What a glob without \<open>**\<close> matches: a star stands for any text.\<close>

fun star_match :: "string \<Rightarrow> string \<Rightarrow> bool" where
  "star_match [] p \<longleftrightarrow> p = []"
| "star_match (c # g) p \<longleftrightarrow>
     (if c = CHR ''*'' then list_ex (star_match g) (tails p)
      else (case p of [] \<Rightarrow> False | d # q \<Rightarrow> c = d \<and> star_match g q))"

text \<open>
  What the glob library documents of globs whose only special character is one star, and of a set of globs: it
  returns the indices of the globs that match, in increasing order.
\<close>

definition plain_glob :: "string \<Rightarrow> bool" where
  "plain_glob g \<longleftrightarrow> list_all (\<lambda>c. c \<notin> set ''?[]{}!'' \<and> c \<noteq> CHR 0x5C) g \<and> length (filter (\<lambda>c. c = CHR ''*'') g) \<le> 1"

definition globs_documented :: "glob_engine \<Rightarrow> bool" where
  "globs_documented G \<longleftrightarrow>
     (\<forall>g. plain_glob g \<longrightarrow> gl_new G g = Inr (star_match g)) \<and>
     (\<forall>ms. gl_build G ms = Inr (\<lambda>p. filter (\<lambda>i. (ms ! i) p) [0..<length ms]))"

definition ends_in :: "string \<Rightarrow> string \<Rightarrow> bool" where
  "ends_in e s \<longleftrightarrow> take (length e) (rev s) = rev e"

text \<open>The file names that hold secrets.\<close>

definition secret_name :: "string \<Rightarrow> bool" where
  "secret_name n \<longleftrightarrow> n = ''.env'' \<or> starts_with ''.env.'' n \<or> ends_in ''.pem'' n \<or> ends_in ''.key'' n \<or>
     starts_with ''id_rsa'' n \<or> starts_with ''credentials.'' n \<or> starts_with ''secrets.'' n"

lemma Nil_in_tails [simp]: "[] \<in> set (tails xs)"
  by (induction xs) auto

lemma suffix_in_tails: "ys \<in> set (tails (xs @ ys))"
  by (induction xs) (cases ys; simp)+

lemma star_match_literal: "CHR ''*'' \<notin> set g \<Longrightarrow> star_match (g @ h) (g @ p) = star_match h p"
  by (induction g) auto

lemma star_match_prefix: "CHR ''*'' \<notin> set g \<Longrightarrow> starts_with g n \<Longrightarrow> star_match (g @ ''*'') n"
  using star_match_literal [of g "''*''" "drop (length g) n"] append_take_drop_id [of "length g" n]
  by (auto simp: starts_with_def list_ex_iff)

lemma star_match_suffix: "CHR ''*'' \<notin> set g \<Longrightarrow> ends_in g n \<Longrightarrow> star_match (CHR ''*'' # g) n"
proof -
  assume g: "CHR ''*'' \<notin> set g" "ends_in g n"
  have "rev n = rev g @ drop (length g) (rev n)" using g(2) by (metis append_take_drop_id ends_in_def)
  then have "n = rev (drop (length g) (rev n)) @ g" by (metis rev_append rev_rev_ident)
  then have "g \<in> set (tails n)" by (metis suffix_in_tails)
  then show ?thesis using star_match_literal [OF g(1), of "[]" "[]"] by (auto simp: list_ex_iff)
qed

lemma secret_name_listed: "secret_name n \<Longrightarrow> \<exists>g. (g, g) \<in> set secret_entries \<and> plain_glob g \<and> star_match g n"
proof -
  let ?ok = "\<lambda>g. (g, g) \<in> set secret_entries \<and> plain_glob g"
  have ok: "?ok ''.env''" "?ok (''.env.'' @ ''*'')" "?ok (CHR ''*'' # ''.pem'')" "?ok (CHR ''*'' # ''.key'')"
    "?ok (''id_rsa'' @ ''*'')" "?ok (''credentials.'' @ ''*'')" "?ok (''secrets.'' @ ''*'')"
    by (simp_all add: secret_entries_def plain_glob_def)
  have listed: "\<exists>g. (g, g) \<in> set secret_entries \<and> plain_glob g \<and> star_match g n" if "?ok g" "star_match g n" for g
    using that by blast
  assume "secret_name n"
  then consider "n = ''.env''" | "starts_with ''.env.'' n" | "ends_in ''.pem'' n" | "ends_in ''.key'' n"
    | "starts_with ''id_rsa'' n" | "starts_with ''credentials.'' n" | "starts_with ''secrets.'' n"
    unfolding secret_name_def by blast
  then show ?thesis
  proof cases
    case 1
    then show ?thesis using ok(1) by (intro exI [of _ "''.env''"]) simp
  next
    case 2
    then show ?thesis by (rule listed [OF ok(2) star_match_prefix, rotated]) simp_all
  next
    case 3
    then show ?thesis by (rule listed [OF ok(3) star_match_suffix, rotated]) simp_all
  next
    case 4
    then show ?thesis by (rule listed [OF ok(4) star_match_suffix, rotated]) simp_all
  next
    case 5
    then show ?thesis by (rule listed [OF ok(5) star_match_prefix, rotated]) simp_all
  next
    case 6
    then show ?thesis by (rule listed [OF ok(6) star_match_prefix, rotated]) simp_all
  next
    case 7
    then show ?thesis by (rule listed [OF ok(7) star_match_prefix, rotated]) simp_all
  qed
qed

lemma map_res_nth: "map_res f xs = Inr ys \<Longrightarrow> i < length xs \<Longrightarrow> f (xs ! i) = Inr (ys ! i)"
proof (induction xs arbitrary: ys i)
  case (Cons x xs)
  then show ?case by (cases i) (auto simp: bind_res_Inr_conv)
qed simp

lemma secret_set_matches:
  assumes "globs_documented G" "build_globs G secret_entries = Inr (set', patterns)" "secret_name n"
  shows "\<exists>l. first_match set' patterns n = Some l"
proof -
  obtain ms where ms: "map_res (\<lambda>(glob, label). glob_error CGlob (gl_new G glob)) secret_entries = Inr ms"
    "set' = (\<lambda>p. filter (\<lambda>i. (ms ! i) p) [0..<length ms])"
    using assms(1,2) by (auto simp: build_globs_def bind_res_Inr_conv glob_error_def globs_documented_def)
  obtain i g where i: "i < length secret_entries" "secret_entries ! i = (g, g)" "star_match g n" "plain_glob g"
    using secret_name_listed [OF assms(3)] by (auto simp: in_set_conv_nth)
  have "gl_new G g = Inr (star_match g)" using assms(1) i(4) by (simp add: globs_documented_def)
  then have "ms ! i = star_match g" "length ms = length secret_entries"
    using map_res_nth [OF ms(1) i(1)] map_res_projr [OF ms(1)] by (auto simp: i(2) glob_error_def)
  then have "i \<in> set (set' n)" using i by (simp add: ms(2))
  then show ?thesis by (cases "set' n") (auto simp: first_match_def)
qed

text \<open>
  C25: secrets are excluded by name alone: once the rules of a repository are built, every path below its root,
  relative or absolute, whose file name matches one of the secret patterns is refused as a secret,
  whatever directory it is in, whatever the ignore file says and without the file being opened.
\<close>

theorem secret_files_are_excluded:
  assumes "globs_documented G" "for_repository G fs repo = Inr ex" "path_has_root repo"
    "path_components p \<noteq> path_components repo" "file_name p = Some n" "secret_name n"
  shows "\<exists>label. check_path fs ex p = Some (SecretPattern label)"
proof -
  obtain set' patterns where b: "build_globs G secret_entries = Inr (set', patterns)"
    and ex: "ex_secret_globs ex = set'" "ex_secret_patterns ex = patterns" "ex_root ex = repo"
    using assms(2) by (auto simp: for_repository_def bind_res_Inr_conv)
  let ?rel = "if path_has_root p then (case path_strip_prefix repo p of Some r \<Rightarrow> r | None \<Rightarrow> p) else p"
  have "file_name ?rel = Some n"
    using assms(3-5) file_name_relative [of repo p] by (auto split: option.splits)
  then obtain l where l: "first_match_name set' patterns ?rel = Some l"
    using secret_set_matches [OF assms(1) b assms(6)] by (auto simp: first_match_name_def)
  show ?thesis
    by (cases "first_match set' patterns ?rel") (simp_all only: check_path_def Let_def ex l option.case, blast+)
qed

definition star_engine :: glob_engine where
  "star_engine = \<lparr>gl_new = (\<lambda>g. Inr (star_match g)),
     gl_build = (\<lambda>ms. Inr (\<lambda>p. filter (\<lambda>i. (ms ! i) p) [0..<length ms])),
     gl_gitignore = (\<lambda>_ _. Inr (\<lambda>_ _. False))\<rparr>"

lemma star_engine_documented: "globs_documented star_engine"
  by (auto simp: globs_documented_def star_engine_def)

lemma star_engine_builds: "\<exists>ex. for_repository star_engine (FDir []) repo = Inr ex"
proof -
  have m: "map_res (\<lambda>(glob, label). glob_error CGlob (gl_new star_engine glob)) es = Inr (map (star_match \<circ> fst) es)" for es
    by (rule map_res_Inr) (auto simp: star_engine_def glob_error_def)
  have b: "\<exists>a b. build_globs star_engine es = Inr (a, b)" for es
    by (simp add: build_globs_def m) (simp add: star_engine_def glob_error_def)
  obtain a1 b1 a2 b2 a3 b3 where "build_globs star_engine secret_entries = Inr (a1, b1)"
    "build_globs star_engine vendor_entries = Inr (a2, b2)" "build_globs star_engine generated_entries = Inr (a3, b3)"
    using b by metis
  moreover have "(case n of None \<Rightarrow> Inr None | Some (FFile text) \<Rightarrow>
         bind_res (glob_error CIgnore (gl_gitignore star_engine repo text)) (\<lambda>gi. Inr (Some gi)) | Some _ \<Rightarrow> Inr None)
       = Inr (case n of Some (FFile text) \<Rightarrow> Some (\<lambda>_ _. False) | _ \<Rightarrow> None)" for n
    by (auto split: option.splits fs_node.splits simp: star_engine_def glob_error_def)
  ultimately show ?thesis unfolding for_repository_def by simp
qed

theorem secret_files_are_excluded_witness:
  "\<exists>ex label. for_repository star_engine (FDir []) ''/r'' = Inr ex \<and>
     check_path (FDir []) ex ''/r/certs/server.pem'' = Some (SecretPattern label)"
proof -
  obtain ex where ex: "for_repository star_engine (FDir []) ''/r'' = Inr ex" using star_engine_builds by blast
  have "path_has_root ''/r''" "path_components ''/r/certs/server.pem'' \<noteq> path_components ''/r''"
    "file_name ''/r/certs/server.pem'' = Some ''server.pem''" "secret_name ''server.pem''" by code_simp+
  from secret_files_are_excluded [OF star_engine_documented ex this] ex show ?thesis by blast
qed

end
