(* ===== verification/Repo_Git.thy ===== *)
theory Repo_Git
  imports Exclusions Ranking
begin

text \<open>
  Git access (\<open>crates/indexing/src/git.rs\<close>) and the errors of the indexing crate (\<open>error.rs\<close>). The \<open>gix\<close>
  library and the \<open>git\<close> command are the parameter record \<open>gix\<close>: each field is one library call or one
  run of the command, \<open>Inl\<close> carrying the message of its failure.
\<close>

section \<open>Errors\<close>

datatype index_error =
    IChunk chunk_error
  | IStore store_error
  | IInfer infer_error
  | IRetrieval retrieval_error
  | LexicalOutOfSync nat nat
  | IGit string
  | IIo string
  | DirtyRefused string
  | Interrupted string
  | IOther string

fun chunk_to_string :: "chunk_error \<Rightarrow> string" where
  "chunk_to_string (CGlob s) = ''glob pattern error: '' @ s"
| "chunk_to_string (CIgnore s) = ''ignore rules error: '' @ s"
| "chunk_to_string (CParser s) = ''tree-sitter error: '' @ s"
| "chunk_to_string (CIo s) = ''io error: '' @ s"

fun index_to_string :: "index_error \<Rightarrow> string" where
  "index_to_string (IChunk e) = ''chunking error: '' @ chunk_to_string e"
| "index_to_string (IStore e) = ''store error: '' @ store_to_string e"
| "index_to_string (IInfer e) = ''inference error: '' @ infer_to_string e"
| "index_to_string (IRetrieval e) = ''retrieval error: '' @ retrieval_to_string e"
| "index_to_string (LexicalOutOfSync store_live indexed) =
     ''lexical/store row count mismatch: store has '' @ show_nat store_live @ '' live rows, index has '' @ show_nat indexed"
| "index_to_string (IGit s) = ''git error: '' @ s"
| "index_to_string (IIo s) = ''io error: '' @ s"
| "index_to_string (DirtyRefused s) = ''dirty worktree refused: '' @ s"
| "index_to_string (Interrupted s) = ''interrupted: '' @ s"
| "index_to_string (IOther s) = s"

section \<open>Lossy decoding\<close>

text \<open>\<open>String::from_utf8_lossy\<close>: each maximal part of a broken character becomes one U+FFFD.\<close>

definition lead_second :: "char \<Rightarrow> char \<Rightarrow> bool" where
  "lead_second c a =
     (if of_char c = (0xE0::nat) then byte_in 0xA0 0xBF a
      else if of_char c = (0xED::nat) then byte_in 0x80 0x9F a
      else if of_char c = (0xF0::nat) then byte_in 0x90 0xBF a
      else if of_char c = (0xF4::nat) then byte_in 0x80 0x8F a
      else is_cont a)"

definition utf8_broken :: "bytes \<Rightarrow> nat" where
  "utf8_broken bs = (case bs of
      c # a # r \<Rightarrow>
        if byte_in 0xE0 0xF4 c \<and> lead_second c a
        then (case r of b # _ \<Rightarrow> if byte_in 0xF0 0xF4 c \<and> is_cont b then 3 else 2 | [] \<Rightarrow> 2)
        else 1
    | _ \<Rightarrow> 1)"

lemma utf8_broken_pos: "0 < utf8_broken bs"
  by (auto simp: utf8_broken_def split: list.splits)

function from_utf8_lossy :: "bytes \<Rightarrow> string" where
  "from_utf8_lossy bs =
     (if bs = [] then []
      else case utf8_step bs of
        Some k \<Rightarrow> take k bs @ from_utf8_lossy (drop k bs)
      | None \<Rightarrow> [CHR 0xEF, CHR 0xBF, CHR 0xBD] @ from_utf8_lossy (drop (utf8_broken bs) bs))"
  by pat_completeness auto
termination
  by (relation "measure length") (auto dest: utf8_step_bounds simp: utf8_broken_pos)

declare from_utf8_lossy.simps [simp del]

lemma from_utf8_lossy_valid: "valid_utf8 bs \<Longrightarrow> from_utf8_lossy bs = bs"
proof (induction bs rule: from_utf8_lossy.induct)
  case (1 bs)
  then show ?case
    by (cases "bs = []") (auto simp: from_utf8_lossy.simps [of "[]"] from_utf8_lossy.simps [of bs] valid_utf8.simps [of bs] split: option.splits)
qed

section \<open>The repository\<close>

datatype file_change = Added string | Modified string | Deleted string | Renamed string string

record entry_mode =
  em_is_blob :: bool
  em_is_link :: bool

datatype change_detached =
    Addition bytes entry_mode
  | Deletion bytes entry_mode
  | Modification bytes entry_mode entry_mode
  | Rewrite bytes bytes entry_mode entry_mode

record command_output =
  co_success :: bool
  co_stdout :: bytes
  co_stderr :: bytes

record gix =
  gx_head_id :: "string + string"
  gx_rev_parse :: "string \<Rightarrow> string + string"
  gx_peel_commit :: "string \<Rightarrow> string + string"
  gx_head_commit :: "string + string"
  gx_tree :: "string \<Rightarrow> string + string"
  gx_diff_trees :: "string \<Rightarrow> string \<Rightarrow> string + change_detached list"
  gx_is_dirty :: "string + bool"
  gx_status :: "string + command_output"
  gx_show :: "string \<Rightarrow> string + command_output"

definition git_error :: "string + 'a \<Rightarrow> (index_error, 'a) res" where
  "git_error m = (case m of Inl s \<Rightarrow> Inl (Raise (IGit s)) | Inr a \<Rightarrow> Inr a)"

definition head_commit :: "gix \<Rightarrow> (index_error, string) res" where
  "head_commit g = git_error (gx_head_id g)"

definition replace_char :: "char \<Rightarrow> char \<Rightarrow> string \<Rightarrow> string" where
  "replace_char a b s = map (\<lambda>c. if c = a then b else c) s"

definition location_to_string :: "bytes \<Rightarrow> string option" where
  "location_to_string location =
     (if \<not> valid_utf8 location then None
      else if location = [] then None
      else Some (replace_char (CHR 0x5C) (CHR ''/'') location))"

definition blob_or_link :: "entry_mode \<Rightarrow> bool" where
  "blob_or_link m \<longleftrightarrow> em_is_blob m \<or> em_is_link m"

fun change_to_file_change :: "change_detached \<Rightarrow> file_change option" where
  "change_to_file_change (Addition location mode) =
     (if \<not> blob_or_link mode then None else map_option Added (location_to_string location))"
| "change_to_file_change (Deletion location mode) =
     (if \<not> blob_or_link mode then None else map_option Deleted (location_to_string location))"
| "change_to_file_change (Modification location previous_mode mode) =
     (if \<not> blob_or_link mode \<and> \<not> blob_or_link previous_mode then None
      else map_option Modified (location_to_string location))"
| "change_to_file_change (Rewrite source_location location mode source_mode) =
     (if \<not> blob_or_link mode \<and> \<not> blob_or_link source_mode then None
      else case location_to_string source_location of None \<Rightarrow> None
      | Some from \<Rightarrow> (case location_to_string location of None \<Rightarrow> None | Some to \<Rightarrow> Some (Renamed from to)))"

definition changes_since :: "gix \<Rightarrow> string \<Rightarrow> (index_error, file_change list) res" where
  "changes_since g base =
     bind_res (case gx_rev_parse g base of
         Inl e \<Rightarrow> Inl (Raise (IGit (''resolve base '' @ base @ '': '' @ e))) | Inr i \<Rightarrow> Inr i) (\<lambda>base_id.
     bind_res (git_error (gx_peel_commit g base_id)) (\<lambda>base_commit.
     bind_res (git_error (gx_head_commit g)) (\<lambda>hd_commit.
     bind_res (git_error (gx_tree g base_commit)) (\<lambda>old_tree.
     bind_res (git_error (gx_tree g hd_commit)) (\<lambda>new_tree.
     bind_res (git_error (gx_diff_trees g old_tree new_tree)) (\<lambda>changes.
     Inr (List.map_filter change_to_file_change changes)))))))"

definition is_dirty :: "gix \<Rightarrow> (index_error, bool) res" where
  "is_dirty g = git_error (gx_is_dirty g)"

definition status_path :: "bytes \<Rightarrow> string list" where
  "status_path entry =
     (if length entry < 3 then []
      else let path = from_utf8_lossy (drop 3 entry) in if path = [] then [] else [path])"

definition dirty_paths :: "gix \<Rightarrow> (index_error, string list) res" where
  "dirty_paths g = bind_res (git_error (gx_status g)) (\<lambda>status.
     if \<not> co_success status then Inl (Raise (IGit (from_utf8_lossy (co_stderr status))))
     else Inr (concat (map status_path (split_on (CHR 0x00) (co_stdout status)))))"

section \<open>The status listing\<close>

text \<open>One record of \<open>git status --porcelain -z\<close> for a path that was not renamed: two status letters, a
  space, the path, and a NUL byte.\<close>

definition porcelain_entry :: "char \<times> char \<times> string \<Rightarrow> bytes" where
  "porcelain_entry = (\<lambda>(x, y, path). [x, y, CHR '' ''] @ path @ [CHR 0x00])"

definition path_listed :: "char \<times> char \<times> string \<Rightarrow> bool" where
  "path_listed = (\<lambda>(x, y, path). x \<noteq> CHR 0x00 \<and> y \<noteq> CHR 0x00 \<and> CHR 0x00 \<notin> set path \<and> path \<noteq> [] \<and> valid_utf8 path)"

lemma split_porcelain:
  assumes "list_all path_listed es"
  shows "split_on (CHR 0x00) (concat (map porcelain_entry es)) =
     map (\<lambda>(x, y, path). [x, y, CHR '' ''] @ path) es @ [[]]"
  using assms
proof (induction es)
  case (Cons e es)
  obtain x y path where e: "e = (x, y, path)" by (cases e)
  have "CHR 0x00 \<notin> set ([x, y, CHR '' ''] @ path)" using Cons.prems by (auto simp: e path_listed_def)
  from split_on_append [OF this, of "concat (map porcelain_entry es)"] Cons
  show ?case by (simp add: e porcelain_entry_def)
qed simp


definition wit_gix :: "bytes \<Rightarrow> gix" where
  "wit_gix out = \<lparr>gx_head_id = Inr ''h'', gx_rev_parse = (\<lambda>b. Inr b), gx_peel_commit = (\<lambda>i. Inr i),
     gx_head_commit = Inr ''h'', gx_tree = (\<lambda>c. Inr c), gx_diff_trees = (\<lambda>_ _. Inr []), gx_is_dirty = Inr False,
     gx_status = Inr \<lparr>co_success = True, co_stdout = out, co_stderr = []\<rparr>,
     gx_show = (\<lambda>_. Inl ''no command'')\<rparr>"


text \<open>A renamed path comes as two records, the second one without status letters; its first three bytes are
  taken for the letters, so a path that does not exist is reported.\<close>

lemma dirty_paths_garbles_renames:
  "dirty_paths (wit_gix (''R  new.rs'' @ [CHR 0x00] @ ''old.rs'' @ [CHR 0x00])) = Inr [''new.rs'', ''.rs'']"
proof -
  have "valid_utf8 ''new.rs''" "valid_utf8 ''.rs''" by (rule valid_utf8_ascii; simp add: is_ascii_def)+
  then show ?thesis by (simp add: dirty_paths_def wit_gix_def git_error_def status_path_def from_utf8_lossy_valid)
qed

end
