(* ===== verification/Pipeline.thy ===== *)
theory Pipeline
  imports Repo_Git Search "HOL-Library.AList"
begin

text \<open>
  The indexing pipeline (\<open>crates/indexing/src/pipeline.rs\<close>): walk the repository or apply a commit diff, parse
  in parallel, embed in batches, and keep the chunk store and the lexical index in step.

  What the pipeline reads is the record \<open>index_env\<close>: the file tree, the git repository, the rules, the
  engines and the chunker, a function from a file's text to its chunks. The parser threads send their
  results through a channel; \<open>en_arrival\<close> is the order in which they arrive. What the pipeline writes is
  the record \<open>indexer\<close>. Progress callbacks and elapsed times do not influence the run and are left out.
\<close>

section \<open>Data\<close>

datatype dirty_policy = IndexWorktree | IndexCommitOnly | Refuse

record index_config =
  embed_batch :: nat
  parse_threads :: nat
  compact_threshold :: f64
  dirty_worktree :: dirty_policy

definition default_index_config :: index_config where
  "default_index_config = \<lparr>embed_batch = 32, parse_threads = 0, compact_threshold = 0x3FC999999999999A,
     dirty_worktree = IndexWorktree\<rparr>"

definition DIRTY_COMMIT_SUFFIX :: string where "DIRTY_COMMIT_SUFFIX = ''+dirty''"

record index_report =
  rp_commit :: string
  rp_files_seen :: nat
  rp_files_indexed :: nat
  rp_files_excluded :: nat
  rp_files_unsupported :: nat
  rp_files_unparsed :: nat
  rp_chunks_added :: nat
  rp_chunks_reused :: nat
  rp_chunks_removed :: nat
  rp_embeddings_computed :: nat
  rp_chunks_truncated :: nat
  rp_compacted :: "compaction_report option"
  rp_live_before :: nat
  rp_live_after :: nat

definition empty_report :: "nat \<Rightarrow> index_report" where
  "empty_report n = \<lparr>rp_commit = [], rp_files_seen = 0, rp_files_indexed = 0, rp_files_excluded = 0,
     rp_files_unsupported = 0, rp_files_unparsed = 0, rp_chunks_added = 0, rp_chunks_reused = 0,
     rp_chunks_removed = 0, rp_embeddings_computed = 0, rp_chunks_truncated = 0, rp_compacted = None,
     rp_live_before = n, rp_live_after = n\<rparr>"

definition assert_reconciles :: "index_report \<Rightarrow> (index_error, unit) res" where
  "assert_reconciles r =
     (if rp_live_before r + rp_chunks_added r < rp_chunks_removed r
      then Inl (Panic ''attempt to subtract with overflow'')
      else if rp_live_after r \<noteq> rp_live_before r + rp_chunks_added r - rp_chunks_removed r
      then Inl (Panic ''counter reconciliation failed'')
      else Inr ())"

record work_item =
  wi_rel :: string
  wi_language :: language
  wi_source :: string

record chunked_file =
  cf_chunks :: "(chunk_record \<times> string) list"
  cf_diagnostics :: "(string \<times> string) list"

datatype parsed_file = POk string "(chunk_record \<times> string) list" | Unparsed | SkipIdentical nat

record 'i index_env =
  en_engine :: "'i tantivy"
  en_embedder :: embedder
  en_repo :: string
  en_git :: gix
  en_exclusions :: exclusions
  en_fs :: fs_node
  en_chunker :: "(string \<Rightarrow> language \<Rightarrow> string \<Rightarrow> chunked_file) option"
  en_arrival :: "parsed_file list \<Rightarrow> parsed_file list"
  en_generation :: string

record 'i indexer =
  ix_store :: chunk_store
  ix_lexical :: 'i
  ix_config :: index_config
  ix_interrupt_after :: "nat option"
  ix_batches :: nat

text \<open>An operation of the indexer: it may fail, and leaves an indexer either way.\<close>

type_synonym ('i, 'a) op = "'i indexer \<Rightarrow> (index_error, 'a) res \<times> 'i indexer"

definition bind_op :: "('i, 'a) op \<Rightarrow> ('a \<Rightarrow> ('i, 'b) op) \<Rightarrow> ('i, 'b) op" where
  "bind_op m f ix = (case m ix of (Inl e, ix) \<Rightarrow> (Inl e, ix) | (Inr a, ix) \<Rightarrow> f a ix)"

definition ret_op :: "'a \<Rightarrow> ('i, 'a) op" where
  "ret_op a ix = (Inr a, ix)"

definition lift_op :: "(index_error, 'a) res \<Rightarrow> ('i, 'a) op" where
  "lift_op r ix = (r, ix)"

definition lexical_op :: "('i \<Rightarrow> 'i lexical_step) \<Rightarrow> ('i, unit) op" where
  "lexical_op f ix = (case f (ix_lexical ix) of (r, i) \<Rightarrow> (map_err IRetrieval r, ix\<lparr>ix_lexical := i\<rparr>))"

definition store_op :: "(chunk_store \<Rightarrow> (store_error, 'a) res \<times> chunk_store) \<Rightarrow> ('i, 'a) op" where
  "store_op f ix = (case f (ix_store ix) of (r, s) \<Rightarrow> (map_err IStore r, ix\<lparr>ix_store := s\<rparr>))"

definition pure_store :: "(chunk_store \<Rightarrow> chunk_store) \<Rightarrow> ('i, unit) op" where
  "pure_store f ix = (Inr (), ix\<lparr>ix_store := f (ix_store ix)\<rparr>)"

section \<open>Opening\<close>

text \<open>
  \<open>repository\<close> is what opening the git repository returns and \<open>opened\<close> what opening the lexical index of the store's
  directory returns; on success the git handle and the exclusions are those the environment of the runs holds.
\<close>

definition indexer_open :: "'i tantivy \<Rightarrow> embedder \<Rightarrow> glob_engine \<Rightarrow> fs_node \<Rightarrow> string \<Rightarrow>
    string + gix \<Rightarrow> chunk_store \<Rightarrow> (retrieval_error, 'i) res \<Rightarrow> index_config \<Rightarrow>
    (index_error, gix \<times> exclusions \<times> 'i indexer) res" where
  "indexer_open T emb globs fs repo repository s opened config =
     bind_res (map_err IStore (require_model s (eb_model_id emb))) (\<lambda>_.
     bind_res (map_err IRetrieval opened) (\<lambda>lexical.
     let live = st_live (stats s);
         indexed = num_docs T lexical
     in if live \<noteq> indexed then Inl (Raise (LexicalOutOfSync live indexed))
        else bind_res (git_error repository) (\<lambda>git.
             bind_res (map_err IChunk (for_repository globs fs repo)) (\<lambda>exclusions.
             Inr (git, exclusions, \<lparr>ix_store = s, ix_lexical = lexical, ix_config = config,
               ix_interrupt_after = None, ix_batches = 0\<rparr>)))))"

definition set_interrupt_after_batches :: "'i indexer \<Rightarrow> nat option \<Rightarrow> 'i indexer" where
  "set_interrupt_after_batches ix n = ix\<lparr>ix_interrupt_after := n, ix_batches := 0\<rparr>"

section \<open>Reading sources\<close>

definition decode_source :: "bytes \<Rightarrow> string option" where
  "decode_source content =
     (let head_len = min HEAD_SNIFF_BYTES (length content)
      in if check_head (take head_len content) \<noteq> None then None
         else if valid_utf8 content then Some content else None)"

definition read_source :: "'i index_env \<Rightarrow> index_config \<Rightarrow> string \<Rightarrow> (index_error, string option) res" where
  "read_source E config rel =
     (if dirty_worktree config = IndexCommitOnly
      then bind_res (git_error (gx_show (en_git E) rel)) (\<lambda>out.
        if \<not> co_success out then Inr None
        else if MAX_FILE_BYTES < length (co_stdout out) then Inr None
        else Inr (decode_source (co_stdout out)))
      else case lookup (en_fs E) (path_join (en_repo E) rel) of
        Some (FFile content) \<Rightarrow>
          if check_size (length content) \<noteq> None \<or> MAX_FILE_BYTES < length content then Inr None
          else Inr (decode_source content)
      | _ \<Rightarrow> Inr None)"

definition work_item_for_path :: "'i index_env \<Rightarrow> index_config \<Rightarrow> string \<Rightarrow> index_report \<Rightarrow>
    (index_error, work_item option \<times> index_report) res" where
  "work_item_for_path E config rel report =
     (if check_path (en_fs E) (en_exclusions E) (path_join (en_repo E) rel) \<noteq> None
      then Inr (None, report\<lparr>rp_files_excluded := rp_files_excluded report + 1\<rparr>)
      else case language_from_path rel of
        None \<Rightarrow> Inr (None, report\<lparr>rp_files_unsupported := rp_files_unsupported report + 1,
                              rp_files_excluded := rp_files_excluded report + 1\<rparr>)
      | Some language \<Rightarrow> bind_res (read_source E config rel) (\<lambda>source.
          case source of None \<Rightarrow> Inr (None, report)
          | Some source \<Rightarrow> Inr (Some \<lparr>wi_rel = replace_char (CHR 0x5C) (CHR ''/'') rel,
                wi_language = language, wi_source = source\<rparr>, report)))"

section \<open>Walking the repository\<close>

definition walk_file :: "'i index_env \<Rightarrow> index_config \<Rightarrow> string \<Rightarrow> work_item list \<Rightarrow> index_report \<Rightarrow>
    (index_error, work_item list \<times> index_report) res" where
  "walk_file E config path work report =
     (let report = report\<lparr>rp_files_seen := rp_files_seen report + 1\<rparr>
      in case check_path (en_fs E) (en_exclusions E) path of
        Some reason \<Rightarrow>
          let report = report\<lparr>rp_files_excluded := rp_files_excluded report + 1\<rparr>
          in Inr (work, if reason = UnsupportedLanguage
               then report\<lparr>rp_files_unsupported := rp_files_unsupported report + 1\<rparr> else report)
      | None \<Rightarrow> case language_from_path path of
          None \<Rightarrow> Inr (work, report\<lparr>rp_files_unsupported := rp_files_unsupported report + 1,
                               rp_files_excluded := rp_files_excluded report + 1\<rparr>)
        | Some language \<Rightarrow>
          let rel = replace_char (CHR 0x5C) (CHR ''/'')
                (case path_strip_prefix (en_repo E) path of Some r \<Rightarrow> r | None \<Rightarrow> path)
          in bind_res (read_source E config rel) (\<lambda>source. case source of
               Some source \<Rightarrow> Inr (work @ [\<lparr>wi_rel = rel, wi_language = language, wi_source = source\<rparr>], report)
             | None \<Rightarrow> Inr (work, report\<lparr>rp_files_excluded := rp_files_excluded report + 1\<rparr>)))"

fun walk_entries :: "'i index_env \<Rightarrow> index_config \<Rightarrow> string \<Rightarrow> (string \<times> fs_node) list \<Rightarrow>
    (string \<times> fs_node) list \<Rightarrow> work_item list \<Rightarrow> index_report \<Rightarrow>
    (index_error, (string \<times> fs_node) list \<times> work_item list \<times> index_report) res" where
  "walk_entries E config dir [] stack work report = Inr (stack, work, report)"
| "walk_entries E config dir ((name, node) # es) stack work report =
     (let path = path_join dir name
      in if file_name path = Some ''.git'' then walk_entries E config dir es stack work report
         else case node of
           FDir children \<Rightarrow>
             if check_path (en_fs E) (en_exclusions E) path \<noteq> None
             then walk_entries E config dir es stack work
                    (report\<lparr>rp_files_excluded := rp_files_excluded report + 1\<rparr>)
             else walk_entries E config dir es ((path, node) # stack) work report
         | FFile content \<Rightarrow> bind_res (walk_file E config path work report) (\<lambda>(work, report).
             walk_entries E config dir es stack work report)
         | FOther \<Rightarrow> walk_entries E config dir es stack work report)"

text \<open>The stack holds the directories still to be read, the last one pushed first.\<close>

definition weight :: "(string \<times> fs_node) list \<Rightarrow> nat" where
  "weight stack = sum_list (map (\<lambda>e. Suc (size (snd e))) stack)"

lemma walk_entries_weight:
  "walk_entries E config dir es stack work report = Inr (stack', work', report') \<Longrightarrow>
   weight stack' \<le> weight stack + weight es"
proof (induction es arbitrary: stack work report)
  case (Cons e es)
  obtain name node where e: "e = (name, node)" by (cases e)
  show ?case using Cons.prems
    by (auto simp: e weight_def Let_def bind_res_Inr_conv split: if_splits fs_node.splits dest!: Cons.IH)
qed simp

lemma weight_children: "weight es < Suc (size (FDir es))"
proof -
  have "weight es \<le> size_list (size_prod (\<lambda>_. 0) size) es"
    by (induction es) (auto simp: weight_def)
  then show ?thesis by simp
qed

function walk :: "'i index_env \<Rightarrow> index_config \<Rightarrow> (string \<times> fs_node) list \<Rightarrow> work_item list \<Rightarrow> index_report \<Rightarrow>
    (index_error, work_item list \<times> index_report) res" where
  "walk E config [] work report = Inr (work, report)"
| "walk E config ((dir, FDir es) # stack) work report =
     (case walk_entries E config dir es stack work report of
        Inl e \<Rightarrow> Inl e
      | Inr (stack, work, report) \<Rightarrow> walk E config stack work report)"
| "walk E config ((dir, FFile content) # stack) work report = walk E config stack work report"
| "walk E config ((dir, FOther) # stack) work report = walk E config stack work report"
  by pat_completeness auto
termination
proof (relation "measure (\<lambda>(E, config, stack, work, report). weight stack)")
  fix E :: "'i index_env" and config dir es stack work report and b :: "(string \<times> fs_node) list \<times> work_item list \<times> index_report"
    and x y stack' work' report'
  assume "walk_entries E config dir es stack work report = Inr b" "(stack', y) = b" "(work', report') = y"
  then have "weight stack' \<le> weight stack + weight es" by (auto dest: walk_entries_weight)
  then show "((E, config, stack', work', report'), E, config, (dir, FDir es) # stack, work, report)
      \<in> measure (\<lambda>(E, config, stack, work, report). weight stack)"
    using weight_children [of es] by (simp add: weight_def)
qed (auto simp: weight_def)

definition collect_all_files :: "'i index_env \<Rightarrow> index_config \<Rightarrow> index_report \<Rightarrow>
    (index_error, work_item list \<times> index_report) res" where
  "collect_all_files E config report =
     walk E config [(en_repo E, case lookup (en_fs E) (en_repo E) of Some n \<Rightarrow> n | None \<Rightarrow> FOther)] [] report"

section \<open>Batches\<close>

fun unique_items :: "content_hash list \<Rightarrow> (chunk_record \<times> string) list \<Rightarrow> (chunk_record \<times> string) list" where
  "unique_items seen [] = []"
| "unique_items seen (item # items) =
     (if rec_content_hash (fst item) \<in> set seen then unique_items seen items
      else item # unique_items (rec_content_hash (fst item) # seen) items)"

definition doc_of :: "chunk_record \<Rightarrow> string \<Rightarrow> lexical_document" where
  "doc_of rec body = \<lparr>ld_symbol = rec_symbol rec, ld_signature = rec_signature rec,
     ld_doc_first_line = rec_doc_first_line rec, ld_file = rec_file rec, ld_body = body\<rparr>"

definition finish_flush :: "nat \<Rightarrow> index_report \<Rightarrow> ('i, index_report) op" where
  "finish_flush novel report ix =
     (let report = report\<lparr>rp_chunks_added := rp_chunks_added report + novel,
                          rp_embeddings_computed := rp_embeddings_computed report + novel\<rparr>;
          ix = ix\<lparr>ix_batches := ix_batches ix + 1\<rparr>
      in case ix_interrupt_after ix of
        None \<Rightarrow> (Inr report, ix)
      | Some limit \<Rightarrow> if limit \<le> ix_batches ix
          then (Inl (Raise (Interrupted (''stopped after '' @ show_nat limit @ '' batches''))), ix)
          else (Inr report, ix))"

definition flush_batch :: "'i index_env \<Rightarrow> (chunk_record \<times> string) list \<Rightarrow> index_report \<Rightarrow> ('i, index_report) op" where
  "flush_batch E pending report =
     (let unique = unique_items [] pending
      in if unique = [] then ret_op report
         else bind_op (lift_op (map_err IInfer (eb_embed (en_embedder E) (map snd unique) Document))) (\<lambda>embeddings.
           if length embeddings \<noteq> length unique then lift_op (Inl (Panic ''assertion failed''))
           else let batch = map (\<lambda>((rec, _), emb). (rec, em_vector emb)) (zip unique embeddings);
                    report = report\<lparr>rp_chunks_truncated := rp_chunks_truncated report + length (filter em_truncated embeddings)\<rparr>
           in bind_op (store_op (\<lambda>s. insert_batch s batch)) (\<lambda>ids.
              bind_op (lexical_op (add_batch (en_engine E) (zip ids (map (\<lambda>(rec, body). doc_of rec body) unique)))) (\<lambda>_.
              bind_op (lexical_op (lexical_commit (en_engine E))) (\<lambda>_.
              finish_flush (length batch) report)))))"

section \<open>Processing work\<close>

definition file_hashes :: "chunk_store \<Rightarrow> string \<Rightarrow> (content_hash \<times> nat) list" where
  "file_hashes s rel = fold (\<lambda>r m. case get_row s r of
      Some rec \<Rightarrow> AList.update (rec_content_hash rec) r m | None \<Rightarrow> m) (rows_for_file s rel) []"

definition existing_hashes :: "chunk_store \<Rightarrow> work_item list \<Rightarrow> (string \<times> (content_hash \<times> nat) list) list" where
  "existing_hashes s work = fold (\<lambda>item. AList.update (wi_rel item) (file_hashes s (wi_rel item))) work []"

definition known_hashes :: "chunk_store \<Rightarrow> content_hash list" where
  "known_hashes s = fold (\<lambda>r hs. case get_row s r of Some rec \<Rightarrow> rec_content_hash rec # hs | None \<Rightarrow> hs) (live_rows s) []"

definition old_of :: "(string \<times> (content_hash \<times> nat) list) list \<Rightarrow> string \<Rightarrow> (content_hash \<times> nat) list" where
  "old_of existing rel = (case map_of existing rel of Some m \<Rightarrow> m | None \<Rightarrow> [])"

definition chunk_hashes :: "(chunk_record \<times> string) list \<Rightarrow> content_hash list" where
  "chunk_hashes chunks = map (\<lambda>c. rec_content_hash (fst c)) chunks"

definition parse_item :: "'i index_env \<Rightarrow> (string \<times> (content_hash \<times> nat) list) list \<Rightarrow> work_item \<Rightarrow> parsed_file" where
  "parse_item E existing item =
     (case en_chunker E of None \<Rightarrow> Unparsed | Some chunk_file \<Rightarrow>
      let parsed = chunk_file (wi_rel item) (wi_language item) (wi_source item);
          chunks = cf_chunks parsed
      in if cf_diagnostics parsed \<noteq> [] \<and> chunks = [] then Unparsed
         else if set (chunk_hashes chunks) = set (map fst (old_of existing (wi_rel item)))
         then SkipIdentical (length (remdups (chunk_hashes chunks)))
         else POk (wi_rel item) chunks)"

fun consume_chunks :: "'i index_env \<Rightarrow> (content_hash \<times> nat) list \<Rightarrow> (chunk_record \<times> string) list \<Rightarrow>
    content_hash list \<Rightarrow> (chunk_record \<times> string) list \<Rightarrow> index_report \<Rightarrow>
    ('i, content_hash list \<times> (chunk_record \<times> string) list \<times> index_report) op" where
  "consume_chunks E old [] known pending report ix = (Inr (known, pending, report), ix)"
| "consume_chunks E old (item # chunks) known pending report ix =
     (let hash = rec_content_hash (fst item)
      in if hash \<in> set (map fst old) \<or> hash \<in> set known
         then consume_chunks E old chunks known pending
                (report\<lparr>rp_chunks_reused := rp_chunks_reused report + 1\<rparr>) ix
         else let pending = pending @ [item]
         in if embed_batch (ix_config ix) \<le> length pending
            then bind_op (flush_batch E pending report) (\<lambda>report. consume_chunks E old chunks (hash # known) [] report) ix
            else consume_chunks E old chunks (hash # known) pending report ix)"

definition remove_vanished :: "'i index_env \<Rightarrow> nat list \<Rightarrow> index_report \<Rightarrow> ('i, index_report) op" where
  "remove_vanished E to_tombstone report =
     (if to_tombstone = [] then ret_op report
      else bind_op (pure_store (\<lambda>s. tombstone s to_tombstone)) (\<lambda>_.
           bind_op (lexical_op (remove_rows (en_engine E) to_tombstone)) (\<lambda>_.
           bind_op (lexical_op (lexical_commit (en_engine E))) (\<lambda>_.
           ret_op (report\<lparr>rp_chunks_removed := rp_chunks_removed report + length to_tombstone\<rparr>)))))"

fun consume_files :: "'i index_env \<Rightarrow> (string \<times> (content_hash \<times> nat) list) list \<Rightarrow> parsed_file list \<Rightarrow>
    content_hash list \<Rightarrow> (chunk_record \<times> string) list \<Rightarrow> index_report \<Rightarrow>
    ('i, (chunk_record \<times> string) list \<times> index_report) op" where
  "consume_files E existing [] known pending report ix = (Inr (pending, report), ix)"
| "consume_files E existing (Unparsed # fs) known pending report ix =
     consume_files E existing fs known pending (report\<lparr>rp_files_unparsed := rp_files_unparsed report + 1\<rparr>) ix"
| "consume_files E existing (SkipIdentical reused # fs) known pending report ix =
     consume_files E existing fs known pending
       (report\<lparr>rp_files_indexed := rp_files_indexed report + 1, rp_chunks_reused := rp_chunks_reused report + reused\<rparr>) ix"
| "consume_files E existing (POk rel chunks # fs) known pending report ix =
     (let report = report\<lparr>rp_files_indexed := rp_files_indexed report + 1\<rparr>;
          old = old_of existing rel;
          to_tombstone = map snd (filter (\<lambda>(h, _). h \<notin> set (chunk_hashes chunks)) old)
      in bind_op (remove_vanished E to_tombstone report) (\<lambda>report.
         bind_op (consume_chunks E old chunks known pending report) (\<lambda>(known, pending, report).
         consume_files E existing fs known pending report)) ix)"

definition process_work_items :: "'i index_env \<Rightarrow> work_item list \<Rightarrow> index_report \<Rightarrow> ('i, index_report) op" where
  "process_work_items E work report ix =
     (if work = [] then (Inr report, ix)
      else let existing = existing_hashes (ix_store ix) work;
               known = known_hashes (ix_store ix);
               arrived = en_arrival E (map (parse_item E existing) work)
      in bind_op (consume_files E existing arrived known [] report) (\<lambda>(pending, report).
           if pending = [] then ret_op report else flush_batch E pending report) ix)"

section \<open>Changes since the indexed commit\<close>

definition push_work :: "work_item list \<Rightarrow> work_item option \<Rightarrow> work_item list" where
  "push_work work item = (case item of None \<Rightarrow> work | Some i \<Rightarrow> work @ [i])"

definition queue_path :: "'i index_env \<Rightarrow> string \<Rightarrow> work_item list \<Rightarrow> index_report \<Rightarrow>
    ('i, work_item list \<times> index_report) op" where
  "queue_path E path work report ix = (bind_res (work_item_for_path E (ix_config ix) path report) (\<lambda>(item, report).
     Inr (push_work work item, report)), ix)"

fun apply_file_change :: "'i index_env \<Rightarrow> file_change \<Rightarrow> work_item list \<Rightarrow> index_report \<Rightarrow>
    ('i, work_item list \<times> index_report) op" where
  "apply_file_change E (Added path) work report ix = queue_path E path work report ix"
| "apply_file_change E (Modified path) work report ix = queue_path E path work report ix"
| "apply_file_change E (Deleted path) work report ix =
     (let rows = rows_for_file (ix_store ix) path; n = length rows
      in if 0 < n
         then bind_op (pure_store (\<lambda>s. tombstone s rows)) (\<lambda>_.
              bind_op (lexical_op (remove_rows (en_engine E) rows)) (\<lambda>_.
              bind_op (lexical_op (lexical_commit (en_engine E))) (\<lambda>_.
              ret_op (work, report\<lparr>rp_chunks_removed := rp_chunks_removed report + n,
                                   rp_files_indexed := rp_files_indexed report + 1\<rparr>)))) ix
         else (Inr (work, report), ix))"
| "apply_file_change E (Renamed from to) work report ix =
     (let rows = rows_for_file (ix_store ix) from;
          (n, s) = rekey_file (ix_store ix) from to;
          ix = ix\<lparr>ix_store := s\<rparr>
      in if 0 < n
         then bind_op (lexical_op (update_file_paths (en_engine E) (map (\<lambda>r. (r, to)) rows))) (\<lambda>_.
              bind_op (lexical_op (lexical_commit (en_engine E))) (\<lambda>_.
              bind_op (\<lambda>ix. (work_item_for_path E (ix_config ix) to report, ix)) (\<lambda>(item, report).
              case item of Some i \<Rightarrow> ret_op (work @ [i], report)
              | None \<Rightarrow> ret_op (work, report\<lparr>rp_files_indexed := rp_files_indexed report + 1\<rparr>)))) ix
         else queue_path E to work report ix)"

fun apply_file_changes :: "'i index_env \<Rightarrow> file_change list \<Rightarrow> work_item list \<Rightarrow> index_report \<Rightarrow>
    ('i, work_item list \<times> index_report) op" where
  "apply_file_changes E [] work report ix = (Inr (work, report), ix)"
| "apply_file_changes E (change # changes) work report ix =
     bind_op (apply_file_change E change work report) (\<lambda>(work, report). apply_file_changes E changes work report) ix"

fun queue_paths :: "'i index_env \<Rightarrow> string list \<Rightarrow> work_item list \<Rightarrow> index_report \<Rightarrow>
    ('i, work_item list \<times> index_report) op" where
  "queue_paths E [] work report ix = (Inr (work, report), ix)"
| "queue_paths E (path # paths) work report ix =
     bind_op (queue_path E path work report) (\<lambda>(work, report). queue_paths E paths work report) ix"

fun dedup_work :: "string list \<Rightarrow> work_item list \<Rightarrow> work_item list" where
  "dedup_work seen [] = []"
| "dedup_work seen (w # ws) =
     (if wi_rel w \<in> set seen then dedup_work seen ws else w # dedup_work (wi_rel w # seen) ws)"

section \<open>Runs\<close>

definition apply_dirty_policy :: "'i index_env \<Rightarrow> index_config \<Rightarrow> bool \<Rightarrow> (index_error, unit) res" where
  "apply_dirty_policy E config dirty =
     (if \<not> dirty then Inr ()
      else case dirty_worktree config of
        Refuse \<Rightarrow> Inl (Raise (DirtyRefused (join_with '', ''
          (case dirty_paths (en_git E) of Inr ps \<Rightarrow> ps | Inl _ \<Rightarrow> []))))
      | _ \<Rightarrow> Inr ())"

definition record_commit :: "'i index_env \<Rightarrow> bool \<Rightarrow> ('i, string) op" where
  "record_commit E dirty ix =
     (case head_commit (en_git E) of Inl e \<Rightarrow> (Inl e, ix)
      | Inr commit \<Rightarrow>
        let commit = (if dirty \<and> dirty_worktree (ix_config ix) = IndexWorktree
                      then commit @ DIRTY_COMMIT_SUFFIX else commit)
        in (Inr commit, ix\<lparr>ix_store := set_indexed_commit (ix_store ix) commit\<rparr>))"

definition maybe_compact :: "'i index_env \<Rightarrow> index_report \<Rightarrow> ('i, index_report) op" where
  "maybe_compact E report ix =
     (if f64_gt (st_dead_fraction (stats (ix_store ix))) (compact_threshold (ix_config ix))
      then bind_op (store_op (compact (en_generation E))) (\<lambda>compact_report.
           bind_op (lexical_op (renumber (en_engine E) (row_mapping compact_report))) (\<lambda>_.
           bind_op (lexical_op (lexical_commit (en_engine E))) (\<lambda>_.
           ret_op (report\<lparr>rp_compacted := Some compact_report\<rparr>)))) ix
      else (Inr report, ix))"

definition finish_run :: "'i index_env \<Rightarrow> bool \<Rightarrow> index_report \<Rightarrow> ('i, index_report) op" where
  "finish_run E dirty report =
     bind_op (record_commit E dirty) (\<lambda>commit.
     bind_op (maybe_compact E (report\<lparr>rp_commit := commit\<rparr>)) (\<lambda>report ix.
     let report = report\<lparr>rp_live_after := st_live (stats (ix_store ix))\<rparr>
     in bind_op (lift_op (assert_reconciles report)) (\<lambda>_. ret_op report) ix))"

definition index_all :: "'i index_env \<Rightarrow> ('i, index_report) op" where
  "index_all E ix =
     (let report = empty_report (st_live (stats (ix_store ix)))
      in bind_op (lift_op (is_dirty (en_git E))) (\<lambda>dirty.
         bind_op (lift_op (apply_dirty_policy E (ix_config ix) dirty)) (\<lambda>_.
         bind_op (lift_op (collect_all_files E (ix_config ix) report)) (\<lambda>(work, report).
         bind_op (process_work_items E work report) (\<lambda>report.
         finish_run E dirty report)))) ix)"

definition strip_suffix :: "string \<Rightarrow> string \<Rightarrow> string option" where
  "strip_suffix suf s = map_option rev (strip_prefix (rev suf) (rev s))"

definition commit_changes :: "'i index_env \<Rightarrow> string \<Rightarrow> (index_error, file_change list) res" where
  "commit_changes E base =
     (case changes_since (en_git E) (case strip_suffix DIRTY_COMMIT_SUFFIX base of Some b \<Rightarrow> b | None \<Rightarrow> base) of
        Inr changes \<Rightarrow> Inr changes
      | Inl (Panic w) \<Rightarrow> Inl (Panic w)
      | Inl (Raise e) \<Rightarrow> if strip_suffix DIRTY_COMMIT_SUFFIX base \<noteq> None then Inr [] else Inl (Raise e))"

definition gather_work :: "'i index_env \<Rightarrow> bool \<Rightarrow> string \<Rightarrow> index_report \<Rightarrow> ('i, work_item list \<times> index_report) op" where
  "gather_work E dirty base report ix =
     bind_op (if dirty \<and> dirty_worktree (ix_config ix) = IndexWorktree
              then bind_op (lift_op (dirty_paths (en_git E))) (\<lambda>paths. queue_paths E paths [] report)
              else ret_op ([], report)) (\<lambda>(work, report).
     bind_op (lift_op (commit_changes E base)) (\<lambda>changes.
     bind_op (apply_file_changes E changes work report) (\<lambda>(work, report).
     ret_op (dedup_work [] work, report)))) ix"

definition update :: "'i index_env \<Rightarrow> ('i, index_report) op" where
  "update E ix =
     (let report = empty_report (st_live (stats (ix_store ix)))
      in bind_op (lift_op (is_dirty (en_git E))) (\<lambda>dirty.
         bind_op (lift_op (apply_dirty_policy E (ix_config ix) dirty)) (\<lambda>_.
         case indexed_commit (ix_store ix) of
           None \<Rightarrow> index_all E
         | Some base \<Rightarrow>
           bind_op (gather_work E dirty base report) (\<lambda>(work, report).
           bind_op (process_work_items E work report) (\<lambda>report.
           finish_run E dirty report)))) ix)"

definition require_verify_ok :: "chunk_store \<Rightarrow> (index_error, unit) res" where
  "require_verify_ok s = bind_res (map_err IStore (verify s)) (\<lambda>i. case i of
     Integrity_Ok _ \<Rightarrow> Inr () | other \<Rightarrow> Inl (Raise (IOther (''verify failed: '' @ debug_integrity other))))"

end
