(* ===== verification/Lexical_Map.thy ===== *)
theory Lexical_Map
  imports Lexical
begin

text \<open>
  The lexical index as a map from rows to documents: \<open>holds ds f\<close> says that the document list \<open>ds\<close> has
  exactly one document for every row of \<open>f\<close>. Every write of the index is an update of that map, in
  any order of the documents; the pipeline's proofs use only these facts.
\<close>

definition doc_at :: "document list \<Rightarrow> nat \<Rightarrow> document option" where
  "doc_at ds r = find (\<lambda>d. doc_row d = Some r) ds"

definition holds :: "document list \<Rightarrow> (nat \<rightharpoonup> lexical_document) \<Rightarrow> bool" where
  "holds ds f \<longleftrightarrow> distinct (map doc_row ds) \<and> None \<notin> set (map doc_row ds) \<and>
     (\<forall>r. doc_at ds r = map_option (to_document r) (f r))"

named_theorems holds_intros \<open>writes of the index as updates of its map\<close>

lemma doc_at_filter: "doc_at (filter (\<lambda>d. doc_row d \<noteq> Some q) ds) r = (if r = q then None else doc_at ds r)"
  by (induction ds) (auto simp: doc_at_def)

lemma doc_at_snoc: "doc_at (ds @ [to_document q d]) r =
  (case doc_at ds r of None \<Rightarrow> if r = q then Some (to_document q d) else None | Some x \<Rightarrow> Some x)"
  by (induction ds) (auto simp: doc_at_def)

lemma doc_at_None: "doc_at ds r = None \<longleftrightarrow> Some r \<notin> set (map doc_row ds)"
  by (induction ds) (auto simp: doc_at_def)

lemma holds_rows: "holds ds f \<Longrightarrow> set (map doc_row ds) = Some ` dom f"
proof -
  assume h: "holds ds f"
  have "Some r \<in> set (map doc_row ds) \<longleftrightarrow> f r \<noteq> None" for r
    using h doc_at_None [of ds r] by (auto simp: holds_def)
  moreover have "None \<notin> set (map doc_row ds)" using h by (simp add: holds_def)
  ultimately have "x \<in> set (map doc_row ds) \<longleftrightarrow> x \<in> Some ` dom f" for x
    by (cases x) (auto simp del: set_map)
  then show ?thesis by blast
qed

lemma holds_length: "holds ds f \<Longrightarrow> length ds = card (dom f)"
  using holds_rows [of ds f] distinct_card [of "map doc_row ds"]
  by (simp add: holds_def card_image del: set_map)

lemma holds_finite: "holds ds f \<Longrightarrow> finite (dom f)"
proof -
  assume "holds ds f"
  then have "finite (Some ` dom f)" using holds_rows [of ds f] by (metis List.finite_set)
  then show ?thesis by (rule finite_imageD) simp
qed

lemma holds_delete [holds_intros]: "holds ds f \<Longrightarrow> holds (filter (\<lambda>d. doc_row d \<noteq> Some q) ds) (f(q := None))"
  by (auto simp: holds_def doc_at_filter distinct_map_filter)

lemma holds_add: "holds ds f \<Longrightarrow> f q = None \<Longrightarrow> holds (ds @ [to_document q d]) (f(q \<mapsto> d))"
proof -
  assume h: "holds ds f" and q: "f q = None"
  have "Some q \<notin> set (map doc_row ds)" using h q doc_at_None [of ds q] by (simp add: holds_def)
  then show ?thesis using h q by (auto simp: holds_def doc_at_snoc split: option.splits)
qed

lemma put_holds:
  assumes T: "tantivy_runs T staged visible" and h: "holds (staged i) f" and q: "f q = None"
  shows "\<exists>i'. put_document T q d i = (Inr (), i') \<and> visible i' = visible i \<and> holds (staged i') (f(q \<mapsto> d))"
  using tantivy_put [OF T, of q d i] holds_add [OF h q, of d] by auto

lemma put_replaces:
  assumes T: "tantivy_runs T staged visible" and h: "holds (staged i) f"
  shows "\<exists>i'. put_document T q d (tv_delete_row T q i) = (Inr (), i') \<and> visible i' = visible i \<and>
     holds (staged i') (f(q \<mapsto> d))"
  using put_holds [OF T, of "tv_delete_row T q i" "f(q := None)" q d] holds_delete [OF h, of q]
  by (simp add: tantivy_delete [OF T])

lemma add_batch_holds:
  assumes T: "tantivy_runs T staged visible" and h: "holds (staged i) f"
  shows "\<exists>i'. add_batch T docs i = (Inr (), i') \<and> visible i' = visible i \<and> holds (staged i') (f ++ map_of (rev docs))"
  using h
proof (induction docs arbitrary: i f)
  case (Cons x docs)
  obtain r d where x: "x = (r, d)" by (cases x)
  obtain i1 where i1: "put_document T r d (tv_delete_row T r i) = (Inr (), i1)" "visible i1 = visible i"
    "holds (staged i1) (f(r \<mapsto> d))" using put_replaces [OF T Cons.prems] by blast
  obtain i' where i': "add_batch T docs i1 = (Inr (), i')" "visible i' = visible i1"
    "holds (staged i') (f(r \<mapsto> d) ++ map_of (rev docs))" using Cons.IH [OF i1(3)] by blast
  have "f(r \<mapsto> d) ++ map_of (rev docs) = f ++ map_of (rev (x # docs))" by (simp add: x)
  then show ?case using i' i1 by (auto simp: add_batch_def x)
qed (simp add: add_batch_def)

lemma remove_rows_holds:
  assumes T: "tantivy_runs T staged visible" and h: "holds (staged i) f"
  shows "\<exists>i'. remove_rows T rows i = (Inr (), i') \<and> visible i' = visible i \<and> holds (staged i') (f |` (- set rows))"
  using h
proof (induction rows arbitrary: i f)
  case (Cons r rows)
  have "holds (staged (tv_delete_row T r i)) (f(r := None))"
    using holds_delete [OF Cons.prems] by (simp add: tantivy_delete [OF T])
  from Cons.IH [OF this] obtain i' where "remove_rows T rows (tv_delete_row T r i) = (Inr (), i')"
    "visible i' = visible (tv_delete_row T r i)" "holds (staged i') (f(r := None) |` (- set rows))" by blast
  moreover have "f(r := None) |` (- set rows) = f |` (- set (r # rows))"
    by (auto simp: restrict_map_def fun_eq_iff)
  ultimately show ?case by (simp add: remove_rows_def tantivy_delete [OF T])
qed (simp add: remove_rows_def restrict_map_def)

lemma load_holds:
  assumes "tantivy_runs T staged visible" "holds (visible i) g"
  shows "load_document T i r = Inr (map_option (to_document r) (g r))"
  using assms(2) by (simp add: tantivy_load [OF assms(1)] holds_def flip: doc_at_def)

text \<open>Path updates read the documents as of the last commit, so each row of the list is updated once.\<close>

lemma update_paths_holds:
  assumes T: "tantivy_runs T staged visible" and v: "holds (visible i) g" and h: "holds (staged i) f"
    and d: "distinct rows" and eq: "\<forall>r \<in> set rows. f r = g r"
  shows "\<exists>i'. update_file_paths T (map (\<lambda>r. (r, path)) rows) i = (Inr (), i') \<and> visible i' = visible i \<and>
     holds (staged i') (\<lambda>r. if r \<in> set rows then map_option (\<lambda>d. d\<lparr>ld_file := path\<rparr>) (g r) else f r)"
  using v h d eq
proof (induction rows arbitrary: i f)
  case (Cons r rows)
  show ?case
  proof (cases "g r")
    case None
    have step: "update_file_path T (r, path) i = (Inr (), i)"
      using load_holds [OF T Cons.prems(1), of r] None by (simp add: update_file_path_def)
    obtain i' where i': "update_file_paths T (map (\<lambda>r. (r, path)) rows) i = (Inr (), i')" "visible i' = visible i"
      "holds (staged i') (\<lambda>r. if r \<in> set rows then map_option (\<lambda>d. d\<lparr>ld_file := path\<rparr>) (g r) else f r)"
      using Cons.IH [OF Cons.prems(1,2)] Cons.prems(3,4) by auto
    moreover have "(\<lambda>q. if q \<in> set (r # rows) then map_option (\<lambda>d. d\<lparr>ld_file := path\<rparr>) (g q) else f q) =
      (\<lambda>r. if r \<in> set rows then map_option (\<lambda>d. d\<lparr>ld_file := path\<rparr>) (g r) else f r)"
      using None Cons.prems(4) by (auto simp: fun_eq_iff)
    ultimately show ?thesis using step by (simp add: update_file_paths_def)
  next
    case (Some d)
    obtain i1 where i1: "put_document T r (d\<lparr>ld_file := path\<rparr>) (tv_delete_row T r i) = (Inr (), i1)"
      "visible i1 = visible i" "holds (staged i1) (f(r \<mapsto> d\<lparr>ld_file := path\<rparr>))"
      using put_replaces [OF T Cons.prems(2)] by blast
    have step: "update_file_path T (r, path) i = (Inr (), i1)"
      using load_holds [OF T Cons.prems(1), of r] Some i1(1) by (simp add: update_file_path_def)
    let ?f = "f(r \<mapsto> d\<lparr>ld_file := path\<rparr>)"
    have "holds (visible i1) g" "\<forall>q \<in> set rows. ?f q = g q" using i1(2) Cons.prems by auto
    moreover have "distinct rows" using Cons.prems(3) by simp
    ultimately obtain i' where i': "update_file_paths T (map (\<lambda>r. (r, path)) rows) i1 = (Inr (), i')" "visible i' = visible i1"
      "holds (staged i') (\<lambda>r. if r \<in> set rows then map_option (\<lambda>d. d\<lparr>ld_file := path\<rparr>) (g r) else ?f r)"
      using Cons.IH [of i1 ?f] i1(3) by blast
    moreover have "(\<lambda>q. if q \<in> set (r # rows) then map_option (\<lambda>d. d\<lparr>ld_file := path\<rparr>) (g q) else f q) =
      (\<lambda>r. if r \<in> set rows then map_option (\<lambda>d. d\<lparr>ld_file := path\<rparr>) (g r) else ?f r)"
      using Some Cons.prems(3) by (auto simp: fun_eq_iff)
    ultimately show ?thesis using step i1(2) by (simp add: update_file_paths_def)
  qed
qed (simp add: update_file_paths_def)

text \<open>Renumbering along a compaction: the document of the \<open>k\<close>-th row moves to row \<open>k\<close>.\<close>

lemma renumber_holds:
  assumes T: "tantivy_runs T staged visible" and v: "holds (visible i) g"
    and s: "sorted_wrt (<) rows" and low: "\<forall>r \<in> set rows. k \<le> r" and g: "\<forall>r \<in> set rows. g r \<noteq> None"
    and h: "holds (staged i) (\<lambda>r. if r < k then f r else if r \<in> set rows then g r else None)"
  shows "\<exists>i'. renumber T (zip rows [k..<k + length rows]) i = (Inr (), i') \<and> visible i' = visible i \<and>
     holds (staged i') (\<lambda>r. if r < k then f r else if r < k + length rows then g (rows ! (r - k)) else None)"
  using v s low g h
proof (induction rows arbitrary: i k f)
  case Nil
  have "(\<lambda>r. if r < k then f r else if r \<in> set [] then g r else None) =
      (\<lambda>r. if r < k then f r else if r < k + length ([] :: nat list) then g ([] ! (r - k)) else None)"
    by (auto simp: fun_eq_iff)
  then show ?case using Nil.prems(5) by (simp add: renumber_def)
next
  case (Cons x rows)
  obtain d where d: "g x = Some d" using Cons.prems(4) by auto
  have kx: "k \<le> x" and later: "\<forall>q \<in> set rows. x < q" using Cons.prems(2,3) by auto
  let ?h = "\<lambda>r. if r < k then f r else if r \<in> set (x # rows) then g r else None"
  let ?f = "f(k \<mapsto> d)"
  have "holds (staged (tv_delete_row T k (tv_delete_row T x i))) ((?h(x := None))(k := None))"
    using holds_delete [OF holds_delete [OF Cons.prems(5)]] by (simp add: tantivy_delete [OF T])
  then obtain i1 where i1: "put_document T k d (tv_delete_row T k (tv_delete_row T x i)) = (Inr (), i1)"
    "visible i1 = visible i" "holds (staged i1) (((?h(x := None))(k := None))(k \<mapsto> d))"
    using put_holds [OF T, of "tv_delete_row T k (tv_delete_row T x i)" "(?h(x := None))(k := None)" k d]
    by (auto simp: tantivy_delete [OF T])
  have step: "renumber_row T (x, k) i = (Inr (), i1)"
    using load_holds [OF T Cons.prems(1), of x] d i1(1) by (simp add: renumber_row_def)
  have m: "((?h(x := None))(k := None))(k \<mapsto> d) = (\<lambda>r. if r < Suc k then ?f r else if r \<in> set rows then g r else None)"
    using kx later by (auto simp: fun_eq_iff less_Suc_eq)
  have "holds (visible i1) g" "sorted_wrt (<) rows" "\<forall>q \<in> set rows. Suc k \<le> q" "\<forall>r \<in> set rows. g r \<noteq> None"
    using kx later Cons.prems(1,2,4) i1(2) by auto
  then obtain i' where i': "renumber T (zip rows [Suc k..<Suc k + length rows]) i1 = (Inr (), i')" "visible i' = visible i1"
    "holds (staged i') (\<lambda>r. if r < Suc k then ?f r else if r < Suc k + length rows then g (rows ! (r - Suc k)) else None)"
    using Cons.IH [of i1 "Suc k" ?f] i1(3) [unfolded m] by blast
  have "(\<lambda>r. if r < Suc k then ?f r else if r < Suc k + length rows then g (rows ! (r - Suc k)) else None) =
     (\<lambda>r. if r < k then f r else if r < k + length (x # rows) then g ((x # rows) ! (r - k)) else None)"
    (is "?a = ?b")
  proof
    fix r
    consider "r < k" | "r = k" | j where "r = Suc (k + j)" by (metis less_iff_Suc_add linorder_neqE_nat)
    then show "?a r = ?b r" by cases (use d in auto)
  qed
  then show ?case using i' i1(2) step by (simp add: renumber_def upt_conv_Cons del: upt_Suc)
qed

end
