(* ===== verification/Live_Map.thy ===== *)
theory Live_Map
  imports Store_Correct
begin

text \<open>
  The chunk store as its client sees it: a finite map from live rows to records. The locale \<open>live_map\<close>
  states the contract the indexing pipeline relies on and derives how each write changes the number
  of live rows; it is interpreted on the model of \<open>ChunkStore\<close>.
\<close>

section \<open>The contract\<close>

locale live_map =
  fixes inv :: "'s \<Rightarrow> bool"
    and get :: "'s \<Rightarrow> nat \<Rightarrow> chunk_record option"
    and rows :: "'s \<Rightarrow> nat list"
    and tomb :: "'s \<Rightarrow> nat list \<Rightarrow> 's"
    and rekey :: "'s \<Rightarrow> string \<Rightarrow> string \<Rightarrow> 's"
    and ok :: "'s \<Rightarrow> (chunk_record \<times> f16 list) list \<Rightarrow> bool"
    and ins :: "'s \<Rightarrow> (chunk_record \<times> f16 list) list \<Rightarrow> (store_error, nat list) res \<times> 's"
  assumes rows_get: "inv s \<Longrightarrow> sorted_wrt (<) (rows s) \<and> set (rows s) = dom (get s)"
    and hash_inj: "inv s \<Longrightarrow> get s p = Some a \<Longrightarrow> get s q = Some b \<Longrightarrow> rec_content_hash a = rec_content_hash b \<Longrightarrow> p = q"
    and tomb_get: "inv s \<Longrightarrow> inv (tomb s rs) \<and> get (tomb s rs) = get s |` (- set rs)"
    and rekey_get: "inv s \<Longrightarrow> inv (rekey s from to) \<and>
        get (rekey s from to) = (\<lambda>r. map_option (\<lambda>rec. if rec_file rec = from then rec\<lparr>rec_file := to\<rparr> else rec) (get s r))"
    and ins_get: "inv s \<Longrightarrow> ok s cs \<Longrightarrow> distinct (map (rec_content_hash \<circ> fst) cs) \<Longrightarrow>
        (\<And>r rec. get s r = Some rec \<Longrightarrow> rec_content_hash rec \<notin> rec_content_hash ` fst ` set cs) \<Longrightarrow>
        \<exists>new s'. ins s cs = (Inr new, s') \<and> inv s' \<and> length new = length cs \<and> distinct new \<and>
          set new \<inter> dom (get s) = {} \<and> get s' = get s ++ map_of (zip new (map fst cs))"
begin

lemma rows_card: "inv s \<Longrightarrow> length (rows s) = card (dom (get s))"
  using rows_get [of s] by (metis distinct_card strict_sorted_iff)

lemma rows_distinct: "inv s \<Longrightarrow> distinct (rows s)"
  using rows_get [of s] by (simp add: strict_sorted_iff)

lemma rows_eq: "inv s \<Longrightarrow> inv t \<Longrightarrow> dom (get s) = dom (get t) \<Longrightarrow> rows s = rows t"
  using rows_get [of s] rows_get [of t] by (metis strict_sorted_equal)

lemma tomb_count:
  assumes "inv s" "distinct rs" "set rs \<subseteq> dom (get s)"
  shows "length (rows (tomb s rs)) + length rs = length (rows s)"
proof -
  have f: "finite (dom (get s))" using rows_get [OF assms(1)] by (metis List.finite_set)
  have "dom (get s |` (- set rs)) = dom (get s) - set rs" by auto
  then have "length (rows (tomb s rs)) = card (dom (get s) - set rs)"
    using tomb_get [OF assms(1), of rs] rows_card by simp
  moreover have "card (dom (get s) - set rs) + length rs = card (dom (get s))"
    using card_Diff_subset [of "set rs" "dom (get s)"] card_mono [OF f assms(3)] assms(2,3) distinct_card by fastforce
  ultimately show ?thesis using rows_card [OF assms(1)] by simp
qed

lemma ins_count:
  assumes "inv s" "inv s'" "length new = length cs" "distinct new" "set new \<inter> dom (get s) = {}"
    "get s' = get s ++ map_of (zip new (map fst cs))"
  shows "length (rows s') = length (rows s) + length cs"
proof -
  have f: "finite (dom (get s))" using rows_get [OF assms(1)] by (metis List.finite_set)
  have "dom (get s') = dom (get s) \<union> set new"
    using assms(3) by (auto simp: assms(6) dom_map_of_zip simp del: dom_map_of_conv_image_fst)
  then have "card (dom (get s')) = card (dom (get s)) + length new"
    using card_Un_disjoint [OF f, of "set new"] assms(4,5) distinct_card by fastforce
  then show ?thesis using rows_card assms(1-3) by simp
qed

end

section \<open>The store keeps the contract\<close>

lemma get_row_dom:
  assumes "store_inv s"
  shows "sorted_wrt (<) (live_rows s) \<and> set (live_rows s) = dom (get_row s)"
proof -
  obtain m where m: "table_ok (matrix_rows m) (db_chunks (cs_conn s))"
    "store_view s = entries (db_chunks (cs_conn s)) (matrix_view m)" using assms by (auto elim: store_invE)
  let ?cs = "db_chunks (cs_conn s)"
  have "sorted_wrt (<) (map cr_rowid ?cs)" using m(1) by (simp add: table_ok_def)
  then have "sorted_wrt (<) (map cr_rowid (filter cr_live ?cs))"
    unfolding sorted_wrt_map by (rule sorted_wrt_filter)
  moreover have "r \<in> set (live_rows s) \<longleftrightarrow> get_row s r \<noteq> None" for r
    using table_ok_set [OF m(1)] table_ok_rowid [OF m(1)] table_ok_length [OF m(1)]
    by (auto simp: get_row_view [OF assms] spec_get_def m(2) live_rows_def entries_def image_iff) (metis nth_mem)+
  ultimately show ?thesis by (auto simp: live_rows_def dom_def)
qed

lemma spec_insert_novel:
  assumes "distinct (map (rec_content_hash \<circ> fst) cs)" "set (entry_hashes V) \<inter> rec_content_hash ` fst ` set cs = {}"
  shows "spec_insert V cs = ([length V..<length V + length cs], V @ map (\<lambda>(rec, vec). (rec, True, vec)) cs)"
  using assms
proof (induction cs arbitrary: V)
  case (Cons c cs)
  obtain rec vec where c: "c = (rec, vec)" by (cases c)
  have "find_live V (rec_content_hash rec) = None" using Cons.prems(2) by (auto simp: find_live_None c)
  moreover have "spec_insert (V @ [(rec, True, vec)]) cs =
     ([length (V @ [(rec, True, vec)])..<length (V @ [(rec, True, vec)]) + length cs],
      (V @ [(rec, True, vec)]) @ map (\<lambda>(rec, vec). (rec, True, vec)) cs)"
    by (rule Cons.IH) (use Cons.prems in \<open>auto simp: c entry_hashes_def\<close>)
  ultimately show ?case by (simp add: c upt_conv_Cons del: upt_Suc)
qed simp

lemma spec_get_append:
  "spec_get (V @ map (\<lambda>(rec, vec). (rec, True, vec)) cs) =
   spec_get V ++ map_of (zip [length V..<length V + length cs] (map fst cs))"
proof
  fix r
  consider "r < length V" | j where "r = length V + j" "j < length cs" | "length V + length cs \<le> r"
    by (metis add_diff_inverse_nat add_less_cancel_left not_le)
  then show "spec_get (V @ map (\<lambda>(rec, vec). (rec, True, vec)) cs) r =
     (spec_get V ++ map_of (zip [length V..<length V + length cs] (map fst cs))) r"
  proof cases
    case 1
    then have "map_of (zip [length V..<length V + length cs] (map fst cs)) r = None" by (simp add: map_of_zip_is_None)
    then show ?thesis using 1 by (simp only: map_add_def option.case) (simp add: spec_get_def nth_append)
  next
    case 2
    then have "map_of (zip [length V..<length V + length cs] (map fst cs)) r = Some (fst (cs ! j))"
      using map_of_zip_nth [of "[length V..<length V + length cs]" "map fst cs" j] by simp
    then show ?thesis using 2 by (simp add: spec_get_def nth_append case_prod_unfold)
  next
    case 3
    then have "map_of (zip [length V..<length V + length cs] (map fst cs)) r = None" by (simp add: map_of_zip_is_None)
    then show ?thesis using 3 by (simp only: map_add_def option.case) (simp add: spec_get_def)
  qed
qed

lemma spec_tombstone_get: "spec_get (spec_tombstone rows V) = spec_get V |` (- set rows)"
  by (auto simp: spec_get_def spec_tombstone_def restrict_map_def fun_eq_iff nth_enumerate_eq split: prod.splits)

lemma spec_rekey_get: "spec_get (spec_rekey from to V) =
   (\<lambda>r. map_option (\<lambda>rec. if rec_file rec = from then rec\<lparr>rec_file := to\<rparr> else rec) (spec_get V r))"
  by (auto simp: spec_get_def spec_rekey_def fun_eq_iff split: prod.splits)

lemma entry_hashes_get:
  "set (entry_hashes V) = {rec_content_hash rec |rec. rec \<in> ran (spec_get V)}"
proof
  show "set (entry_hashes V) \<subseteq> {rec_content_hash rec |rec. rec \<in> ran (spec_get V)}"
  proof
    fix h assume "h \<in> set (entry_hashes V)"
    then obtain i where "i < length V" "e_live (V ! i)" "h = e_hash (V ! i)"
      by (auto simp: entry_hashes_def in_set_conv_nth)
    then have "spec_get V i = Some (e_rec (V ! i))" by (simp add: spec_get_def)
    then show "h \<in> {rec_content_hash rec |rec. rec \<in> ran (spec_get V)}"
      using \<open>h = e_hash (V ! i)\<close> by (auto intro: ranI)
  qed
qed (auto simp: entry_hashes_def ran_def spec_get_def image_iff split: if_splits)

lemma store_hash_inj:
  assumes "store_inv s" "get_row s p = Some a" "get_row s q = Some b" "rec_content_hash a = rec_content_hash b"
  shows "p = q"
proof -
  obtain m where m: "table_ok (matrix_rows m) (db_chunks (cs_conn s))"
    "store_view s = entries (db_chunks (cs_conn s)) (matrix_view m)" using assms(1) by (auto elim: store_invE)
  let ?cs = "db_chunks (cs_conn s)"
  have get: "get_row s r = (if r < length ?cs \<and> cr_live (?cs ! r) then Some (cr_rec (?cs ! r)) else None)" for r
    by (auto simp: get_row_view [OF assms(1)] spec_get_def m(2) entries_def)
  have at: "r < length ?cs \<and> cr_live (?cs ! r) \<and> rec = cr_rec (?cs ! r)" if "get_row s r = Some rec" for r rec
    using that unfolding get by (simp split: if_splits)
  have "inj_on (rec_content_hash \<circ> cr_rec) (set (filter cr_live ?cs))"
    using m(1) by (simp add: table_ok_def live_hashes_def distinct_map)
  then have "?cs ! p = ?cs ! q"
    by (rule inj_onD) (use at [OF assms(2)] at [OF assms(3)] assms(4) in simp_all)
  moreover have "cr_rowid (?cs ! p) = p" "cr_rowid (?cs ! q) = q"
    using table_ok_rowid [OF m(1)] at [OF assms(2)] at [OF assms(3)] table_ok_length [OF m(1)] by auto
  ultimately show ?thesis by metis
qed

interpretation lm: live_map store_inv get_row live_rows tombstone "\<lambda>s from to. snd (rekey_file s from to)"
  batch_commits insert_batch
proof
  fix s :: chunk_store and cs :: "(chunk_record \<times> f16 list) list"
  assume s: "store_inv s" and ok: "batch_commits s cs" and d: "distinct (map (rec_content_hash \<circ> fst) cs)"
    and n: "\<And>r rec. get_row s r = Some rec \<Longrightarrow> rec_content_hash rec \<notin> rec_content_hash ` fst ` set cs"
  let ?V = "store_view s" and ?new = "[length (store_view s)..<length (store_view s) + length cs]"
  have "set (entry_hashes ?V) \<inter> rec_content_hash ` fst ` set cs = {}"
  proof (intro equals0I, elim IntE)
    fix h assume h: "h \<in> set (entry_hashes ?V)" "h \<in> rec_content_hash ` fst ` set cs"
    then obtain r rec where "spec_get ?V r = Some rec" "h = rec_content_hash rec"
      unfolding entry_hashes_get by (auto simp: ran_def)
    then show False using n [of r rec] h(2) by (simp add: get_row_view [OF s])
  qed
  from spec_insert_novel [OF d this] obtain s' where s': "insert_batch s cs = (Inr ?new, s')" "store_inv s'"
    "store_view s' = ?V @ map (\<lambda>(rec, vec). (rec, True, vec)) cs"
    using st.ins_law [OF s ok] by blast
  have "get_row s' = get_row s ++ map_of (zip ?new (map fst cs))"
    using spec_get_append [of ?V cs] by (simp add: get_row_view [OF s, abs_def] get_row_view [OF s'(2), abs_def] s'(3) fun_eq_iff)
  moreover have "set ?new \<inter> dom (get_row s) = {}"
    by (auto simp: get_row_view [OF s] spec_get_def split: if_splits)
  ultimately show "\<exists>new s'. insert_batch s cs = (Inr new, s') \<and> store_inv s' \<and> length new = length cs \<and> distinct new \<and>
          set new \<inter> dom (get_row s) = {} \<and> get_row s' = get_row s ++ map_of (zip new (map fst cs))"
    using s' by (intro exI [of _ ?new] exI [of _ s']) simp
next
  fix s rs assume "store_inv s"
  then show "store_inv (tombstone s rs) \<and> get_row (tombstone s rs) = get_row s |` (- set rs)"
    using tombstone_ok [of s rs] spec_tombstone_get [of rs "store_view s"]
    by (auto simp: fun_eq_iff get_row_view restrict_map_def)
next
  fix s f t assume "store_inv s"
  then show "store_inv (snd (rekey_file s f t)) \<and> get_row (snd (rekey_file s f t)) =
     (\<lambda>r. map_option (\<lambda>rec. if rec_file rec = f then rec\<lparr>rec_file := t\<rparr> else rec) (get_row s r))"
    using rekey_ok [of s f t] spec_rekey_get [of f t "store_view s"] by (auto simp: fun_eq_iff get_row_view)
qed (use get_row_dom store_hash_inj in blast)+

section \<open>Files and compaction\<close>

lemma rows_for_file_live:
  assumes "store_inv s"
  shows "distinct (rows_for_file s path)"
    "r \<in> set (rows_for_file s path) \<longleftrightarrow> (\<exists>rec. get_row s r = Some rec \<and> rec_file rec = path)"
proof -
  obtain m where m: "table_ok (matrix_rows m) (db_chunks (cs_conn s))"
    "store_view s = entries (db_chunks (cs_conn s)) (matrix_view m)" using assms(1) by (auto elim: store_invE)
  show "distinct (rows_for_file s path)"
    using m(1) by (simp add: rows_for_file_def table_ok_def distinct_map_filter)
  show "r \<in> set (rows_for_file s path) \<longleftrightarrow> (\<exists>rec. get_row s r = Some rec \<and> rec_file rec = path)"
    using table_ok_set [OF m(1)] table_ok_rowid [OF m(1)] table_ok_length [OF m(1)]
    by (auto simp: get_row_view [OF assms] spec_get_def m(2) rows_for_file_def entries_def image_iff) (metis nth_mem)+
qed

lemma rekey_count_rows: "fst (rekey_file s from to) = length (rows_for_file s from)"
  by (simp add: rekey_file_def rows_for_file_def Let_def)

lemma stats_live: "st_live (stats s) = length (live_rows s)"
  by (simp add: stats_def stats_db_def Let_def live_rows_def)

lemma compact_get:
  assumes "store_inv s" "fresh_generation s gen"
  shows "\<exists>rep s'. compact gen s = (Inr rep, s') \<and> store_inv s' \<and>
     row_mapping rep = zip (live_rows s) [0..<length (live_rows s)] \<and>
     get_row s' = (\<lambda>r. if r < length (live_rows s) then get_row s (live_rows s ! r) else None)"
proof -
  from compact_ok [OF assms] obtain rep s' where c: "compact gen s = (Inr rep, s')" "store_inv s'"
    "store_view s' = compacted_view s" "row_mapping rep = zip (live_rows s) [0..<length (live_rows s)]" by blast
  obtain m where m: "table_ok (matrix_rows m) (db_chunks (cs_conn s))"
    "store_view s = entries (db_chunks (cs_conn s)) (matrix_view m)" using assms by (auto elim: store_invE)
  let ?live = "filter cr_live (db_chunks (cs_conn s))"
  have cv: "compacted_view s = entries ?live (matrix_view m)"
    by (simp add: compacted_view_def m(2) entries_def filter_map comp_def)
  have "get_row s' r = (if r < length (live_rows s) then get_row s (live_rows s ! r) else None)" for r
  proof (cases "r < length ?live")
    case True
    then have l: "?live ! r \<in> set (db_chunks (cs_conn s))" "cr_live (?live ! r)"
      using nth_mem [OF True] by simp_all
    then have "cr_rowid (?live ! r) < matrix_rows m" "db_chunks (cs_conn s) ! cr_rowid (?live ! r) = ?live ! r"
      using table_ok_set [OF m(1)] by auto
    then show ?thesis using True l
      by (simp add: get_row_view [OF c(2)] get_row_view [OF assms(1)] c(3) cv m(2) spec_get_def live_rows_def
          table_ok_length [OF m(1)] entries_def)
  qed (simp add: get_row_view [OF c(2)] c(3) cv spec_get_def live_rows_def)
  then show ?thesis using c by auto
qed

end
