(* ===== verification/Pipeline_Sync.thy ===== *)
theory Pipeline_Sync
  imports Pipeline Lexical_Map Live_Map
begin

text \<open>
  The indexing pipeline keeps the store and the lexical index in step. An indexer is \<open>synced\<close> when the
  committed documents are exactly those of the live rows, with the fields of their records. Operations
  are specified by \<open>ends_well Q R\<close>: the operation does not panic, establishes \<open>Q\<close> when it succeeds and
  \<open>R\<close> when it fails.
\<close>

section \<open>Outcomes\<close>

definition ends_well :: "('a \<Rightarrow> 'i indexer \<Rightarrow> bool) \<Rightarrow> ('i indexer \<Rightarrow> bool) \<Rightarrow> (index_error, 'a) res \<times> 'i indexer \<Rightarrow> bool" where
  "ends_well Q R out = (case out of (Inr a, ix) \<Rightarrow> Q a ix | (Inl (Raise e), ix) \<Rightarrow> R ix | (Inl (Panic w), ix) \<Rightarrow> False)"

lemma ends_well_simps [simp]:
  "ends_well Q R (Inr a, ix) = Q a ix" "ends_well Q R (Inl (Raise e), ix) = R ix" "ends_well Q R (Inl (Panic w), ix) = False"
  by (simp_all add: ends_well_def)

lemma ends_well_bind:
  assumes "ends_well Q R (m ix)" "\<And>a ix'. Q a ix' \<Longrightarrow> ends_well S R (f a ix')"
  shows "ends_well S R (bind_op m f ix)"
proof -
  obtain r ix' where m: "m ix = (r, ix')" by fastforce
  show ?thesis
  proof (cases r)
    case (Inl e)
    then show ?thesis using assms(1) m by (cases e) (auto simp: bind_op_def)
  next
    case (Inr a)
    then show ?thesis using assms m by (auto simp: bind_op_def)
  qed
qed

lemma ends_well_mono: "ends_well Q R out \<Longrightarrow> (\<And>a ix. Q a ix \<Longrightarrow> Q' a ix) \<Longrightarrow> (\<And>ix. R ix \<Longrightarrow> R' ix) \<Longrightarrow> ends_well Q' R' out"
  by (auto simp: ends_well_def split: prod.splits sum.splits fault.splits)

lemma ends_well_lift:
  assumes "\<And>w. r \<noteq> Inl (Panic w)" "R ix" "\<And>a. r = Inr a \<Longrightarrow> Q a ix"
  shows "ends_well Q R (lift_op r ix)"
  using assms by (cases r rule: sum.exhaust) (auto simp: lift_op_def ends_well_def split: fault.splits)

section \<open>The environment\<close>

definition embedder_ok :: "embedder \<Rightarrow> bool" where
  "embedder_ok eb \<longleftrightarrow> (\<forall>texts rl. case eb_embed eb texts rl of
      Inr es \<Rightarrow> length es = length texts \<and> (\<forall>e \<in> set es. length (em_vector e) < 2 ^ 32)
    | Inl (Raise e) \<Rightarrow> True | Inl (Panic w) \<Rightarrow> False)"

definition hashes_typed :: "(chunk_record \<times> string) list \<Rightarrow> bool" where
  "hashes_typed cs \<longleftrightarrow> (\<forall>c \<in> set cs. length (rec_content_hash (fst c)) = 32)"

definition env_ok :: "'i index_env \<Rightarrow> ('i \<Rightarrow> document list) \<Rightarrow> ('i \<Rightarrow> document list) \<Rightarrow> bool" where
  "env_ok E staged visible \<longleftrightarrow>
     tantivy_runs (en_engine E) staged visible \<and>
     (\<forall>i. tv_num_docs (en_engine E) i = length (visible i)) \<and>
     embedder_ok (en_embedder E) \<and>
     (\<forall>xs. mset (en_arrival E xs) = mset xs) \<and>
     (case en_chunker E of None \<Rightarrow> True | Some f \<Rightarrow> \<forall>rel l src. hashes_typed (cf_chunks (f rel l src)))"

text \<open>The document a record stands for, whatever its body.\<close>

definition same_docs :: "(nat \<rightharpoonup> chunk_record) \<Rightarrow> (nat \<rightharpoonup> lexical_document) \<Rightarrow> bool" where
  "same_docs g f \<longleftrightarrow> (\<forall>r. map_option (\<lambda>rec. doc_of rec []) (g r) = map_option (\<lambda>d. d\<lparr>ld_body := []\<rparr>) (f r))"

definition synced :: "('i \<Rightarrow> document list) \<Rightarrow> ('i \<Rightarrow> document list) \<Rightarrow> 'i indexer \<Rightarrow> bool" where
  "synced staged visible ix \<longleftrightarrow> store_inv (ix_store ix) \<and> \<not> cs_fail_before_commit (ix_store ix) \<and>
     visible (ix_lexical ix) = staged (ix_lexical ix) \<and>
     (\<exists>f. holds (staged (ix_lexical ix)) f \<and> same_docs (get_row (ix_store ix)) f)"

definition counted :: "index_report \<Rightarrow> 'i indexer \<Rightarrow> bool" where
  "counted report ix \<longleftrightarrow>
     rp_live_before report + rp_chunks_added report = length (live_rows (ix_store ix)) + rp_chunks_removed report"

lemma same_docs_dom: "same_docs g f \<Longrightarrow> dom f = dom g"
proof -
  assume "same_docs g f"
  then have "g r = None \<longleftrightarrow> f r = None" for r by (metis same_docs_def option.map_disc_iff)
  then show ?thesis by (auto simp: dom_def)
qed

lemma same_docs_restrict: "same_docs g f \<Longrightarrow> same_docs (g |` A) (f |` A)"
  by (simp add: same_docs_def restrict_map_def)

lemma doc_of_body [simp]: "(doc_of rec b)\<lparr>ld_body := c\<rparr> = doc_of rec c"
  by (simp add: doc_of_def)

lemma map_of_zip_map: "map_of (zip ks (map h vs)) r = map_option h (map_of (zip ks vs) r)"
proof -
  have "zip ks (map h vs) = map (\<lambda>(k, v). (k, h v)) (zip ks vs)" by (simp add: zip_map2)
  then show ?thesis using map_of_map [of h "zip ks vs"] by simp
qed

lemma same_docs_add:
  assumes "same_docs g f"
  shows "same_docs (g ++ map_of (zip new (map fst items))) (f ++ map_of (zip new (map (\<lambda>(rec, body). doc_of rec body) items)))"
  using assms unfolding same_docs_def map_add_def by (auto simp: map_of_zip_map split: option.splits)

lemma synced_count: "synced staged visible ix \<Longrightarrow> length (staged (ix_lexical ix)) = length (live_rows (ix_store ix))"
  using lm.rows_card same_docs_dom by (force simp: synced_def dest: holds_length)

section \<open>Storing a batch\<close>

text \<open>The paths of the files of a store; the new generation of a compaction is named apart from them.\<close>

lemma insert_batch_paths:
  "insert_batch s cs = (r, s') \<Longrightarrow> cs_db_path s' = cs_db_path s \<and> cs_matrix_path s' = cs_matrix_path s \<and>
     cs_fail_before_commit s' = cs_fail_before_commit s"
  unfolding insert_batch_def Let_def by (auto split: sum.splits prod.splits fault.splits)

lemma fresh_generation_paths:
  "cs_db_path s' = cs_db_path s \<Longrightarrow> cs_matrix_path s' = cs_matrix_path s \<Longrightarrow> fresh_generation s' g = fresh_generation s g"
  by (simp add: fresh_generation_def)

text \<open>What a stored batch leaves: a synced indexer whose old rows are kept and whose new rows have the
  hashes of the batch.\<close>

definition grown :: "('i \<Rightarrow> document list) \<Rightarrow> ('i \<Rightarrow> document list) \<Rightarrow> content_hash set \<Rightarrow> nat \<Rightarrow> 'i indexer \<Rightarrow> 'i indexer \<Rightarrow> bool" where
  "grown staged visible hs n ix ix' \<longleftrightarrow> synced staged visible ix' \<and> ix_config ix' = ix_config ix \<and>
     get_row (ix_store ix) \<subseteq>\<^sub>m get_row (ix_store ix') \<and>
     rec_content_hash ` ran (get_row (ix_store ix')) \<subseteq> rec_content_hash ` ran (get_row (ix_store ix)) \<union> hs \<and>
     length (store_view (ix_store ix')) \<le> length (store_view (ix_store ix)) + n \<and>
     cs_db_path (ix_store ix') = cs_db_path (ix_store ix) \<and> cs_matrix_path (ix_store ix') = cs_matrix_path (ix_store ix)"

lemma insert_view_length:
  assumes "store_inv s" "batch_commits s cs" "insert_batch s cs = (Inr new, s')"
  shows "length (store_view s') \<le> length (store_view s) + length cs"
proof -
  obtain rows V where sp: "spec_insert (store_view s) cs = (rows, V)" by fastforce
  from st.ins_law [OF assms(1,2) sp] assms(3) have "store_view s' = V" by auto
  then show ?thesis using spec_insert_appends [OF sp] by auto
qed

lemma store_batch:
  assumes env: "env_ok E staged visible" and sy: "synced staged visible ix"
    and ok: "batch_commits (ix_store ix) batch" and items: "map fst batch = map fst items"
    and d: "distinct (chunk_hashes items)"
    and n: "\<And>rec. rec \<in> ran (get_row (ix_store ix)) \<Longrightarrow> rec_content_hash rec \<notin> set (chunk_hashes items)"
  shows "\<exists>new s i1 i2. insert_batch (ix_store ix) batch = (Inr new, s) \<and>
     add_batch (en_engine E) (zip new (map (\<lambda>(rec, body). doc_of rec body) items)) (ix_lexical ix) = (Inr (), i1) \<and>
     lexical_commit (en_engine E) i1 = (Inr (), i2) \<and>
     length (live_rows s) = length (live_rows (ix_store ix)) + length batch \<and>
     grown staged visible (set (chunk_hashes items)) (length batch) ix (ix\<lparr>ix_store := s, ix_lexical := i2\<rparr>)"
proof -
  let ?s = "ix_store ix" and ?T = "en_engine E"
  have T: "tantivy_runs ?T staged visible" using env by (simp add: env_ok_def)
  obtain f where s: "store_inv ?s" "\<not> cs_fail_before_commit ?s" and f: "holds (staged (ix_lexical ix)) f" "same_docs (get_row ?s) f"
    using sy by (auto simp: synced_def)
  have hs: "map (rec_content_hash \<circ> fst) batch = chunk_hashes items"
    using arg_cong [OF items, of "map rec_content_hash"] by (simp add: chunk_hashes_def)
  have "rec_content_hash ` fst ` set batch = set (chunk_hashes items)"
    using arg_cong [OF hs, of set] by (simp add: image_comp)
  then have "\<exists>new s'. insert_batch ?s batch = (Inr new, s') \<and> store_inv s' \<and> length new = length batch \<and> distinct new \<and>
      set new \<inter> dom (get_row ?s) = {} \<and> get_row s' = get_row ?s ++ map_of (zip new (map fst batch))"
    by (intro lm.ins_get [OF s(1) ok]) (use d n hs in \<open>auto simp: ran_def\<close>)
  then obtain new s' where b: "insert_batch ?s batch = (Inr new, s')" "store_inv s'" "length new = length batch" "distinct new"
    "set new \<inter> dom (get_row ?s) = {}" "get_row s' = get_row ?s ++ map_of (zip new (map fst items))"
    using items by auto
  have len: "length new = length items" using b(3) arg_cong [OF items, of length] by simp
  let ?docs = "zip new (map (\<lambda>(rec, body). doc_of rec body) items)"
  obtain i1 where i1: "add_batch ?T ?docs (ix_lexical ix) = (Inr (), i1)" "holds (staged i1) (f ++ map_of (rev ?docs))"
    using add_batch_holds [OF T f(1)] by blast
  have "distinct (map fst ?docs)" using b(4) len by simp
  then have "map_of (rev ?docs) = map_of ?docs" by (subst map_of_inject_set) (simp_all add: rev_map [symmetric])
  then have h1: "holds (staged i1) (f ++ map_of ?docs)" using i1(2) by simp
  obtain i2 where i2: "lexical_commit ?T i1 = (Inr (), i2)" "staged i2 = staged i1" "visible i2 = staged i1"
    using tantivy_commit [OF T] by blast
  have "same_docs (get_row s') (f ++ map_of ?docs)" unfolding b(6) by (rule same_docs_add [OF f(2)])
  then have "synced staged visible (ix\<lparr>ix_store := s', ix_lexical := i2\<rparr>)"
    using b(1,2) h1 i2 s(2) insert_batch_paths [OF b(1)] by (auto simp: synced_def)
  moreover have "get_row ?s \<subseteq>\<^sub>m get_row s'"
  proof (unfold map_le_def, intro ballI)
    fix r assume "r \<in> dom (get_row ?s)"
    then have "r \<notin> set new" using b(5) by blast
    then have "map_of (zip new (map fst items)) r = None" using len by (simp add: map_of_zip_is_None)
    then show "get_row ?s r = get_row s' r" by (simp add: b(6) map_add_def)
  qed
  moreover have "rec_content_hash ` ran (get_row s') \<subseteq> rec_content_hash ` ran (get_row ?s) \<union> set (chunk_hashes items)"
  proof -
    have "rec \<in> ran (get_row ?s) \<or> rec \<in> fst ` set items" if "rec \<in> ran (get_row s')" for rec
      using that by (auto simp: b(6) ran_def map_add_Some_iff dest!: map_of_SomeD set_zip_rightD)
    then show ?thesis by (force simp: chunk_hashes_def)
  qed
  moreover have "length (live_rows s') = length (live_rows ?s) + length batch"
    by (rule lm.ins_count [OF s(1) b(2,3,4,5)]) (use b(6) items in simp)
  ultimately show ?thesis
    using b(1) i1(1) i2(1) insert_batch_paths [OF b(1)] insert_view_length [OF s(1) ok b(1)]
    by (intro exI [of _ new] exI [of _ s'] exI [of _ i1] exI [of _ i2]) (simp add: grown_def)
qed

section \<open>Flushing\<close>

lemma unique_items_id:
  "distinct (chunk_hashes items) \<Longrightarrow> set (chunk_hashes items) \<inter> set seen = {} \<Longrightarrow> unique_items seen items = items"
proof (induction items arbitrary: seen)
  case (Cons c items)
  from Cons.IH [of "rec_content_hash (fst c) # seen"] Cons.prems show ?case by (auto simp: chunk_hashes_def)
qed simp

lemma insert_wrong_dims:
  assumes "store_inv s" "\<forall>c \<in> set cs. length (snd c) < 2 ^ 32" "\<exists>c \<in> set cs. length (snd c) \<noteq> store_dims s"
  shows "\<exists>e. insert_batch s cs = (Inl (Raise e), s)"
proof -
  obtain m where m: "cs_matrix s = Some m" using assms(1) by (auto elim: store_invE)
  from check_dims_error [OF assms(2,3)] show ?thesis
    by (auto simp: insert_batch_def matrix_ref_def m store_dims_def)
qed

lemma batch_commitsI:
  "\<forall>c \<in> set cs. length (snd c) = store_dims s \<Longrightarrow> \<forall>c \<in> set cs. length (rec_content_hash (fst c)) = 32 \<Longrightarrow>
   length (store_view s) + length cs < 2 ^ 63 \<Longrightarrow> \<not> cs_fail_before_commit s \<Longrightarrow> batch_commits s cs"
  by (auto simp: batch_commits_def batch_ok_def)

lemma grown_refl: "synced staged visible ix \<Longrightarrow> grown staged visible {} 0 ix ix"
  by (auto simp: grown_def)

lemma finish_flush_ok:
  assumes "grown staged visible hs n ix ix1" "counted (report\<lparr>rp_chunks_added := rp_chunks_added report + k\<rparr>) ix1"
  shows "ends_well (\<lambda>r ix'. grown staged visible hs n ix ix' \<and> counted r ix') (synced staged visible) (finish_flush k report ix1)"
  using assms by (auto simp: finish_flush_def Let_def grown_def synced_def counted_def split: option.splits)

lemma flush_batch_ok:
  assumes env: "env_ok E staged visible" and sy: "synced staged visible ix" and c: "counted report ix"
    and d: "distinct (chunk_hashes pending)" and t: "hashes_typed pending"
    and n: "\<And>rec. rec \<in> ran (get_row (ix_store ix)) \<Longrightarrow> rec_content_hash rec \<notin> set (chunk_hashes pending)"
    and fit: "length (store_view (ix_store ix)) + length pending < 2 ^ 63"
  shows "ends_well (\<lambda>r ix'. grown staged visible (set (chunk_hashes pending)) (length pending) ix ix' \<and> counted r ix')
     (synced staged visible) (flush_batch E pending report ix)"
proof (cases "pending = []")
  case True
  then show ?thesis using sy c by (auto simp: flush_batch_def ret_op_def chunk_hashes_def grown_def)
next
  case False
  have u: "unique_items [] pending = pending" by (rule unique_items_id) (use d in auto)
  have eo: "embedder_ok (en_embedder E)" using env by (simp add: env_ok_def)
  show ?thesis
  proof (cases "eb_embed (en_embedder E) (map snd pending) Document")
    case (Inl e)
    then show ?thesis using False sy eo
      by (cases e) (auto simp: flush_batch_def u bind_op_def lift_op_def embedder_ok_def split: sum.splits fault.splits dest!: spec)
  next
    case (Inr es)
    have es: "length es = length pending" "\<forall>e \<in> set es. length (em_vector e) < 2 ^ 32"
      using eo Inr by (force simp: embedder_ok_def split: sum.splits dest!: spec [of _ "map snd pending"])+
    let ?batch = "map (\<lambda>((rec, _), emb). (rec, em_vector emb)) (zip pending es)"
    let ?report = "report\<lparr>rp_chunks_truncated := rp_chunks_truncated report + length (filter em_truncated es)\<rparr>"
    have fb: "flush_batch E pending report ix =
      bind_op (store_op (\<lambda>s. insert_batch s ?batch)) (\<lambda>ids.
      bind_op (lexical_op (add_batch (en_engine E) (zip ids (map (\<lambda>(rec, body). doc_of rec body) pending)))) (\<lambda>_.
      bind_op (lexical_op (lexical_commit (en_engine E))) (\<lambda>_. finish_flush (length ?batch) ?report))) ix"
      using False Inr es(1) by (simp add: flush_batch_def u bind_op_def [of "lift_op _"] lift_op_def Let_def)
    have sm: "\<forall>c \<in> set ?batch. length (snd c) < 2 ^ 32" using es(2) by (auto dest!: set_zip_rightD)
    have mb: "map fst ?batch = map fst pending"
    proof -
      have "map fst ?batch = map fst (map fst (zip pending es))" by (auto simp: case_prod_unfold)
      then show ?thesis using map_fst_zip [OF es(1) [symmetric]] by simp
    qed
    have s: "store_inv (ix_store ix)" "\<not> cs_fail_before_commit (ix_store ix)" using sy by (auto simp: synced_def)
    show ?thesis
    proof (cases "\<exists>c \<in> set ?batch. length (snd c) \<noteq> store_dims (ix_store ix)")
      case True
      from insert_wrong_dims [OF s(1) sm True] show ?thesis
        unfolding fb using sy by (auto simp: bind_op_def [of "store_op _"] store_op_def)
    next
      case False
      have h32: "length (rec_content_hash (fst c)) = 32" if "c \<in> set ?batch" for c
      proof -
        have "fst c \<in> set (map fst ?batch)" using imageI [OF that, of fst] by (simp only: set_map)
        then show ?thesis unfolding mb using t by (auto simp: hashes_typed_def)
      qed
      have "length ?batch = length pending" using es(1) by simp
      then have "batch_commits (ix_store ix) ?batch"
        by (intro batch_commitsI ballI) (use False s(2) fit h32 in \<open>blast | simp\<close>)+
      from store_batch [OF env sy this mb d n] obtain new s' i1 i2 where b:
        "insert_batch (ix_store ix) ?batch = (Inr new, s')"
        "add_batch (en_engine E) (zip new (map (\<lambda>(rec, body). doc_of rec body) pending)) (ix_lexical ix) = (Inr (), i1)"
        "lexical_commit (en_engine E) i1 = (Inr (), i2)"
        "length (live_rows s') = length (live_rows (ix_store ix)) + length ?batch"
        "grown staged visible (set (chunk_hashes pending)) (length ?batch) ix (ix\<lparr>ix_store := s', ix_lexical := i2\<rparr>)"
        by blast
      have "flush_batch E pending report ix = finish_flush (length ?batch) ?report (ix\<lparr>ix_store := s', ix_lexical := i2\<rparr>)"
        unfolding fb by (simp add: bind_op_def store_op_def lexical_op_def b(1,2,3))
      moreover have "counted (?report\<lparr>rp_chunks_added := rp_chunks_added ?report + length ?batch\<rparr>)
          (ix\<lparr>ix_store := s', ix_lexical := i2\<rparr>)"
        using c b(4) by (simp add: counted_def)
      ultimately show ?thesis using finish_flush_ok [OF b(5), of ?report "length ?batch"] es(1) by simp
    qed
  qed
qed

end
