(* ===== verification/Pipeline_Correct.thy ===== *)
theory Pipeline_Correct
  imports Pipeline_Sync
begin

text \<open>
  Every run of the indexing pipeline, full or incremental, successful or not, leaves store and lexical
  index in step, and its report accounts for every live row.
\<close>

section \<open>Dropping rows\<close>

definition shrunk :: "('i \<Rightarrow> document list) \<Rightarrow> ('i \<Rightarrow> document list) \<Rightarrow> nat list \<Rightarrow> 'i indexer \<Rightarrow> 'i indexer \<Rightarrow> bool" where
  "shrunk staged visible rows ix ix' \<longleftrightarrow> synced staged visible ix' \<and> ix_config ix' = ix_config ix \<and>
     get_row (ix_store ix') = get_row (ix_store ix) |` (- set rows) \<and>
     length (live_rows (ix_store ix')) + length rows = length (live_rows (ix_store ix)) \<and>
     length (store_view (ix_store ix')) = length (store_view (ix_store ix)) \<and>
     cs_db_path (ix_store ix') = cs_db_path (ix_store ix) \<and> cs_matrix_path (ix_store ix') = cs_matrix_path (ix_store ix)"

lemma tombstone_fields:
  "cs_db_path (tombstone s rows) = cs_db_path s" "cs_matrix_path (tombstone s rows) = cs_matrix_path s"
  "cs_fail_before_commit (tombstone s rows) = cs_fail_before_commit s"
  by (simp_all add: tombstone_def)

lemma drop_rows:
  assumes env: "env_ok E staged visible" and sy: "synced staged visible ix"
    and rows: "distinct rows" "set rows \<subseteq> dom (get_row (ix_store ix))"
  shows "\<exists>ix'. bind_op (pure_store (\<lambda>s. tombstone s rows)) (\<lambda>_.
       bind_op (lexical_op (remove_rows (en_engine E) rows)) (\<lambda>_.
       bind_op (lexical_op (lexical_commit (en_engine E))) (\<lambda>_. ret_op a))) ix = (Inr a, ix') \<and>
     shrunk staged visible rows ix ix'"
proof -
  let ?s = "ix_store ix" and ?T = "en_engine E"
  have T: "tantivy_runs ?T staged visible" using env by (simp add: env_ok_def)
  obtain f where s: "store_inv ?s" "\<not> cs_fail_before_commit ?s" and f: "holds (staged (ix_lexical ix)) f" "same_docs (get_row ?s) f"
    using sy by (auto simp: synced_def)
  obtain i1 where i1: "remove_rows ?T rows (ix_lexical ix) = (Inr (), i1)" "holds (staged i1) (f |` (- set rows))"
    using remove_rows_holds [OF T f(1)] by blast
  obtain i2 where i2: "lexical_commit ?T i1 = (Inr (), i2)" "staged i2 = staged i1" "visible i2 = staged i1"
    using tantivy_commit [OF T] by blast
  have g: "store_inv (tombstone ?s rows)" "get_row (tombstone ?s rows) = get_row ?s |` (- set rows)"
    using lm.tomb_get [OF s(1)] by auto
  have "length (store_view (tombstone ?s rows)) = length (store_view ?s)"
    using tombstone_ok(2) [OF s(1), of rows] by (simp add: spec_tombstone_def)
  then have "shrunk staged visible rows ix (ix\<lparr>ix_store := tombstone ?s rows, ix_lexical := i2\<rparr>)"
    using g i1(2) i2 s(2) same_docs_restrict [OF f(2), of "- set rows"] lm.tomb_count [OF s(1) rows]
    by (auto simp: shrunk_def synced_def tombstone_fields)
  then show ?thesis
    by (intro exI [of _ "ix\<lparr>ix_store := tombstone ?s rows, ix_lexical := i2\<rparr>"])
       (simp add: bind_op_def pure_store_def lexical_op_def ret_op_def i1(1) i2(1))
qed

section \<open>The invariant of a run\<close>

text \<open>\<open>N\<close> bounds the chunks still to come; \<open>olds\<close> are the rows of the files still to come, as they were
  found before parsing.\<close>

definition run_ok :: "('i \<Rightarrow> document list) \<Rightarrow> ('i \<Rightarrow> document list) \<Rightarrow> string \<Rightarrow> nat \<Rightarrow> (string \<times> content_hash \<times> nat) set \<Rightarrow>
    content_hash list \<Rightarrow> (chunk_record \<times> string) list \<Rightarrow> index_report \<Rightarrow> 'i indexer \<Rightarrow> bool" where
  "run_ok staged visible gen N olds known pending report ix \<longleftrightarrow>
     synced staged visible ix \<and> fresh_generation (ix_store ix) gen \<and> counted report ix \<and>
     rec_content_hash ` ran (get_row (ix_store ix)) \<subseteq> set known \<and> set (chunk_hashes pending) \<subseteq> set known \<and>
     distinct (chunk_hashes pending) \<and> hashes_typed pending \<and>
     rec_content_hash ` ran (get_row (ix_store ix)) \<inter> set (chunk_hashes pending) = {} \<and>
     length (store_view (ix_store ix)) + length pending + N < 2 ^ 63 \<and>
     (\<forall>(rel, h, r) \<in> olds. \<exists>rec. get_row (ix_store ix) r = Some rec \<and> rec_content_hash rec = h \<and> rec_file rec = rel)"

lemma run_okD:
  assumes "run_ok staged visible gen N olds known pending report ix"
  shows "synced staged visible ix" "fresh_generation (ix_store ix) gen" "counted report ix"
    "rec_content_hash ` ran (get_row (ix_store ix)) \<subseteq> set known" "set (chunk_hashes pending) \<subseteq> set known"
    "distinct (chunk_hashes pending)" "hashes_typed pending"
    "rec_content_hash ` ran (get_row (ix_store ix)) \<inter> set (chunk_hashes pending) = {}"
    "length (store_view (ix_store ix)) + length pending + N < 2 ^ 63"
    "\<And>rel h r. (rel, h, r) \<in> olds \<Longrightarrow> \<exists>rec. get_row (ix_store ix) r = Some rec \<and> rec_content_hash rec = h \<and> rec_file rec = rel"
  using assms by (auto simp: run_ok_def)

lemma run_ok_report:
  assumes "run_ok staged visible gen N olds known pending report ix"
    "rp_live_before r = rp_live_before report" "rp_chunks_added r = rp_chunks_added report"
    "rp_chunks_removed r = rp_chunks_removed report" "M \<le> N" "olds' \<subseteq> olds"
  shows "run_ok staged visible gen M olds' known pending r ix"
  using assms unfolding run_ok_def counted_def by auto

lemma run_ok_push:
  assumes "run_ok staged visible gen (Suc N) olds known pending report ix"
    "rec_content_hash (fst item) \<notin> set known" "length (rec_content_hash (fst item)) = 32"
  shows "run_ok staged visible gen N olds (rec_content_hash (fst item) # known) (pending @ [item]) report ix"
  using assms unfolding run_ok_def by (auto simp: chunk_hashes_def hashes_typed_def)

text \<open>A full batch is flushed and the loop goes on with an empty one.\<close>

lemma run_ok_flush:
  assumes env: "env_ok E staged visible" and ok: "run_ok staged visible gen N olds known pending report ix"
  shows "ends_well (\<lambda>r ix'. run_ok staged visible gen N olds known [] r ix') (synced staged visible) (flush_batch E pending report ix)"
proof -
  note o = run_okD [OF ok]
  have n: "rec_content_hash rec \<notin> set (chunk_hashes pending)" if "rec \<in> ran (get_row (ix_store ix))" for rec
    using o(8) that by blast
  have "ends_well (\<lambda>r ix'. grown staged visible (set (chunk_hashes pending)) (length pending) ix ix' \<and> counted r ix')
     (synced staged visible) (flush_batch E pending report ix)"
    by (rule flush_batch_ok [OF env o(1,3,6,7)]) (use n o(9) in auto)
  then show ?thesis
  proof (rule ends_well_mono)
    fix r ix' assume g: "grown staged visible (set (chunk_hashes pending)) (length pending) ix ix' \<and> counted r ix'"
    have le: "get_row (ix_store ix) \<subseteq>\<^sub>m get_row (ix_store ix')" using g by (simp add: grown_def)
    have "\<exists>rec. get_row (ix_store ix') q = Some rec \<and> rec_content_hash rec = h \<and> rec_file rec = rel"
      if "(rel, h, q) \<in> olds" for rel h q
      using o(10) [OF that] le by (metis domI map_le_def)
    moreover have "fresh_generation (ix_store ix') gen"
      using o(2) g fresh_generation_paths [of "ix_store ix'" "ix_store ix" gen] by (simp add: grown_def)
    moreover have "rec_content_hash ` ran (get_row (ix_store ix')) \<subseteq> set known"
      using g o(4,5) unfolding grown_def by blast
    ultimately show "run_ok staged visible gen N olds known [] r ix'"
      using g o(9) by (auto simp: run_ok_def grown_def chunk_hashes_def hashes_typed_def)
  qed
qed

lemma consume_chunks_ok:
  assumes env: "env_ok E staged visible"
    and "run_ok staged visible gen (length chunks + N) olds known pending report ix" "hashes_typed chunks"
  shows "ends_well (\<lambda>(known, pending, report) ix'. run_ok staged visible gen N olds known pending report ix')
     (synced staged visible) (consume_chunks E old chunks known pending report ix)"
  using assms(2,3)
proof (induction chunks arbitrary: known pending report ix)
  case (Cons item chunks)
  let ?h = "rec_content_hash (fst item)"
  have t: "length ?h = 32" "hashes_typed chunks" using Cons.prems(2) by (auto simp: hashes_typed_def)
  show ?case
  proof (cases "?h \<in> set (map fst old) \<or> ?h \<in> set known")
    case True
    have "run_ok staged visible gen (length chunks + N) olds known pending
        (report\<lparr>rp_chunks_reused := rp_chunks_reused report + 1\<rparr>) ix"
      by (rule run_ok_report [OF Cons.prems(1)]) auto
    from Cons.IH [OF this t(2)] True show ?thesis by (simp del: set_map)
  next
    case False
    then have p: "run_ok staged visible gen (length chunks + N) olds (?h # known) (pending @ [item]) report ix"
      using run_ok_push [of staged visible gen "length chunks + N"] Cons.prems(1) t(1) by simp
    show ?thesis
    proof (cases "embed_batch (ix_config ix) \<le> length (pending @ [item])")
      case True
      have "ends_well (\<lambda>(known, pending, report) ix'. run_ok staged visible gen N olds known pending report ix')
         (synced staged visible) (bind_op (flush_batch E (pending @ [item]) report)
           (\<lambda>report. consume_chunks E old chunks (?h # known) [] report) ix)"
        by (rule ends_well_bind, rule run_ok_flush [OF env p]) (rule Cons.IH [OF _ t(2)])
      then show ?thesis using True False by (simp del: set_map)
    next
      case batch: False
      from Cons.IH [OF p t(2)] show ?thesis using False batch by (simp del: set_map)
    qed
  qed
qed simp

section \<open>Files\<close>

definition total_chunks :: "parsed_file list \<Rightarrow> nat" where
  "total_chunks files = sum_list (map (\<lambda>p. case p of POk rel chunks \<Rightarrow> length chunks | _ \<Rightarrow> 0) files)"

definition parsed_rels :: "parsed_file list \<Rightarrow> string list" where
  "parsed_rels files = concat (map (\<lambda>p. case p of POk rel chunks \<Rightarrow> [rel] | _ \<Rightarrow> []) files)"

definition old_rows :: "(string \<times> (content_hash \<times> nat) list) list \<Rightarrow> string list \<Rightarrow> (string \<times> content_hash \<times> nat) set" where
  "old_rows existing rels = {(rel, h, r). rel \<in> set rels \<and> (h, r) \<in> set (old_of existing rel)}"

definition files_typed :: "parsed_file list \<Rightarrow> bool" where
  "files_typed files \<longleftrightarrow> (\<forall>rel chunks. POk rel chunks \<in> set files \<longrightarrow> hashes_typed chunks)"

lemma distinct_old_rows:
  assumes "\<And>h r. (h, r) \<in> set old \<Longrightarrow> \<exists>rec. get r = Some rec \<and> rec_content_hash rec = h" "distinct (map fst old)"
  shows "distinct (map snd (filter P old))"
proof -
  have "inj_on snd (set old)"
  proof (rule inj_onI)
    fix x y assume xy: "x \<in> set old" "y \<in> set old" "snd x = snd y"
    have "(fst x, snd x) \<in> set old" "(fst y, snd x) \<in> set old"
      using xy(1) by simp (simp add: xy(2,3))
    then have "fst x = fst y" using assms(1) [of "fst x" "snd x"] assms(1) [of "fst y" "snd x"] by auto
    then show "x = y" using xy(3) by (simp add: prod_eq_iff)
  qed
  moreover have "distinct old" using assms(2) by (simp add: distinct_map)
  ultimately show ?thesis by (simp add: distinct_map inj_on_subset)
qed

lemma remove_vanished_ok:
  assumes env: "env_ok E staged visible" and ok: "run_ok staged visible gen N (old_rows existing (rel # rels)) known pending report ix"
    and old: "distinct (map fst (old_of existing rel))" "rel \<notin> set rels"
    and rows: "rows = map snd (filter P (old_of existing rel))"
  shows "ends_well (\<lambda>r ix'. run_ok staged visible gen N (old_rows existing rels) known pending r ix') (synced staged visible)
     (remove_vanished E rows report ix)"
proof -
  note o = run_okD [OF ok]
  have orow: "\<exists>rec. get_row (ix_store ix) r = Some rec \<and> rec_content_hash rec = h \<and> rec_file rec = rel'"
    if "rel' \<in> set (rel # rels)" "(h, r) \<in> set (old_of existing rel')" for rel' h r
    using o(10) that by (auto simp: old_rows_def)
  have sub: "old_rows existing rels \<subseteq> old_rows existing (rel # rels)" by (auto simp: old_rows_def)
  show ?thesis
  proof (cases "rows = []")
    case True
    then show ?thesis using run_ok_report [OF ok refl refl refl le_refl sub] by (simp add: remove_vanished_def ret_op_def)
  next
    case False
    have "\<exists>rec. get_row (ix_store ix) r = Some rec \<and> rec_content_hash rec = h" if "(h, r) \<in> set (old_of existing rel)" for h r
      using orow [of rel h r] that by auto
    then have d: "distinct rows" unfolding rows by (rule distinct_old_rows [OF _ old(1)])
    have live: "\<exists>rec. get_row (ix_store ix) r = Some rec \<and> rec_file rec = rel" if "r \<in> set rows" for r
      using that orow by (force simp: rows)
    then have sub2: "set rows \<subseteq> dom (get_row (ix_store ix))" by blast
    let ?r = "report\<lparr>rp_chunks_removed := rp_chunks_removed report + length rows\<rparr>"
    from drop_rows [OF env o(1) d sub2, of ?r] obtain ix' where
      ix': "remove_vanished E rows report ix = (Inr ?r, ix')" "shrunk staged visible rows ix ix'"
      using False by (auto simp: remove_vanished_def)
    have g: "get_row (ix_store ix') = get_row (ix_store ix) |` (- set rows)" using ix'(2) by (simp add: shrunk_def)
    have "\<exists>rec. get_row (ix_store ix') q = Some rec \<and> rec_content_hash rec = h \<and> rec_file rec = rel'"
      if "(rel', h, q) \<in> old_rows existing rels" for rel' h q
    proof -
      have "rel' \<in> set rels" "(h, q) \<in> set (old_of existing rel')" using that by (auto simp: old_rows_def)
      then obtain rec where rec: "get_row (ix_store ix) q = Some rec" "rec_content_hash rec = h" "rec_file rec = rel'"
        using orow [of rel'] by auto
      then have "q \<notin> set rows" using live [of q] old(2) \<open>rel' \<in> set rels\<close> by auto
      then show ?thesis using rec by (simp add: g)
    qed
    moreover have "ran (get_row (ix_store ix')) \<subseteq> ran (get_row (ix_store ix))"
      unfolding g by (auto simp: ran_def restrict_map_def split: if_splits)
    moreover have "counted ?r ix'" using o(3) ix'(2) by (simp add: counted_def shrunk_def)
    moreover have "fresh_generation (ix_store ix') gen"
      using o(2) ix'(2) fresh_generation_paths [of "ix_store ix'" "ix_store ix" gen] by (simp add: shrunk_def)
    moreover from calculation(2) have
      "rec_content_hash ` ran (get_row (ix_store ix')) \<subseteq> rec_content_hash ` ran (get_row (ix_store ix))" by (rule image_mono)
    then have "rec_content_hash ` ran (get_row (ix_store ix')) \<subseteq> set known"
      "rec_content_hash ` ran (get_row (ix_store ix')) \<inter> set (chunk_hashes pending) = {}" using o(4,8) by blast+
    ultimately have "run_ok staged visible gen N (old_rows existing rels) known pending ?r ix'"
      using o(5,6,7,9) ix'(2) unfolding run_ok_def by (simp add: shrunk_def) blast
    then show ?thesis by (simp add: ix'(1))
  qed
qed

lemma consume_files_ok:
  assumes env: "env_ok E staged visible"
    and "run_ok staged visible gen (total_chunks files) (old_rows existing (parsed_rels files)) known pending report ix"
    "files_typed files" "distinct (parsed_rels files)" "\<And>rel. distinct (map fst (old_of existing rel))"
  shows "ends_well (\<lambda>(pending, report) ix'. \<exists>known. run_ok staged visible gen 0 {} known pending report ix')
     (synced staged visible) (consume_files E existing files known pending report ix)"
  using assms(2-4)
proof (induction files arbitrary: known pending report ix)
  case Nil
  from Nil.prems(1) have "run_ok staged visible gen 0 {} known pending report ix" by (rule run_ok_report) (auto simp: total_chunks_def)
  then show ?case by auto
next
  case (Cons p files)
  show ?case
  proof (cases p)
    case Unparsed
    have "run_ok staged visible gen (total_chunks files) (old_rows existing (parsed_rels files)) known pending
        (report\<lparr>rp_files_unparsed := rp_files_unparsed report + 1\<rparr>) ix"
      by (rule run_ok_report [OF Cons.prems(1)]) (auto simp: Unparsed total_chunks_def parsed_rels_def)
    from Cons.IH [OF this] Cons.prems(2,3) show ?thesis by (simp add: Unparsed files_typed_def parsed_rels_def)
  next
    case (SkipIdentical n)
    have "run_ok staged visible gen (total_chunks files) (old_rows existing (parsed_rels files)) known pending
        (report\<lparr>rp_files_indexed := rp_files_indexed report + 1, rp_chunks_reused := rp_chunks_reused report + n\<rparr>) ix"
      by (rule run_ok_report [OF Cons.prems(1)]) (auto simp: SkipIdentical total_chunks_def parsed_rels_def)
    from Cons.IH [OF this] Cons.prems(2,3) show ?thesis by (simp add: SkipIdentical files_typed_def parsed_rels_def)
  next
    case (POk rel chunks)
    let ?report = "report\<lparr>rp_files_indexed := rp_files_indexed report + 1\<rparr>"
    have rels: "parsed_rels (p # files) = rel # parsed_rels files" "total_chunks (p # files) = length chunks + total_chunks files"
      by (simp_all add: POk parsed_rels_def total_chunks_def)
    have t: "hashes_typed chunks" "files_typed files" using Cons.prems(2) by (auto simp: files_typed_def POk)
    have d: "distinct (parsed_rels files)" "rel \<notin> set (parsed_rels files)" using Cons.prems(3) rels(1) by auto
    have "run_ok staged visible gen (length chunks + total_chunks files) (old_rows existing (rel # parsed_rels files)) known pending
        ?report ix"
      by (rule run_ok_report [OF Cons.prems(1)]) (auto simp: rels)
    note rv = remove_vanished_ok [OF env this assms(5) d(2) refl]
    let ?S = "\<lambda>(pending, report) ix'. \<exists>known. run_ok staged visible gen 0 {} known pending report ix'"
    have rest: "ends_well ?S (synced staged visible) (bind_op (consume_chunks E (old_of existing rel) chunks known pending r)
        (\<lambda>(known, pending, report). consume_files E existing files known pending report) ix1)"
      if r: "run_ok staged visible gen (length chunks + total_chunks files) (old_rows existing (parsed_rels files)) known pending r ix1"
      for r ix1
    proof (rule ends_well_bind, rule consume_chunks_ok [OF env r t(1)])
      fix a ix'
      assume "(case a of (known, pending, report) \<Rightarrow> \<lambda>ix'. run_ok staged visible gen (total_chunks files)
         (old_rows existing (parsed_rels files)) known pending report ix') ix'"
      then show "ends_well ?S (synced staged visible)
          ((case a of (known, pending, report) \<Rightarrow> consume_files E existing files known pending report) ix')"
        using Cons.IH [OF _ t(2) d(1)] by (cases a) auto
    qed
    show ?thesis unfolding POk consume_files.simps Let_def
      by (rule ends_well_bind, rule rv) (rule rest)
  qed
qed

section \<open>Processing work\<close>

lemma file_hashes_ok:
  assumes "store_inv s"
  shows "distinct (map fst (file_hashes s rel))"
    "(h, r) \<in> set (file_hashes s rel) \<Longrightarrow> \<exists>rec. get_row s r = Some rec \<and> rec_content_hash rec = h \<and> rec_file rec = rel"
proof -
  let ?step = "\<lambda>r m. case get_row s r of Some rec \<Rightarrow> AList.update (rec_content_hash rec) r m | None \<Rightarrow> m"
  have inv: "distinct (map fst m) \<and> (\<forall>(h, r) \<in> set m. r \<in> R \<and> (\<exists>rec. get_row s r = Some rec \<and> rec_content_hash rec = h)) \<Longrightarrow>
      set rows \<subseteq> R \<Longrightarrow> distinct (map fst (fold ?step rows m)) \<and>
      (\<forall>(h, r) \<in> set (fold ?step rows m). r \<in> R \<and> (\<exists>rec. get_row s r = Some rec \<and> rec_content_hash rec = h))" for rows m R
  proof (induction rows arbitrary: m)
    case (Cons q rows)
    show ?case
    proof (cases "get_row s q")
      case (Some rec)
      let ?m = "AList.update (rec_content_hash rec) q m"
      have "set ?m \<subseteq> insert (rec_content_hash rec, q) (set m)" by (induction m) auto
      then have "\<forall>(h, r) \<in> set ?m. r \<in> R \<and> (\<exists>rec. get_row s r = Some rec \<and> rec_content_hash rec = h)"
        using Cons.prems Some by auto
      moreover have "distinct (map fst ?m)" using Cons.prems(1) by (simp add: distinct_update)
      ultimately show ?thesis using Cons.IH [of ?m] Cons.prems(2) Some by simp
    qed (use Cons in auto)
  qed simp
  from inv [of "[]" "set (rows_for_file s rel)" "rows_for_file s rel"]
  have f: "distinct (map fst (file_hashes s rel))"
    "\<forall>(h, r) \<in> set (file_hashes s rel). r \<in> set (rows_for_file s rel) \<and> (\<exists>rec. get_row s r = Some rec \<and> rec_content_hash rec = h)"
    by (simp_all add: file_hashes_def)
  show "distinct (map fst (file_hashes s rel))" by (rule f)
  show "\<exists>rec. get_row s r = Some rec \<and> rec_content_hash rec = h \<and> rec_file rec = rel" if "(h, r) \<in> set (file_hashes s rel)"
    using that f(2) rows_for_file_live(2) [OF assms, of r rel] by auto
qed

lemma existing_old: "old_of (existing_hashes s work) rel = (if rel \<in> wi_rel ` set work then file_hashes s rel else [])"
proof -
  have "map_of (fold (\<lambda>item. AList.update (wi_rel item) (file_hashes s (wi_rel item))) work m) rel =
     (if rel \<in> wi_rel ` set work then Some (file_hashes s rel) else map_of m rel)" for m
    by (induction work arbitrary: m) (auto simp: update_conv')
  then show ?thesis by (simp add: old_of_def existing_hashes_def)
qed

lemma known_hashes_set:
  assumes "store_inv s"
  shows "set (known_hashes s) = rec_content_hash ` ran (get_row s)"
proof -
  have "set (fold (\<lambda>r hs. case get_row s r of Some rec \<Rightarrow> rec_content_hash rec # hs | None \<Rightarrow> hs) rows hs) =
     set hs \<union> {rec_content_hash rec |r rec. r \<in> set rows \<and> get_row s r = Some rec}" for rows hs
    by (induction rows arbitrary: hs) (auto split: option.splits)
  moreover have "set (live_rows s) = dom (get_row s)" using get_row_dom [OF assms] by simp
  ultimately show ?thesis by (auto simp: known_hashes_def ran_def)
qed

lemma parse_item_rel: "parse_item E existing item = POk rel chunks \<Longrightarrow> rel = wi_rel item"
  by (auto simp: parse_item_def Let_def split: option.splits if_splits)

lemma parsed_rels_work:
  assumes "distinct (map wi_rel work)"
  shows "set (parsed_rels (map (parse_item E existing) work)) \<subseteq> wi_rel ` set work \<and>
     distinct (parsed_rels (map (parse_item E existing) work))"
  using assms
proof (induction work)
  case (Cons w work)
  have "parsed_rels (map (parse_item E existing) (w # work)) =
     (case parse_item E existing w of POk rel chunks \<Rightarrow> [wi_rel w] | _ \<Rightarrow> []) @ parsed_rels (map (parse_item E existing) work)"
    by (auto simp: parsed_rels_def split: parsed_file.splits dest: parse_item_rel)
  then show ?case using Cons by (auto split: parsed_file.splits)
qed (simp add: parsed_rels_def)

lemma parsed_rels_mset: "mset xs = mset ys \<Longrightarrow> mset (parsed_rels xs) = mset (parsed_rels ys)"
proof -
  assume m: "mset xs = mset ys"
  have "mset (parsed_rels zs) = (\<Sum>p \<in># mset zs. mset (case p of POk rel chunks \<Rightarrow> [rel] | _ \<Rightarrow> []))" for zs
    by (induction zs) (auto simp: parsed_rels_def)
  then show ?thesis using m by simp
qed

lemma total_chunks_mset: "mset xs = mset ys \<Longrightarrow> total_chunks xs = total_chunks ys"
proof -
  assume m: "mset xs = mset ys"
  have "total_chunks zs = (\<Sum>p \<in># mset zs. (case p of POk rel chunks \<Rightarrow> length chunks | _ \<Rightarrow> 0))" for zs
    by (induction zs) (auto simp: total_chunks_def)
  then show ?thesis using m by simp
qed

definition work_chunks :: "'i index_env \<Rightarrow> work_item list \<Rightarrow> nat" where
  "work_chunks E work = (case en_chunker E of None \<Rightarrow> 0
     | Some f \<Rightarrow> sum_list (map (\<lambda>w. length (cf_chunks (f (wi_rel w) (wi_language w) (wi_source w)))) work))"

lemma total_chunks_work: "total_chunks (map (parse_item E existing) work) \<le> work_chunks E work"
proof -
  have "(case parse_item E existing w of POk rel chunks \<Rightarrow> length chunks | _ \<Rightarrow> 0) \<le>
     (case en_chunker E of None \<Rightarrow> 0 | Some f \<Rightarrow> length (cf_chunks (f (wi_rel w) (wi_language w) (wi_source w))))" for w
    by (auto simp: parse_item_def Let_def split: option.splits)
  then show ?thesis
    by (cases "en_chunker E") (auto simp: total_chunks_def work_chunks_def comp_def intro!: sum_list_mono)
qed

text \<open>The files are pairwise different and the row numbers do not run out.\<close>

definition fits :: "'i index_env \<Rightarrow> chunk_store \<Rightarrow> work_item list \<Rightarrow> bool" where
  "fits E s work \<longleftrightarrow> distinct (map wi_rel work) \<and> length (store_view s) + work_chunks E work < 2 ^ 63"

definition run_state :: "('i \<Rightarrow> document list) \<Rightarrow> ('i \<Rightarrow> document list) \<Rightarrow> string \<Rightarrow> index_report \<Rightarrow> 'i indexer \<Rightarrow> bool" where
  "run_state staged visible gen report ix \<longleftrightarrow> synced staged visible ix \<and> fresh_generation (ix_store ix) gen \<and> counted report ix"

lemma process_work_items_ok:
  assumes env: "env_ok E staged visible" and st: "run_state staged visible gen report ix" and fit: "fits E (ix_store ix) work"
  shows "ends_well (run_state staged visible gen) (synced staged visible) (process_work_items E work report ix)"
proof (cases "work = []")
  case True
  then show ?thesis using st by (simp add: process_work_items_def)
next
  case False
  let ?s = "ix_store ix"
  let ?ex = "existing_hashes ?s work" and ?known = "known_hashes ?s"
  let ?files = "en_arrival E (map (parse_item E ?ex) work)"
  have s: "store_inv ?s" using st by (simp add: run_state_def synced_def)
  have m: "mset ?files = mset (map (parse_item E ?ex) work)" using env by (simp add: env_ok_def)
  have d: "distinct (parsed_rels ?files)"
    using parsed_rels_work [of work E ?ex] parsed_rels_mset [OF m] fit mset_eq_imp_distinct_iff by (auto simp: fits_def)
  have "hashes_typed chunks" if "parse_item E ?ex w = POk rel chunks" for w rel chunks
    using that env by (auto simp: parse_item_def env_ok_def Let_def split: option.splits if_splits)
  then have t: "files_typed ?files"
    using mset_eq_setD [OF m] by (auto simp: files_typed_def) (metis imageE)
  have old: "distinct (map fst (old_of ?ex rel))" for rel
    using file_hashes_ok(1) [OF s] by (simp add: existing_old)
  have "run_ok staged visible gen (total_chunks ?files) (old_rows ?ex (parsed_rels ?files)) ?known [] report ix"
    using st fit total_chunks_work [of E ?ex work] total_chunks_mset [OF m] file_hashes_ok(2) [OF s]
    by (auto simp: run_ok_def run_state_def known_hashes_set [OF s] chunk_hashes_def hashes_typed_def fits_def old_rows_def
        existing_old split: if_splits)
  note cf = consume_files_ok [OF env this t d old]
  have rest: "ends_well (run_state staged visible gen) (synced staged visible)
      ((case a of (pending, report) \<Rightarrow> if pending = [] then ret_op report else flush_batch E pending report) ix')"
    if "(case a of (pending, report) \<Rightarrow> \<lambda>ix'. \<exists>known. run_ok staged visible gen 0 {} known pending report ix') ix'" for a ix'
  proof -
    obtain pending r known where a: "a = (pending, r)" "run_ok staged visible gen 0 {} known pending r ix'"
      using \<open>(case a of (pending, report) \<Rightarrow> \<lambda>ix'. _) ix'\<close> by (cases a) auto
    show ?thesis
    proof (cases "pending = []")
      case True
      then show ?thesis using run_okD(1-3) [OF a(2)] by (simp add: a(1) ret_op_def run_state_def)
    next
      case False
      then show ?thesis using run_ok_flush [OF env a(2)]
        by (auto simp: a(1) run_state_def elim!: ends_well_mono dest: run_okD(1-3))
    qed
  qed
  show ?thesis unfolding process_work_items_def Let_def if_not_P [OF False]
    by (rule ends_well_bind, rule cf) (rule rest)
qed

end
