(* ===== verification/Pipeline_Runs.thy ===== *)
theory Pipeline_Runs
  imports Pipeline_Correct
begin

text \<open>
  Whole runs: applying a commit diff, compaction, and the two entry points \<open>index_all\<close> and \<open>update\<close>.
\<close>

section \<open>Changes\<close>

lemma git_error_no_panic [simp]: "git_error m \<noteq> Inl (Panic w)"
  by (simp add: git_error_def split: sum.splits)

lemma read_source_no_panic: "read_source E config rel \<noteq> Inl (Panic w)"
  by (auto simp: read_source_def bind_res_def split: sum.splits option.splits fs_node.splits fault.splits)

lemma work_item_report:
  assumes "work_item_for_path E config rel report = Inr (item, r)"
  shows "rp_live_before r = rp_live_before report \<and> rp_chunks_added r = rp_chunks_added report \<and>
     rp_chunks_removed r = rp_chunks_removed report"
  using assms by (auto simp: work_item_for_path_def bind_res_Inr_conv split: if_splits option.splits)

lemma work_item_no_panic: "work_item_for_path E config rel report \<noteq> Inl (Panic w)"
  using read_source_no_panic [of E config rel w]
  by (auto simp: work_item_for_path_def bind_res_def split: if_splits option.splits sum.splits)

lemma counted_report:
  "counted report ix \<Longrightarrow> rp_live_before r = rp_live_before report \<Longrightarrow> rp_chunks_added r = rp_chunks_added report \<Longrightarrow>
   rp_chunks_removed r = rp_chunks_removed report \<Longrightarrow> counted r ix"
  by (simp add: counted_def)

definition changing :: "('i \<Rightarrow> document list) \<Rightarrow> ('i \<Rightarrow> document list) \<Rightarrow> string \<Rightarrow> work_item list \<times> index_report \<Rightarrow> 'i indexer \<Rightarrow> bool" where
  "changing staged visible gen = (\<lambda>(work, report) ix. run_state staged visible gen report ix)"

lemma changing_simp [simp]: "changing staged visible gen (work, report) ix = run_state staged visible gen report ix"
  by (simp add: changing_def)

lemma queue_path_ok:
  assumes "run_state staged visible gen report ix"
  shows "ends_well (changing staged visible gen) (synced staged visible) (queue_path E path work report ix)"
proof (cases "work_item_for_path E (ix_config ix) path report")
  case (Inl e)
  then show ?thesis using assms work_item_no_panic [of E "ix_config ix" path report]
    by (cases e) (auto simp: queue_path_def run_state_def)
next
  case (Inr p)
  then show ?thesis using assms work_item_report [of E "ix_config ix" path report "fst p" "snd p"]
    by (cases p) (auto simp: queue_path_def run_state_def intro: counted_report)
qed

lemma same_docs_rekey:
  assumes "same_docs g f"
  shows "same_docs (\<lambda>r. map_option (\<lambda>rec. if rec_file rec = old then rec\<lparr>rec_file := new\<rparr> else rec) (g r))
     (\<lambda>r. if (\<exists>rec. g r = Some rec \<and> rec_file rec = old) then map_option (\<lambda>d. d\<lparr>ld_file := new\<rparr>) (f r) else f r)"
  unfolding same_docs_def
proof
  fix r
  have eq: "map_option (\<lambda>rec. doc_of rec []) (g r) = map_option (\<lambda>d. d\<lparr>ld_body := []\<rparr>) (f r)"
    using assms by (simp add: same_docs_def)
  have "doc_of (rec\<lparr>rec_file := new\<rparr>) [] = (doc_of rec [])\<lparr>ld_file := new\<rparr>" for rec by (simp add: doc_of_def)
  then show "map_option (\<lambda>rec. doc_of rec []) (map_option (\<lambda>rec. if rec_file rec = old then rec\<lparr>rec_file := new\<rparr> else rec) (g r)) =
     map_option (\<lambda>d. d\<lparr>ld_body := []\<rparr>) (if (\<exists>rec. g r = Some rec \<and> rec_file rec = old) then map_option (\<lambda>d. d\<lparr>ld_file := new\<rparr>) (f r) else f r)"
    using eq by (cases "g r"; cases "f r") auto
qed

lemma rekey_fields:
  "cs_db_path (snd (rekey_file s old new)) = cs_db_path s" "cs_matrix_path (snd (rekey_file s old new)) = cs_matrix_path s"
  "cs_fail_before_commit (snd (rekey_file s old new)) = cs_fail_before_commit s"
  by (simp_all add: rekey_file_def Let_def)

lemma rename_rows:
  assumes env: "env_ok E staged visible" and st: "run_state staged visible gen report ix"
  shows "\<exists>i1 i2. update_file_paths (en_engine E) (map (\<lambda>r. (r, new)) (rows_for_file (ix_store ix) old)) (ix_lexical ix) = (Inr (), i1) \<and>
     lexical_commit (en_engine E) i1 = (Inr (), i2) \<and>
     run_state staged visible gen report (ix\<lparr>ix_store := snd (rekey_file (ix_store ix) old new), ix_lexical := i2\<rparr>)"
proof -
  let ?s = "ix_store ix" and ?T = "en_engine E" and ?rows = "rows_for_file (ix_store ix) old"
  have T: "tantivy_runs ?T staged visible" using env by (simp add: env_ok_def)
  obtain f where s: "store_inv ?s" "\<not> cs_fail_before_commit ?s" and f: "holds (staged (ix_lexical ix)) f" "same_docs (get_row ?s) f"
    and v: "visible (ix_lexical ix) = staged (ix_lexical ix)"
    using st by (auto simp: run_state_def synced_def)
  have "holds (visible (ix_lexical ix)) f" using f(1) v by simp
  from update_paths_holds [OF T this f(1) rows_for_file_live(1) [OF s(1)]] obtain i1 where
    i1: "update_file_paths ?T (map (\<lambda>r. (r, new)) ?rows) (ix_lexical ix) = (Inr (), i1)"
      "holds (staged i1) (\<lambda>r. if r \<in> set ?rows then map_option (\<lambda>d. d\<lparr>ld_file := new\<rparr>) (f r) else f r)" by auto
  obtain i2 where i2: "lexical_commit ?T i1 = (Inr (), i2)" "staged i2 = staged i1" "visible i2 = staged i1"
    using tantivy_commit [OF T] by blast
  have rk: "store_inv (snd (rekey_file ?s old new))" "get_row (snd (rekey_file ?s old new)) =
      (\<lambda>r. map_option (\<lambda>rec. if rec_file rec = old then rec\<lparr>rec_file := new\<rparr> else rec) (get_row ?s r))"
    using lm.rekey_get [OF s(1)] by auto
  have "(\<lambda>r. if r \<in> set ?rows then map_option (\<lambda>d. d\<lparr>ld_file := new\<rparr>) (f r) else f r) =
      (\<lambda>r. if (\<exists>rec. get_row ?s r = Some rec \<and> rec_file rec = old) then map_option (\<lambda>d. d\<lparr>ld_file := new\<rparr>) (f r) else f r)"
    by (simp only: rows_for_file_live(2) [OF s(1)])
  then have "synced staged visible (ix\<lparr>ix_store := snd (rekey_file ?s old new), ix_lexical := i2\<rparr>)"
    using rk i1(2) i2 s(2) same_docs_rekey [OF f(2), of old new] by (auto simp: synced_def rekey_fields)
  moreover have "live_rows (snd (rekey_file ?s old new)) = live_rows ?s"
    by (rule lm.rows_eq [OF rk(1) s(1)]) (auto simp: rk(2) dom_def)
  ultimately show ?thesis using st i1(1) i2(1)
    by (intro exI [of _ i1] exI [of _ i2]) (auto simp: run_state_def counted_def fresh_generation_def rekey_fields)
qed

lemma rename_nothing:
  assumes st: "run_state staged visible gen report ix" and n: "rows_for_file (ix_store ix) old = []"
  shows "run_state staged visible gen report (ix\<lparr>ix_store := snd (rekey_file (ix_store ix) old new)\<rparr>)"
proof -
  let ?s = "ix_store ix"
  have s: "store_inv ?s" using st by (simp add: run_state_def synced_def)
  have no: "\<not> (\<exists>rec. get_row ?s r = Some rec \<and> rec_file rec = old)" for r
    using rows_for_file_live(2) [OF s, of r old] n by simp
  have rk: "store_inv (snd (rekey_file ?s old new))" "get_row (snd (rekey_file ?s old new)) = get_row ?s"
  proof -
    show "store_inv (snd (rekey_file ?s old new))" using lm.rekey_get [OF s] by auto
    have "get_row (snd (rekey_file ?s old new)) r = get_row ?s r" for r
      using lm.rekey_get [OF s] no [of r] by (cases "get_row ?s r") auto
    then show "get_row (snd (rekey_file ?s old new)) = get_row ?s" by (rule ext)
  qed
  moreover have "live_rows (snd (rekey_file ?s old new)) = live_rows ?s"
    by (rule lm.rows_eq [OF rk(1) s]) (simp add: rk(2))
  ultimately show ?thesis using st
    by (auto simp: run_state_def synced_def counted_def fresh_generation_def rekey_fields)
qed

lemma apply_file_change_ok:
  assumes env: "env_ok E staged visible" and st: "run_state staged visible gen report ix"
  shows "ends_well (changing staged visible gen) (synced staged visible) (apply_file_change E change work report ix)"
proof (cases change)
  case (Deleted path)
  let ?rows = "rows_for_file (ix_store ix) path"
  have s: "store_inv (ix_store ix)" "synced staged visible ix" using st by (auto simp: run_state_def synced_def)
  show ?thesis
  proof (cases "?rows = []")
    case True
    then show ?thesis using st by (simp add: Deleted Let_def)
  next
    case False
    have "set ?rows \<subseteq> dom (get_row (ix_store ix))" using rows_for_file_live(2) [OF s(1)] by auto
    from drop_rows [OF env s(2) rows_for_file_live(1) [OF s(1)] this, of "(work, report\<lparr>rp_chunks_removed := rp_chunks_removed report + length ?rows,
          rp_files_indexed := rp_files_indexed report + 1\<rparr>)"] False st show ?thesis
      by (auto simp: Deleted Let_def run_state_def shrunk_def counted_def fresh_generation_def)
  qed
next
  case (Renamed old new)
  let ?s = "ix_store ix" and ?rows = "rows_for_file (ix_store ix) old"
  have n: "fst (rekey_file ?s old new) = length ?rows" by (rule rekey_count_rows)
  show ?thesis
  proof (cases "?rows = []")
    case True
    have "ends_well (changing staged visible gen) (synced staged visible)
        (queue_path E new work report (ix\<lparr>ix_store := snd (rekey_file ?s old new)\<rparr>))"
      by (rule queue_path_ok [OF rename_nothing [OF st True]])
    then show ?thesis using n True by (simp add: Renamed Let_def case_prod_unfold)
  next
    case False
    obtain i1 i2 where u: "update_file_paths (en_engine E) (map (\<lambda>r. (r, new)) ?rows) (ix_lexical ix) = (Inr (), i1)"
      "lexical_commit (en_engine E) i1 = (Inr (), i2)"
      "run_state staged visible gen report (ix\<lparr>ix_store := snd (rekey_file ?s old new), ix_lexical := i2\<rparr>)"
      using rename_rows [OF env st] by blast
    let ?ix = "ix\<lparr>ix_store := snd (rekey_file ?s old new), ix_lexical := i2\<rparr>"
    have "apply_file_change E change work report ix =
      bind_op (\<lambda>ix. (work_item_for_path E (ix_config ix) new report, ix)) (\<lambda>(item, report).
        case item of Some i \<Rightarrow> ret_op (work @ [i], report)
        | None \<Rightarrow> ret_op (work, report\<lparr>rp_files_indexed := rp_files_indexed report + 1\<rparr>)) ?ix"
      using n False by (simp add: Renamed Let_def case_prod_unfold) (simp add: bind_op_def lexical_op_def u(1,2))
    moreover have "ends_well (changing staged visible gen) (synced staged visible) \<dots>"
    proof (rule ends_well_bind [where Q = "\<lambda>(item, r) ix'. run_state staged visible gen r ix'"])
      show "ends_well (\<lambda>(item, r) ix'. run_state staged visible gen r ix') (synced staged visible)
          (work_item_for_path E (ix_config ?ix) new report, ?ix)"
      proof (cases "work_item_for_path E (ix_config ?ix) new report")
        case (Inl e)
        then show ?thesis using u(3) work_item_no_panic [of E "ix_config ?ix" new report]
          by (cases e) (auto simp: run_state_def)
      next
        case (Inr p)
        then show ?thesis using u(3) work_item_report [of E "ix_config ?ix" new report "fst p" "snd p"]
          by (cases p) (auto simp: run_state_def counted_def)
      qed
    qed (auto simp: ret_op_def run_state_def counted_def split: option.splits)
    ultimately show ?thesis by simp
  qed
qed (use queue_path_ok [OF st] in simp_all)

lemma apply_file_changes_ok:
  assumes env: "env_ok E staged visible" and st: "run_state staged visible gen report ix"
  shows "ends_well (changing staged visible gen) (synced staged visible) (apply_file_changes E changes work report ix)"
  using st
proof (induction changes arbitrary: work report ix)
  case (Cons c changes)
  show ?case unfolding apply_file_changes.simps
    by (rule ends_well_bind, rule apply_file_change_ok [OF env Cons.prems]) (auto intro: Cons.IH)
qed simp

lemma queue_paths_ok:
  assumes "run_state staged visible gen report ix"
  shows "ends_well (changing staged visible gen) (synced staged visible) (queue_paths E paths work report ix)"
  using assms
proof (induction paths arbitrary: work report ix)
  case (Cons p paths)
  show ?case unfolding queue_paths.simps
    by (rule ends_well_bind, rule queue_path_ok [OF Cons.prems]) (auto intro: Cons.IH)
qed simp

lemma is_dirty_no_panic: "is_dirty g \<noteq> Inl (Panic w)"
  by (simp add: is_dirty_def)

lemma dirty_paths_no_panic: "dirty_paths g \<noteq> Inl (Panic w)"
  by (auto simp: dirty_paths_def bind_res_def split: sum.splits)

lemma commit_changes_no_panic: "commit_changes E base \<noteq> Inl (Panic w)"
proof -
  have "changes_since g b \<noteq> Inl (Panic w)" for g b
    by (auto simp: changes_since_def bind_res_def split: sum.splits)
  then show ?thesis by (auto simp: commit_changes_def split: sum.splits fault.splits)
qed

lemma policy_no_panic: "apply_dirty_policy E config dirty \<noteq> Inl (Panic w)"
  by (auto simp: apply_dirty_policy_def split: dirty_policy.splits)

lemma gather_work_ok:
  assumes env: "env_ok E staged visible" and st: "run_state staged visible gen report ix"
  shows "ends_well (changing staged visible gen) (synced staged visible) (gather_work E dirty base report ix)"
proof -
  have sy: "synced staged visible ix" using st by (simp add: run_state_def)
  have q: "ends_well (changing staged visible gen) (synced staged visible)
     ((if dirty \<and> dirty_worktree (ix_config ix) = IndexWorktree
       then bind_op (lift_op (dirty_paths (en_git E))) (\<lambda>paths. queue_paths E paths [] report) else ret_op ([], report)) ix)"
  proof (cases "dirty \<and> dirty_worktree (ix_config ix) = IndexWorktree")
    case True
    have "ends_well (changing staged visible gen) (synced staged visible)
        (bind_op (lift_op (dirty_paths (en_git E))) (\<lambda>paths. queue_paths E paths [] report) ix)"
      by (rule ends_well_bind [where Q = "\<lambda>_ ix'. run_state staged visible gen report ix'"])
         (auto intro!: ends_well_lift queue_paths_ok simp: dirty_paths_no_panic sy st)
    then show ?thesis using True by simp
  next
    case False
    then show ?thesis using st by (auto simp: ret_op_def)
  qed
  have c: "ends_well (changing staged visible gen) (synced staged visible)
      (bind_op (lift_op (commit_changes E base)) (\<lambda>changes.
       bind_op (apply_file_changes E changes work r) (\<lambda>(work, report). ret_op (dedup_work [] work, report))) ix')"
    if "run_state staged visible gen r ix'" for work r ix'
  proof (rule ends_well_bind [where Q = "\<lambda>_ ix'. run_state staged visible gen r ix'"])
    show "ends_well (\<lambda>_ ix'. run_state staged visible gen r ix') (synced staged visible) (lift_op (commit_changes E base) ix')"
      using that by (auto intro!: ends_well_lift simp: commit_changes_no_panic run_state_def)
    fix changes ix1 assume "run_state staged visible gen r ix1"
    then show "ends_well (changing staged visible gen) (synced staged visible)
        (bind_op (apply_file_changes E changes work r) (\<lambda>(work, report). ret_op (dedup_work [] work, report)) ix1)"
      by (intro ends_well_bind, rule apply_file_changes_ok [OF env]) (auto simp: ret_op_def)
  qed
  show ?thesis unfolding gather_work_def
    by (rule ends_well_bind, rule q) (auto intro: c)
qed

section \<open>Finishing\<close>

lemma set_commit_state:
  assumes "run_state staged visible gen report ix"
  shows "run_state staged visible gen report (ix\<lparr>ix_store := set_indexed_commit (ix_store ix) commit\<rparr>)"
proof -
  let ?s = "ix_store ix"
  have "store_inv (set_indexed_commit ?s commit)"
    using assms store_step_inv [OF step_commit] by (auto simp: run_state_def synced_def)
  moreover have "get_row (set_indexed_commit ?s commit) = get_row ?s" "live_rows (set_indexed_commit ?s commit) = live_rows ?s"
    by (simp_all add: fun_eq_iff get_row_def first_row_def live_rows_def set_indexed_commit_def set_meta_def)
  moreover have "cs_db_path (set_indexed_commit ?s commit) = cs_db_path ?s" "cs_matrix_path (set_indexed_commit ?s commit) = cs_matrix_path ?s"
    "cs_fail_before_commit (set_indexed_commit ?s commit) = cs_fail_before_commit ?s"
    by (simp_all add: set_indexed_commit_def)
  ultimately show ?thesis using assms by (simp add: run_state_def synced_def counted_def fresh_generation_def)
qed

lemma record_commit_ok:
  assumes "run_state staged visible gen report ix"
  shows "ends_well (\<lambda>_. run_state staged visible gen report) (synced staged visible) (record_commit E dirty ix)"
proof (cases "head_commit (en_git E)")
  case (Inl e)
  then have "e \<noteq> Panic w" for w using git_error_no_panic [of "gx_head_id (en_git E)" w] by (auto simp: head_commit_def)
  then show ?thesis using assms Inl by (cases e) (auto simp: record_commit_def run_state_def)
qed (use assms set_commit_state in \<open>auto simp: record_commit_def Let_def\<close>)

lemma compact_fail_flag: "cs_fail_before_commit (snd (compact gen s)) = cs_fail_before_commit s"
  by (auto simp: compact_def Let_def split: sum.splits prod.splits)

lemma same_docs_moved:
  "same_docs g f \<Longrightarrow> same_docs (\<lambda>r. if r < n then g (rows ! r) else None) (\<lambda>r. if r < n then f (rows ! r) else None)"
  by (simp add: same_docs_def)

lemma maybe_compact_ok:
  assumes env: "env_ok E staged visible" and st: "run_state staged visible (en_generation E) report ix"
  shows "ends_well (\<lambda>r ix'. synced staged visible ix' \<and> counted r ix') (synced staged visible) (maybe_compact E report ix)"
proof (cases "f64_gt (st_dead_fraction (stats (ix_store ix))) (compact_threshold (ix_config ix))")
  case True
  let ?s = "ix_store ix" and ?T = "en_engine E" and ?L = "live_rows (ix_store ix)"
  have T: "tantivy_runs ?T staged visible" using env by (simp add: env_ok_def)
  obtain f where s: "store_inv ?s" "\<not> cs_fail_before_commit ?s" and f: "holds (staged (ix_lexical ix)) f" "same_docs (get_row ?s) f"
    and v: "visible (ix_lexical ix) = staged (ix_lexical ix)"
    using st by (auto simp: run_state_def synced_def)
  obtain rep s' where c: "compact (en_generation E) ?s = (Inr rep, s')" "store_inv s'" "row_mapping rep = zip ?L [0..<length ?L]"
    "get_row s' = (\<lambda>r. if r < length ?L then get_row ?s (?L ! r) else None)"
    using compact_get [OF s(1), of "en_generation E"] st unfolding run_state_def by blast
  have L: "sorted_wrt (<) ?L" "set ?L = dom f"
    using get_row_dom [OF s(1)] same_docs_dom [OF f(2)] by auto
  have "f = (\<lambda>r. if r < 0 then f r else if r \<in> set ?L then f r else None)" using L(2) by (auto simp: fun_eq_iff)
  then have h0: "holds (staged (ix_lexical ix)) (\<lambda>r. if r < 0 then f r else if r \<in> set ?L then f r else None)"
    using f(1) by simp
  have vf: "holds (visible (ix_lexical ix)) f" using f(1) v by simp
  have "\<exists>i'. renumber ?T (zip ?L [0..<0 + length ?L]) (ix_lexical ix) = (Inr (), i') \<and> visible i' = visible (ix_lexical ix) \<and>
     holds (staged i') (\<lambda>r. if r < 0 then f r else if r < 0 + length ?L then f (?L ! (r - 0)) else None)"
    by (rule renumber_holds [OF T vf L(1) _ _ h0]) (use L(2) in auto)
  then obtain i1 where i1: "renumber ?T (zip ?L [0..<length ?L]) (ix_lexical ix) = (Inr (), i1)"
    "holds (staged i1) (\<lambda>r. if r < length ?L then f (?L ! r) else None)" by (auto cong: if_cong)
  obtain i2 where i2: "lexical_commit ?T i1 = (Inr (), i2)" "staged i2 = staged i1" "visible i2 = staged i1"
    using tantivy_commit [OF T] by blast
  let ?ix = "ix\<lparr>ix_store := s', ix_lexical := i2\<rparr>"
  have "same_docs (get_row s') (\<lambda>r. if r < length ?L then f (?L ! r) else None)"
    unfolding c(4) by (rule same_docs_moved [OF f(2)])
  moreover have "\<not> cs_fail_before_commit s'" using compact_fail_flag [of "en_generation E" ?s] c(1) s(2) by simp
  ultimately have "synced staged visible ?ix" using c(2) i1(2) i2 by (auto simp: synced_def)
  moreover have "length (live_rows s') = length ?L"
  proof -
    have "dom (get_row s') = {..<length ?L}"
      using get_row_dom [OF s(1)] nth_mem by (fastforce simp: c(4) dom_def split: if_splits)
    then show ?thesis using lm.rows_card [OF c(2)] by simp
  qed
  ultimately have "synced staged visible ?ix \<and> counted (report\<lparr>rp_compacted := Some rep\<rparr>) ?ix"
    using st by (simp add: run_state_def counted_def)
  moreover have "maybe_compact E report ix = (Inr (report\<lparr>rp_compacted := Some rep\<rparr>), ?ix)"
    using True c(1,3) i1(1) i2(1) by (simp add: maybe_compact_def bind_op_def store_op_def lexical_op_def ret_op_def)
  ultimately show ?thesis by simp
qed (use st in \<open>simp add: maybe_compact_def run_state_def\<close>)

text \<open>What a finished run reports.\<close>

definition accounted :: "('i \<Rightarrow> document list) \<Rightarrow> ('i \<Rightarrow> document list) \<Rightarrow> index_report \<Rightarrow> 'i indexer \<Rightarrow> bool" where
  "accounted staged visible r ix \<longleftrightarrow> synced staged visible ix \<and> rp_live_after r = length (live_rows (ix_store ix)) \<and>
     rp_live_after r + rp_chunks_removed r = rp_live_before r + rp_chunks_added r"

lemma finish_run_ok:
  assumes env: "env_ok E staged visible" and st: "run_state staged visible (en_generation E) report ix"
  shows "ends_well (accounted staged visible) (synced staged visible) (finish_run E dirty report ix)"
proof -
  have last: "ends_well (accounted staged visible) (synced staged visible)
     ((let r = r\<lparr>rp_live_after := st_live (stats (ix_store ix'))\<rparr>
       in bind_op (lift_op (assert_reconciles r)) (\<lambda>_. ret_op r)) ix')"
    if "synced staged visible ix'" "counted r ix'" for r and ix' :: "'a indexer"
    using that by (simp add: bind_op_def lift_op_def ret_op_def assert_reconciles_def counted_def stats_live accounted_def)
  have mid: "ends_well (accounted staged visible) (synced staged visible)
     (bind_op (maybe_compact E (report\<lparr>rp_commit := commit\<rparr>)) (\<lambda>report ix.
        let report = report\<lparr>rp_live_after := st_live (stats (ix_store ix))\<rparr>
        in bind_op (lift_op (assert_reconciles report)) (\<lambda>_. ret_op report) ix) ix')"
    if "run_state staged visible (en_generation E) report ix'" for commit ix'
  proof (rule ends_well_bind, rule maybe_compact_ok [OF env])
    show "run_state staged visible (en_generation E) (report\<lparr>rp_commit := commit\<rparr>) ix'"
      using that by (simp add: run_state_def counted_def)
  qed (use last in \<open>simp add: Let_def\<close>)
  show ?thesis unfolding finish_run_def
    by (rule ends_well_bind, rule record_commit_ok [OF st]) (rule mid)
qed

section \<open>Runs\<close>

lemma walk_file_frame:
  assumes "walk_file E config path work report = Inr (work', r)"
  shows "rp_live_before r = rp_live_before report \<and> rp_chunks_added r = rp_chunks_added report \<and>
     rp_chunks_removed r = rp_chunks_removed report"
  using assms by (auto simp: walk_file_def Let_def bind_res_Inr_conv split: if_splits option.splits)

lemma walk_file_no_panic: "walk_file E config path work report \<noteq> Inl (Panic w)"
  using read_source_no_panic by (auto simp: walk_file_def Let_def bind_res_def split: if_splits option.splits sum.splits)

lemma walk_entries_frame:
  "walk_entries E config dir es stack work report = Inr (stack', work', r) \<Longrightarrow>
   rp_live_before r = rp_live_before report \<and> rp_chunks_added r = rp_chunks_added report \<and> rp_chunks_removed r = rp_chunks_removed report"
proof (induction es arbitrary: stack work report)
  case (Cons e es)
  obtain name node where e: "e = (name, node)" by (cases e)
  show ?case using Cons.prems
    by (auto simp: e Let_def bind_res_Inr_conv split: if_splits fs_node.splits dest!: Cons.IH walk_file_frame)
qed simp

lemma walk_entries_no_panic: "walk_entries E config dir es stack work report \<noteq> Inl (Panic w)"
proof (induction es arbitrary: stack work report)
  case (Cons e es)
  obtain name node where e: "e = (name, node)" by (cases e)
  show ?case using Cons.IH
    by (auto simp: e Let_def bind_res_def walk_file_no_panic split: fs_node.splits sum.splits)
qed simp

lemma walk_frame:
  "walk E config stack work report = Inr (work', r) \<Longrightarrow>
   rp_live_before r = rp_live_before report \<and> rp_chunks_added r = rp_chunks_added report \<and> rp_chunks_removed r = rp_chunks_removed report"
  by (induction E config stack work report rule: walk.induct) (auto split: sum.splits dest!: walk_entries_frame)

lemma walk_no_panic: "walk E config stack work report \<noteq> Inl (Panic w)"
  by (induction E config stack work report rule: walk.induct) (auto split: sum.splits simp: walk_entries_no_panic)

definition index_fits :: "'i index_env \<Rightarrow> 'i indexer \<Rightarrow> bool" where
  "index_fits E ix \<longleftrightarrow> (\<forall>work r. collect_all_files E (ix_config ix) (empty_report (st_live (stats (ix_store ix)))) = Inr (work, r) \<longrightarrow>
     fits E (ix_store ix) work)"

definition update_fits :: "'i index_env \<Rightarrow> 'i indexer \<Rightarrow> bool" where
  "update_fits E ix \<longleftrightarrow> (\<forall>dirty base work r ix'.
     gather_work E dirty base (empty_report (st_live (stats (ix_store ix)))) ix = (Inr (work, r), ix') \<longrightarrow> fits E (ix_store ix') work)"

lemma start_state:
  "synced staged visible ix \<Longrightarrow> fresh_generation (ix_store ix) gen \<Longrightarrow>
   run_state staged visible gen (empty_report (st_live (stats (ix_store ix)))) ix"
  by (simp add: run_state_def counted_def empty_report_def stats_live)

text \<open>The common head of both entry points.\<close>

lemma after_policy:
  assumes "synced staged visible ix" "\<And>dirty. ends_well Q (synced staged visible) (f dirty ix)"
  shows "ends_well Q (synced staged visible) (bind_op (lift_op (is_dirty (en_git E))) (\<lambda>dirty.
     bind_op (lift_op (apply_dirty_policy E config dirty)) (\<lambda>_. f dirty)) ix)"
proof (rule ends_well_bind [where Q = "\<lambda>_ ix'. ix' = ix"])
  show "ends_well (\<lambda>_ ix'. ix' = ix) (synced staged visible) (lift_op (is_dirty (en_git E)) ix)"
    by (rule ends_well_lift) (simp_all add: is_dirty_no_panic assms(1))
  fix dirty ix' assume "ix' = ix"
  then show "ends_well Q (synced staged visible) (bind_op (lift_op (apply_dirty_policy E config dirty)) (\<lambda>_. f dirty) ix')"
    using assms by (intro ends_well_bind [where Q = "\<lambda>_ ix'. ix' = ix"] ends_well_lift) (simp_all add: policy_no_panic)
qed

lemma index_all_ok:
  assumes env: "env_ok E staged visible" and sy: "synced staged visible ix"
    and fresh: "fresh_generation (ix_store ix) (en_generation E)" and fit: "index_fits E ix"
  shows "ends_well (accounted staged visible) (synced staged visible) (index_all E ix)"
  unfolding index_all_def Let_def
proof (rule after_policy [OF sy])
  fix dirty
  let ?r0 = "empty_report (st_live (stats (ix_store ix)))"
  let ?Q = "\<lambda>(work, r) ix'. ix' = ix \<and> fits E (ix_store ix) work \<and> run_state staged visible (en_generation E) r ix"
  have c: "ends_well ?Q (synced staged visible) (lift_op (collect_all_files E (ix_config ix) ?r0) ix)"
  proof (rule ends_well_lift)
    show "collect_all_files E (ix_config ix) ?r0 \<noteq> Inl (Panic w)" for w by (simp add: collect_all_files_def walk_no_panic)
    fix a assume a: "collect_all_files E (ix_config ix) ?r0 = Inr a"
    then show "(case a of (work, r) \<Rightarrow> \<lambda>ix'. ix' = ix \<and> fits E (ix_store ix) work \<and> run_state staged visible (en_generation E) r ix) ix"
      using fit walk_frame [of E "ix_config ix" _ "[]" ?r0 "fst a" "snd a"] start_state [OF sy fresh]
      by (cases a) (auto simp: index_fits_def collect_all_files_def run_state_def counted_def)
  qed (rule sy)
  show "ends_well (accounted staged visible) (synced staged visible)
     (bind_op (lift_op (collect_all_files E (ix_config ix) ?r0)) (\<lambda>(work, report).
      bind_op (process_work_items E work report) (\<lambda>report. finish_run E dirty report)) ix)"
  proof (rule ends_well_bind, rule c)
    fix a ix' assume "(case a of (work, r) \<Rightarrow> \<lambda>ix'. ix' = ix \<and> fits E (ix_store ix) work \<and> run_state staged visible (en_generation E) r ix) ix'"
    then obtain work r where a: "a = (work, r)" "ix' = ix" "fits E (ix_store ix) work" "run_state staged visible (en_generation E) r ix"
      by (cases a) auto
    have "ends_well (accounted staged visible) (synced staged visible)
        (bind_op (process_work_items E work r) (\<lambda>report. finish_run E dirty report) ix)"
      by (rule ends_well_bind, rule process_work_items_ok [OF env a(4,3)]) (rule finish_run_ok [OF env])
    then show "ends_well (accounted staged visible) (synced staged visible)
        ((case a of (work, report) \<Rightarrow> bind_op (process_work_items E work report) (\<lambda>report. finish_run E dirty report)) ix')"
      by (simp add: a(1,2))
  qed
qed

lemma gathered_fits:
  assumes "update_fits E ix" "ends_well (changing staged visible gen) R
      (gather_work E dirty base (empty_report (st_live (stats (ix_store ix)))) ix)"
  shows "ends_well (\<lambda>(work, r) ix'. fits E (ix_store ix') work \<and> run_state staged visible gen r ix') R
      (gather_work E dirty base (empty_report (st_live (stats (ix_store ix)))) ix)"
proof (cases "gather_work E dirty base (empty_report (st_live (stats (ix_store ix)))) ix")
  case (Pair out ix')
  show ?thesis
  proof (cases out)
    case (Inl e)
    then show ?thesis using assms(2) Pair by (cases e) auto
  next
    case (Inr a)
    then show ?thesis using assms Pair by (cases a) (auto simp: update_fits_def)
  qed
qed

lemma update_ok:
  assumes env: "env_ok E staged visible" and sy: "synced staged visible ix"
    and fresh: "fresh_generation (ix_store ix) (en_generation E)" and fit: "index_fits E ix" "update_fits E ix"
  shows "ends_well (accounted staged visible) (synced staged visible) (update E ix)"
  unfolding update_def Let_def
proof (rule after_policy [OF sy])
  fix dirty
  let ?r0 = "empty_report (st_live (stats (ix_store ix)))"
  show "ends_well (accounted staged visible) (synced staged visible)
     ((case indexed_commit (ix_store ix) of None \<Rightarrow> index_all E
       | Some base \<Rightarrow> bind_op (gather_work E dirty base ?r0) (\<lambda>(work, report).
          bind_op (process_work_items E work report) (\<lambda>report. finish_run E dirty report))) ix)"
  proof (cases "indexed_commit (ix_store ix)")
    case None
    then show ?thesis using index_all_ok [OF env sy fresh fit(1)] by simp
  next
    case (Some base)
    have g: "ends_well (\<lambda>(work, r) ix'. fits E (ix_store ix') work \<and> run_state staged visible (en_generation E) r ix')
        (synced staged visible) (gather_work E dirty base ?r0 ix)"
      by (rule gathered_fits [OF fit(2) gather_work_ok [OF env start_state [OF sy fresh]]])
    have "ends_well (accounted staged visible) (synced staged visible)
       (bind_op (gather_work E dirty base ?r0) (\<lambda>(work, report).
          bind_op (process_work_items E work report) (\<lambda>report. finish_run E dirty report)) ix)"
    proof (rule ends_well_bind, rule g)
      fix a ix' assume "(case a of (work, r) \<Rightarrow> \<lambda>ix'. fits E (ix_store ix') work \<and> run_state staged visible (en_generation E) r ix') ix'"
      then obtain work r where a: "a = (work, r)" "fits E (ix_store ix') work" "run_state staged visible (en_generation E) r ix'"
        by (cases a) auto
      have "ends_well (accounted staged visible) (synced staged visible)
          (bind_op (process_work_items E work r) (\<lambda>report. finish_run E dirty report) ix')"
        by (rule ends_well_bind, rule process_work_items_ok [OF env a(3,2)]) (rule finish_run_ok [OF env])
      then show "ends_well (accounted staged visible) (synced staged visible)
          ((case a of (work, report) \<Rightarrow> bind_op (process_work_items E work report) (\<lambda>report. finish_run E dirty report)) ix')"
        by (simp add: a(1))
    qed
    then show ?thesis by (simp add: Some)
  qed
qed

section \<open>Properties of runs\<close>

definition wit_chunker :: "string \<Rightarrow> language \<Rightarrow> string \<Rightarrow> chunked_file" where
  "wit_chunker rel language source = \<lparr>cf_chunks = [((wit_rec (CHR ''a''))\<lparr>rec_file := rel\<rparr>, source)], cf_diagnostics = []\<rparr>"

definition wit_env :: "(document list \<times> document list) index_env" where
  "wit_env = \<lparr>en_engine = list_engine, en_embedder = wit_embedder, en_repo = ''/'', en_git = wit_gix [],
     en_exclusions = \<lparr>ex_secret_globs = (\<lambda>_. []), ex_secret_patterns = [], ex_vendor_globs = (\<lambda>_. []), ex_vendor_patterns = [],
        ex_generated_globs = (\<lambda>_. []), ex_generated_patterns = [], ex_gitignore = None, ex_root = ''/''\<rparr>,
     en_fs = FDir [(''a.rs'', FFile ''fn a() {}''), (''notes'', FFile ''text'')], en_chunker = Some wit_chunker, en_arrival = rev,
     en_generation = ''7-9''\<rparr>"

definition wit_indexer :: "chunk_store \<Rightarrow> (document list \<times> document list) indexer" where
  "wit_indexer s = \<lparr>ix_store = s, ix_lexical = ([], []), ix_config = default_index_config, ix_interrupt_after = None, ix_batches = 0\<rparr>"

lemma wit_env_ok: "env_ok wit_env fst snd"
  by (auto simp: env_ok_def wit_env_def list_engine_runs embedder_ok_def wit_embedder_def hashes_typed_def wit_chunker_def wit_rec_def)
     (auto simp: list_engine_def)

lemma wit_synced: "store_inv s \<Longrightarrow> store_view s = [] \<Longrightarrow> \<not> cs_fail_before_commit s \<Longrightarrow> synced fst snd (wit_indexer s)"
  by (auto simp: synced_def wit_indexer_def holds_def doc_at_def same_docs_def get_row_view spec_get_def intro!: exI [of _ Map.empty])

lemma wit_walk:
  "\<exists>r. collect_all_files wit_env default_index_config report =
     Inr ([\<lparr>wi_rel = ''a.rs'', wi_language = Rust, wi_source = ''fn a() {}''\<rparr>], r)"
proof -
  have v: "valid_utf8 ''fn a() {}''" by (rule valid_utf8_ascii) (simp add: is_ascii_def)
  have p: "path_join ''/'' ''a.rs'' = ''/a.rs''" "path_join ''/'' ''notes'' = ''/notes''" "file_name ''/a.rs'' = Some ''a.rs''"
    "file_name ''/notes'' = Some ''notes''" "language_from_path ''/a.rs'' = Some Rust" "language_from_path ''/notes'' = None"
    "path_strip_prefix ''/'' ''/a.rs'' = Some ''a.rs''" "path_components ''/'' = [RootDir]" "path_components ''/a.rs'' = [RootDir, Normal ''a.rs'']"
    "vendor_component ''a.rs'' = None" "path_has_root ''/a.rs''" "path_has_root ''/notes''" "path_strip_prefix ''/'' ''/notes'' = Some ''notes''"
    "vendor_component ''notes'' = None" "file_name ''a.rs'' = Some ''a.rs''" "file_name ''notes'' = Some ''notes''"
    by code_simp+
  have c: "check_path fs (en_exclusions wit_env) ''/a.rs'' = None" "check_path fs (en_exclusions wit_env) ''/notes'' = None" for fs
    by (simp_all add: check_path_def wit_env_def p first_match_def first_match_name_def git_ignored_def)
  have h: "check_head (take n ''fn a() {}'') = None" for n by (auto simp: check_head_def dest: in_set_takeD)
  have "read_source wit_env default_index_config ''a.rs'' = Inr (Some ''fn a() {}'')"
    by (simp add: read_source_def default_index_config_def wit_env_def lookup_def p check_size_def MAX_FILE_BYTES_def
        decode_source_def h v)
  then show ?thesis
    by (simp add: collect_all_files_def lookup_def p c walk_file_def Let_def replace_char_def wit_env_def [THEN arg_cong, of en_repo]
        wit_env_def [THEN arg_cong, of en_fs])
qed

lemma wit_index_fits: "store_view s = [] \<Longrightarrow> index_fits wit_env (wit_indexer s)"
proof -
  assume v: "store_view s = []"
  obtain r where c: "collect_all_files wit_env default_index_config (empty_report (st_live (stats s))) =
     Inr ([\<lparr>wi_rel = ''a.rs'', wi_language = Rust, wi_source = ''fn a() {}''\<rparr>], r)"
    using wit_walk by blast
  have "en_chunker wit_env = Some wit_chunker" by (simp add: wit_env_def)
  then show ?thesis using v c
    by (simp add: index_fits_def wit_indexer_def fits_def work_chunks_def wit_chunker_def)
qed

lemma wit_update_fits: "store_view s = [] \<Longrightarrow> update_fits wit_env (wit_indexer s)"
proof -
  assume v: "store_view s = []"
  have d: "dirty_paths (en_git wit_env) = Inr []"
    by (simp add: wit_env_def wit_gix_def dirty_paths_def git_error_def status_path_def)
  have "commit_changes wit_env base = Inr []" for base
    by (simp add: commit_changes_def changes_since_def wit_env_def wit_gix_def git_error_def List.map_filter_def)
  then show ?thesis using v d
    by (auto simp: update_fits_def gather_work_def bind_op_def lift_op_def ret_op_def fits_def work_chunks_def wit_indexer_def
        split: if_splits option.splits)
qed


lemma wit_start:
  obtains s where "store_create Map.empty 1 ''m'' = Inr s" "synced fst snd (wit_indexer s)"
    "fresh_generation (ix_store (wit_indexer s)) (en_generation wit_env)"
    "index_fits wit_env (wit_indexer s)" "update_fits wit_env (wit_indexer s)"
proof -
  obtain s where s: "store_create Map.empty 1 ''m'' = Inr s" "store_inv s" "store_view s = []"
    "cs_db_path s = DB_NAME" "cs_matrix_path s = MATRIX_NAME" "\<not> cs_fail_before_commit s" by (rule wit_store)
  have "fresh_generation (ix_store (wit_indexer s)) (en_generation wit_env)"
    using wit_fresh [OF s(4,5)] by (simp add: wit_indexer_def wit_env_def)
  then show ?thesis using that s(1) wit_synced [OF s(2,3,6)] wit_index_fits [OF s(3)] wit_update_fits [OF s(3)] by blast
qed




end
