(* ===== verification/Chunker.thy ===== *)
theory Chunker
  imports Content_Hash Exclusions Repo_Git
begin

text \<open>
  The chunker (\<open>crates/indexing/src/chunker.rs\<close>): symbols found by tree-sitter queries become chunks, with their
  documentation comments, qualified names, signatures, and fragments when they are too long. The
  parsing library is the record \<open>tree_sitter\<close>, a parameter; a node handle is the node with the named siblings
  before it, which is all the code asks of it. Slicing a string outside a character boundary is a panic.
\<close>

section \<open>Text\<close>

definition str_slice :: "string \<Rightarrow> nat \<Rightarrow> nat \<Rightarrow> (chunk_error, string) res" where
  "str_slice s i j = (if i \<le> j \<and> j \<le> length s \<and> is_char_boundary s i \<and> is_char_boundary s j
     then Inr (subslice i j s) else Inl (Panic ''byte index''))"

definition trim_start :: "bytes list \<Rightarrow> bytes list" where
  "trim_start cs = dropWhile is_whitespace cs"

definition trim :: "string \<Rightarrow> string" where
  "trim s = concat (trim_start (trim_end (chars s)))"

definition occurs_at :: "string \<Rightarrow> string \<Rightarrow> nat \<Rightarrow> bool" where
  "occurs_at p s i \<longleftrightarrow> i + length p \<le> length s \<and> take (length p) (drop i s) = p"

definition rfind :: "string \<Rightarrow> string \<Rightarrow> nat option" where
  "rfind p s = find (occurs_at p s) (rev [0..<Suc (length s)])"

definition contains :: "string \<Rightarrow> string \<Rightarrow> bool" where
  "contains p s \<longleftrightarrow> rfind p s \<noteq> None"

definition join_text :: "string list \<Rightarrow> string" where
  "join_text ls = join_with [newline] ls"

section \<open>Syntax trees\<close>

datatype ts_node = TsNode (ts_kind: string) (ts_start: nat) (ts_end: nat) (ts_error: bool) (ts_missing: bool)
  (ts_children: "ts_node list")

record capture =
  cap_name :: string
  cap_node :: ts_node
  cap_prev :: "ts_node list"

record tree_sitter =
  ts_set_language :: "language \<Rightarrow> bool"
  ts_query_new :: "language \<Rightarrow> string \<Rightarrow> string + unit"
  ts_parse :: "language \<Rightarrow> string \<Rightarrow> ts_node option"
  ts_matches :: "language \<Rightarrow> string \<Rightarrow> ts_node \<Rightarrow> string \<Rightarrow> capture list list"
  ts_descendant :: "ts_node \<Rightarrow> nat \<Rightarrow> nat \<Rightarrow> ts_node option"

section \<open>Data\<close>

definition OVERSIZE_CHAR_THRESHOLD :: nat where "OVERSIZE_CHAR_THRESHOLD = 2048"
definition FILE_PRELUDE_MIN_CHARS :: nat where "FILE_PRELUDE_MIN_CHARS = 80"
definition ERROR_NODE_RATIO_THRESHOLD :: f64 where "ERROR_NODE_RATIO_THRESHOLD = 0x3FE0000000000000"

record chunk =
  ck_record :: chunk_record
  ck_body :: string
  ck_fragment :: "nat option"

record chunk_diagnostic =
  cd_file :: string
  cd_message :: string

record file_chunks =
  fc_chunks :: "chunk list"
  fc_diagnostics :: "chunk_diagnostic list"

record lang_config =
  lc_language :: language
  lc_query :: string
  lc_container_kinds :: "string list"
  lc_statement_kinds :: "string list"

record symbol_hit =
  sh_kind :: string
  sh_name :: string
  sh_range :: "nat \<times> nat"
  sh_node_range :: "nat \<times> nat"
  sh_start_line :: nat
  sh_end_line :: nat
  sh_doc_first_line :: "string option"
  sh_is_container :: bool

section \<open>Languages\<close>

text \<open>The query texts up to the blanks between their tokens.\<close>

definition rust_config :: lang_config where
  "rust_config = \<lparr>lc_language = Rust, lc_query = join_text
     [''(function_item name: (identifier) @name) @def'',
      ''(struct_item name: (type_identifier) @name) @def'',
      ''(enum_item name: (type_identifier) @name) @def'',
      ''(impl_item type: (type_identifier) @name) @def'',
      ''(mod_item name: (identifier) @name) @def'',
      ''(trait_item name: (type_identifier) @name) @def''],
     lc_container_kinds = [''impl_item'', ''mod_item'', ''struct_item'', ''trait_item'', ''enum_item''],
     lc_statement_kinds = [''let_declaration'', ''expression_statement'', ''return_expression'', ''if_expression'',
       ''match_expression'', ''for_expression'', ''while_expression'', ''loop_expression'']\<rparr>"

definition python_config :: lang_config where
  "python_config = \<lparr>lc_language = Python, lc_query = join_text
     [''(function_definition name: (identifier) @name) @def'',
      ''(class_definition name: (identifier) @name) @def''],
     lc_container_kinds = [''class_definition''],
     lc_statement_kinds = [''expression_statement'', ''return_statement'', ''if_statement'', ''for_statement'',
       ''while_statement'', ''with_statement'', ''assignment'']\<rparr>"

definition typescript_config :: lang_config where
  "typescript_config = \<lparr>lc_language = TypeScript, lc_query = join_text
     [''(function_declaration name: (identifier) @name) @def'',
      ''(class_declaration name: (type_identifier) @name) @def'',
      ''(method_definition name: (property_identifier) @name) @def''],
     lc_container_kinds = [''class_declaration''],
     lc_statement_kinds = [''expression_statement'', ''return_statement'', ''if_statement'', ''for_statement'',
       ''while_statement'', ''lexical_declaration'', ''variable_declaration'']\<rparr>"

definition javascript_config :: lang_config where
  "javascript_config = \<lparr>lc_language = JavaScript, lc_query = join_text
     [''(function_declaration name: (identifier) @name) @def'',
      ''(class_declaration name: (identifier) @name) @def'',
      ''(method_definition name: (property_identifier) @name) @def''],
     lc_container_kinds = [''class_declaration''],
     lc_statement_kinds = [''expression_statement'', ''return_statement'', ''if_statement'', ''for_statement'',
       ''while_statement'', ''lexical_declaration'', ''variable_declaration'']\<rparr>"

definition go_config :: lang_config where
  "go_config = \<lparr>lc_language = Go, lc_query = join_text
     [''(function_declaration name: (identifier) @name) @def'',
      ''(method_declaration'',
      ''  receiver: (parameter_list'',
      ''    (parameter_declaration'',
      ''      type: ['',
      ''        (type_identifier) @recv'',
      ''        (pointer_type (type_identifier) @recv)'',
      ''      ]))'',
      ''  name: (field_identifier) @name) @def'',
      ''(type_declaration (type_spec name: (type_identifier) @name) @def)''],
     lc_container_kinds = [''type_declaration'', ''type_spec''],
     lc_statement_kinds = [''expression_statement'', ''return_statement'', ''if_statement'', ''for_statement'',
       ''short_var_declaration'', ''assignment_statement'']\<rparr>"

definition c_config :: lang_config where
  "c_config = \<lparr>lc_language = C, lc_query = join_text
     [''(function_definition'',
      ''  declarator: (function_declarator declarator: (identifier) @name)) @def'',
      ''(struct_specifier'',
      ''  name: (type_identifier) @name'',
      ''  body: (field_declaration_list)) @def''],
     lc_container_kinds = [''struct_specifier''],
     lc_statement_kinds = [''expression_statement'', ''return_statement'', ''if_statement'', ''for_statement'',
       ''while_statement'', ''declaration'']\<rparr>"

definition cpp_config :: lang_config where
  "cpp_config = \<lparr>lc_language = Cpp, lc_query = join_text
     [''(function_definition'',
      ''  declarator: (function_declarator declarator: ['',
      ''    (identifier) @name'',
      ''    (field_identifier) @name'',
      ''  ])) @def'',
      ''(class_specifier'',
      ''  name: (type_identifier) @name'',
      ''  body: (field_declaration_list)) @def'',
      ''(struct_specifier'',
      ''  name: (type_identifier) @name'',
      ''  body: (field_declaration_list)) @def''],
     lc_container_kinds = [''class_specifier'', ''struct_specifier''],
     lc_statement_kinds = [''expression_statement'', ''return_statement'', ''if_statement'', ''for_statement'',
       ''while_statement'', ''declaration'']\<rparr>"

definition chunker_new :: "tree_sitter \<Rightarrow> (chunk_error, lang_config list) res" where
  "chunker_new ts = map_res (\<lambda>cfg. case ts_query_new ts (lc_language cfg) (lc_query cfg) of
       Inl e \<Rightarrow> Inl (Raise (CParser e)) | Inr _ \<Rightarrow> Inr cfg)
     [rust_config, python_config, typescript_config, javascript_config, go_config, c_config, cpp_config]"

fun language_index :: "language \<Rightarrow> nat" where
  "language_index Rust = 0"
| "language_index Python = 1"
| "language_index TypeScript = 2"
| "language_index JavaScript = 3"
| "language_index Go = 4"
| "language_index C = 5"
| "language_index Cpp = 6"

section \<open>Error nodes\<close>

lemma size_list_children: "size_list size (ts_children n) < size n"
  by (cases n) simp

function error_bytes :: "ts_node list \<Rightarrow> nat \<Rightarrow> nat" where
  "error_bytes [] acc = acc"
| "error_bytes (n # stack) acc =
     (if ts_error n \<or> ts_missing n then error_bytes stack (acc + (ts_end n - ts_start n))
      else error_bytes (rev (ts_children n) @ stack) acc)"
  by pat_completeness auto
termination
  by (relation "measure (\<lambda>(stack, acc). size_list size stack)")
     (use size_list_children in \<open>auto simp: size_list_conv_sum_list rev_map [symmetric] intro: less_SucI\<close>)

definition error_byte_ratio :: "ts_node \<Rightarrow> f64" where
  "error_byte_ratio tree = f64_div (f64_of_nat (error_bytes [tree] 0)) (f64_of_nat (max (ts_end tree) 1))"

definition f64_ge :: "f64 \<Rightarrow> f64 \<Rightarrow> bool" where
  "f64_ge a b \<longleftrightarrow> \<not> fp_is_nan F64 (uint a) \<and> \<not> fp_is_nan F64 (uint b) \<and> fp_key F64 (uint b) \<le> fp_key F64 (uint a)"

section \<open>Documentation comments\<close>

fun drop_blanks :: "string \<Rightarrow> nat \<Rightarrow> nat" where
  "drop_blanks before 0 = 0"
| "drop_blanks before (Suc e) =
     (if before ! e \<in> {CHR '' '', CHR 0x09, CHR 0x0A, CHR 0x0D} then drop_blanks before e else Suc e)"

definition is_doc_comment_line :: "string \<Rightarrow> bool" where
  "is_doc_comment_line line \<longleftrightarrow>
     starts_with ''///'' line \<or> starts_with ''//!'' line \<or> starts_with ''/**'' line \<or> starts_with ''/*!'' line \<or>
     starts_with ''*'' line \<or> starts_with ''*/'' line \<or> starts_with ''/*'' line \<or> starts_with ''//'' line \<or>
     starts_with ''#'' line"

text \<open>The scan goes from the last line up; it yields the number of lines above the comment block, and the block.\<close>

fun comment_block :: "string list \<Rightarrow> string list \<Rightarrow> nat \<times> string list" where
  "comment_block [] comment_lines = (0, comment_lines)"
| "comment_block (l # rest) comment_lines =
     (let line = trim l
      in if line = [] \<and> comment_lines = [] then comment_block rest comment_lines
         else if is_doc_comment_line line then comment_block rest (l # comment_lines)
         else (Suc (length rest), comment_lines))"

fun line_offset :: "nat \<Rightarrow> nat \<Rightarrow> string list \<Rightarrow> nat \<Rightarrow> nat option" where
  "line_offset before_len i [] off = None"
| "line_offset before_len 0 (l # ls) off = Some off"
| "line_offset before_len (Suc i) (l # ls) off =
     (let off = off + length l
      in line_offset before_len i ls (if off < before_len then off + 1 else off))"

fun sibling_comments :: "string \<Rightarrow> ts_node list \<Rightarrow> nat option \<times> string option \<Rightarrow>
    (chunk_error, nat option \<times> string option) res" where
  "sibling_comments source [] doc = Inr doc"
| "sibling_comments source (p # prev) doc =
     (if contains ''comment'' (ts_kind p)
      then bind_res (str_slice source (ts_start p) (ts_end p)) (\<lambda>text.
        sibling_comments source prev (Some (ts_start p), case lines text of [] \<Rightarrow> None | l # _ \<Rightarrow> Some (trim l)))
      else Inr doc)"

definition attached_doc :: "string \<Rightarrow> ts_node \<Rightarrow> ts_node list \<Rightarrow> (chunk_error, nat option \<times> string option) res" where
  "attached_doc source node prev =
     bind_res (str_slice source 0 (ts_start node)) (\<lambda>before.
     bind_res (str_slice before 0 (drop_blanks before (length before))) (\<lambda>text.
     let ls = lines text;
         (idx, comment_lines) = comment_block (rev ls) [];
         (doc_start, first_line) =
           (case comment_lines of [] \<Rightarrow> (None, None)
            | first # _ \<Rightarrow> (case rfind first text of None \<Rightarrow> (None, None)
                | Some pos \<Rightarrow> (line_offset (length before) idx ls 0, Some (trim first))))
     in if doc_start = None then sibling_comments source prev (doc_start, first_line)
        else Inr (doc_start, first_line)))"

section \<open>Symbols\<close>

definition map_kind :: "string \<Rightarrow> string" where
  "map_kind kind =
     (if kind \<in> {''function_item'', ''function_definition'', ''function_declaration'', ''method_definition'',
                 ''method_declaration'', ''function''} then ''function''
      else if kind \<in> {''struct_item'', ''struct_specifier''} then ''struct''
      else if kind \<in> {''type_declaration'', ''type_spec''} then ''type''
      else if kind \<in> {''class_definition'', ''class_declaration'', ''class_specifier''} then ''class''
      else if kind = ''impl_item'' then ''impl''
      else if kind \<in> {''mod_item'', ''module'', ''internal_module''} then ''module''
      else if kind \<in> {''enum_item'', ''enum_specifier''} then ''enum''
      else if kind \<in> {''trait_item'', ''interface_declaration''} then ''trait''
      else kind)"

definition byte_to_line :: "string \<Rightarrow> nat \<Rightarrow> (chunk_error, nat) res" where
  "byte_to_line source byte =
     bind_res (str_slice source 0 (min byte (length source))) (\<lambda>before.
     Inr ((length (filter (\<lambda>b. b = newline) before) mod 2 ^ 32 + 1) mod 2 ^ 32))"

definition line_span :: "string \<Rightarrow> nat \<Rightarrow> nat \<Rightarrow> (chunk_error, nat \<times> nat) res" where
  "line_span source start stop =
     bind_res (byte_to_line source start) (\<lambda>start_line.
     if stop = 0 then Inr (start_line, start_line)
     else bind_res (byte_to_line source (max (stop - 1) start)) (\<lambda>end_line. Inr (start_line, end_line)))"

text \<open>The captures of a match are read in order; a later capture of the same name replaces the earlier one.\<close>

fun read_captures :: "string \<Rightarrow> capture list \<Rightarrow> string option \<times> string option \<times> capture option \<Rightarrow>
    (chunk_error, string option \<times> string option \<times> capture option) res" where
  "read_captures source [] acc = Inr acc"
| "read_captures source (cap # caps) (name, recv, def_node) =
     (if cap_name cap = ''name''
      then bind_res (str_slice source (ts_start (cap_node cap)) (ts_end (cap_node cap))) (\<lambda>t.
        read_captures source caps (Some t, recv, def_node))
      else if cap_name cap = ''recv''
      then bind_res (str_slice source (ts_start (cap_node cap)) (ts_end (cap_node cap))) (\<lambda>t.
        read_captures source caps (name, Some t, def_node))
      else if cap_name cap = ''def'' then read_captures source caps (name, recv, Some cap)
      else read_captures source caps (name, recv, def_node))"

definition symbol_of :: "string \<Rightarrow> lang_config \<Rightarrow> string \<Rightarrow> capture \<Rightarrow> (chunk_error, symbol_hit) res" where
  "symbol_of source cfg name cap =
     (let node = cap_node cap
      in bind_res (attached_doc source node (cap_prev cap)) (\<lambda>(doc_start, doc_first).
         let start_byte = (case doc_start of Some d \<Rightarrow> d | None \<Rightarrow> ts_start node);
             end_byte = ts_end node
         in bind_res (byte_to_line source start_byte) (\<lambda>start_line.
            bind_res (byte_to_line source (max (end_byte - 1) start_byte)) (\<lambda>end_line.
            Inr \<lparr>sh_kind = map_kind (ts_kind node), sh_name = name, sh_range = (start_byte, end_byte),
                 sh_node_range = (ts_start node, ts_end node), sh_start_line = start_line, sh_end_line = end_line,
                 sh_doc_first_line = doc_first, sh_is_container = (ts_kind node \<in> set (lc_container_kinds cfg))\<rparr>))))"

definition match_symbol :: "string \<Rightarrow> lang_config \<Rightarrow> capture list \<Rightarrow> (chunk_error, symbol_hit list) res" where
  "match_symbol source cfg caps = bind_res (read_captures source caps (None, None, None)) (\<lambda>r.
     case r of
       (Some name, recv, Some cap) \<Rightarrow>
         bind_res (symbol_of source cfg (case recv of Some t \<Rightarrow> t @ ''::'' @ name | None \<Rightarrow> name) cap) (\<lambda>h. Inr [h])
     | _ \<Rightarrow> Inr [])"

definition after_last_separator :: "string \<Rightarrow> string" where
  "after_last_separator s = (case rfind ''::'' s of None \<Rightarrow> s | Some i \<Rightarrow> drop (i + 2) s)"

definition qualify_name :: "symbol_hit list \<Rightarrow> symbol_hit \<Rightarrow> symbol_hit" where
  "qualify_name snapshot hit =
     (let parents = sort_key (\<lambda>p. fst (sh_range p)) (filter (\<lambda>p. sh_is_container p \<and>
            fst (sh_range p) \<le> fst (sh_range hit) \<and> snd (sh_range hit) \<le> snd (sh_range p) \<and>
            sh_range p \<noteq> sh_range hit) snapshot);
          parent_simple = map (\<lambda>p. after_last_separator (sh_name p)) parents
      in if parent_simple = [] then hit
         else hit\<lparr>sh_name := join_with ''::'' parent_simple @ ''::'' @ after_last_separator (sh_name hit)\<rparr>)"

definition qualify_names :: "symbol_hit list \<Rightarrow> symbol_hit list" where
  "qualify_names hits = map (qualify_name hits) hits"

definition collect_symbols :: "tree_sitter \<Rightarrow> ts_node \<Rightarrow> string \<Rightarrow> lang_config \<Rightarrow> (chunk_error, symbol_hit list) res" where
  "collect_symbols ts tree source cfg =
     bind_res (map_res (match_symbol source cfg) (ts_matches ts (lc_language cfg) (lc_query cfg) tree source)) (\<lambda>hits.
     Inr (qualify_names (concat hits)))"

definition order_with_containers :: "symbol_hit list \<Rightarrow> symbol_hit list" where
  "order_with_containers hits = sort_key sh_range hits"

section \<open>Bodies\<close>

definition range_contains :: "nat \<times> nat \<Rightarrow> nat \<times> nat \<Rightarrow> bool" where
  "range_contains outer inner \<longleftrightarrow> fst outer \<le> fst inner \<and> snd inner \<le> snd outer \<and> outer \<noteq> inner"

fun cut_members :: "string \<Rightarrow> nat \<Rightarrow> (nat \<times> nat) list \<Rightarrow> nat \<Rightarrow> string \<Rightarrow> (chunk_error, nat \<times> string) res" where
  "cut_members source outer_end [] cursor out = Inr (cursor, out)"
| "cut_members source outer_end (m # ms) cursor out =
     bind_res (if cursor < fst m \<and> fst m \<le> outer_end
               then bind_res (str_slice source cursor (fst m)) (\<lambda>t. Inr (out @ t)) else Inr out) (\<lambda>out.
     cut_members source outer_end ms (max cursor (snd m)) out)"

definition body_minus_members :: "string \<Rightarrow> nat \<times> nat \<Rightarrow> (nat \<times> nat) list \<Rightarrow> (chunk_error, string) res" where
  "body_minus_members source outer members =
     bind_res (cut_members source (snd outer) (sort_key fst members) (fst outer) []) (\<lambda>(cursor, out).
     if cursor < snd outer then bind_res (str_slice source cursor (snd outer)) (\<lambda>t. Inr (out @ t)) else Inr out)"

definition first_signature_line :: "string \<Rightarrow> nat \<times> nat \<Rightarrow> (chunk_error, string) res" where
  "first_signature_line source node_range =
     bind_res (str_slice source (fst node_range) (snd node_range)) (\<lambda>text.
     Inr (trim (case find (\<lambda>l. trim l \<noteq> []) (map (\<lambda>l. concat (trim_end (chars l))) (lines text)) of
       Some l \<Rightarrow> l | None \<Rightarrow> [])))"

section \<open>Fragments\<close>

definition prefix_sig :: "string \<Rightarrow> string \<Rightarrow> string" where
  "prefix_sig signature body = (if starts_with signature body then body else signature @ [newline] @ body)"

definition strip_sig_prefix :: "string \<Rightarrow> string \<Rightarrow> string" where
  "strip_sig_prefix text signature = (case strip_prefix signature text of None \<Rightarrow> text
     | Some s \<Rightarrow> (case strip_prefix [newline] s of None \<Rightarrow> s | Some r \<Rightarrow> r))"

fun split_lines :: "string list \<Rightarrow> string \<Rightarrow> string list \<Rightarrow> string list" where
  "split_lines [] buf out = (if buf \<noteq> [] then out @ [buf] else out)"
| "split_lines (line # ls) buf out =
     (let full = (buf \<noteq> [] \<and> OVERSIZE_CHAR_THRESHOLD < char_count buf + char_count line + 1);
          out = (if full then out @ [buf] else out);
          buf = (if full then [] else buf);
          buf = (if buf \<noteq> [] then buf @ [newline] else buf)
      in split_lines ls (buf @ line) out)"

definition hard_split :: "string \<Rightarrow> string \<Rightarrow> string list" where
  "hard_split body signature =
     (let out = map (prefix_sig signature) (split_lines (lines body) [] [])
      in if out = [] then [prefix_sig signature body] else out)"

function statement_ends :: "string list \<Rightarrow> nat \<times> nat \<Rightarrow> ts_node list \<Rightarrow> nat list \<Rightarrow> nat list" where
  "statement_ends kinds rng [] acc = acc"
| "statement_ends kinds rng (n # stack) acc =
     statement_ends kinds rng (rev (ts_children n) @ stack)
       (if ts_kind n \<in> set kinds \<and> fst rng \<le> ts_start n \<and> ts_end n \<le> snd rng then acc @ [ts_end n] else acc)"
  by pat_completeness auto
termination
  by (relation "measure (\<lambda>(kinds, rng, stack, acc). size_list size stack)")
     (use size_list_children in \<open>auto simp: size_list_conv_sum_list rev_map [symmetric] intro: less_SucI\<close>)

text \<open>The loop over the statement ends: the fragments so far, the start of the next one and the last cut seen.\<close>

fun split_statements :: "string \<Rightarrow> string \<Rightarrow> nat \<Rightarrow> nat list \<Rightarrow> nat \<Rightarrow> nat \<Rightarrow> string list \<Rightarrow>
    (chunk_error, string list \<times> nat) res" where
  "split_statements full signature base [] start last_cut fragments = Inr (fragments, start)"
| "split_statements full signature base (end_abs # ends) start last_cut fragments =
     (let stop = end_abs - base
      in if stop \<le> start \<or> length full < stop then split_statements full signature base ends start last_cut fragments
         else bind_res (str_slice full start stop) (\<lambda>candidate.
           if OVERSIZE_CHAR_THRESHOLD div 2 \<le> char_count candidate \<and> char_count candidate \<le> OVERSIZE_CHAR_THRESHOLD
           then split_statements full signature base ends stop stop (fragments @ [prefix_sig signature candidate])
           else if OVERSIZE_CHAR_THRESHOLD < char_count candidate
           then bind_res (if start < last_cut
                  then bind_res (str_slice full start last_cut) (\<lambda>t. Inr (fragments @ [prefix_sig signature t], last_cut))
                  else Inr (fragments, start)) (\<lambda>(fragments, start).
                bind_res (str_slice full start stop) (\<lambda>t.
                split_statements full signature base ends stop stop (fragments @ [prefix_sig signature t])))
           else split_statements full signature base ends start stop fragments))"

definition append_rest :: "string \<Rightarrow> string \<Rightarrow> string list \<Rightarrow> nat \<Rightarrow> (chunk_error, string list) res" where
  "append_rest full signature fragments start =
     (if length full \<le> start then Inr fragments
      else bind_res (str_slice full start (length full)) (\<lambda>tail.
        let rest = trim tail
        in if rest = [] then Inr fragments
           else if fragments = [] then Inr [prefix_sig signature tail]
           else if char_count (last fragments) + char_count rest \<le> OVERSIZE_CHAR_THRESHOLD
           then Inr (butlast fragments @
                  [prefix_sig signature (strip_sig_prefix (last fragments) signature @ rest)])
           else Inr (fragments @ [prefix_sig signature tail])))"

definition split_if_oversize :: "tree_sitter \<Rightarrow> string \<Rightarrow> lang_config \<Rightarrow> ts_node \<Rightarrow> symbol_hit \<Rightarrow> string \<Rightarrow> string \<Rightarrow>
    (chunk_error, string list) res" where
  "split_if_oversize ts source cfg tree hit body signature =
     (if char_count body \<le> OVERSIZE_CHAR_THRESHOLD then Inr [body]
      else let node = (case ts_descendant ts tree (fst (sh_node_range hit)) (snd (sh_node_range hit)) of
                 Some n \<Rightarrow> n | None \<Rightarrow> tree);
               stmt_ends = remdups_adj (sort (statement_ends (lc_statement_kinds cfg) (sh_node_range hit) [node] []))
      in if stmt_ends = [] then Inr (hard_split body signature)
         else bind_res (str_slice source (fst (sh_range hit)) (snd (sh_range hit))) (\<lambda>full.
              bind_res (split_statements full signature (fst (sh_range hit)) stmt_ends 0 0 []) (\<lambda>(fragments, start).
              bind_res (append_rest full signature fragments start) (\<lambda>fragments.
              Inr (if fragments = [] then hard_split body signature else fragments)))))"

section \<open>File prelude\<close>

definition prelude_span :: "string \<Rightarrow> (nat \<times> nat) list \<Rightarrow> (nat \<times> nat) option" where
  "prelude_span source covered =
     (if covered = [] then (if trim source = [] then None else Some (0, length source))
      else let first = fst (hd (sort_key fst covered)) in if first = 0 then None else Some (0, first))"

definition file_prelude :: "string \<Rightarrow> (nat \<times> nat) list \<Rightarrow> (chunk_error, string option) res" where
  "file_prelude source covered = (case prelude_span source covered of None \<Rightarrow> Inr None
     | Some (start, stop) \<Rightarrow> bind_res (str_slice source start stop) (\<lambda>t.
         let text = trim t in Inr (if FILE_PRELUDE_MIN_CHARS \<le> char_count text then Some text else None)))"

section \<open>Chunking a file\<close>

definition record_of :: "(bytes \<Rightarrow> bytes) \<Rightarrow> string \<Rightarrow> language \<Rightarrow> symbol_hit \<Rightarrow> string \<Rightarrow> string \<Rightarrow> chunk_record" where
  "record_of blake3 rel_path language hit signature frag_body =
     \<lparr>rec_repository = [], rec_file = replace_char (CHR 0x5C) (CHR ''/'') rel_path, rec_language = language_str language,
      rec_symbol = sh_name hit, rec_symbol_type = sh_kind hit, rec_signature = signature,
      rec_doc_first_line = sh_doc_first_line hit, rec_line_start = sh_start_line hit, rec_line_end = sh_end_line hit,
      rec_content_hash = content_hash_of blake3 language (sh_name hit) frag_body\<rparr>"

definition hit_body :: "string \<Rightarrow> symbol_hit list \<Rightarrow> symbol_hit \<Rightarrow> (chunk_error, string) res" where
  "hit_body source ordered hit =
     (let member_ranges = map sh_range (filter (\<lambda>m. sh_range m \<noteq> sh_range hit \<and> range_contains (sh_range hit) (sh_range m)) ordered)
      in if sh_is_container hit \<and> member_ranges \<noteq> [] then body_minus_members source (sh_range hit) member_ranges
         else str_slice source (fst (sh_range hit)) (snd (sh_range hit)))"

definition hit_chunks :: "tree_sitter \<Rightarrow> (bytes \<Rightarrow> bytes) \<Rightarrow> string \<Rightarrow> language \<Rightarrow> string \<Rightarrow> lang_config \<Rightarrow> ts_node \<Rightarrow>
    symbol_hit list \<Rightarrow> symbol_hit \<Rightarrow> (chunk_error, (nat \<times> nat) list \<times> chunk list) res" where
  "hit_chunks ts blake3 rel_path language source cfg tree ordered hit =
     bind_res (hit_body source ordered hit) (\<lambda>body.
     if trim body = [] then Inr ([], [])
     else bind_res (first_signature_line source (sh_node_range hit)) (\<lambda>signature.
          bind_res (split_if_oversize ts source cfg tree hit body signature) (\<lambda>fragments.
          let split = (OVERSIZE_CHAR_THRESHOLD < char_count body)
          in Inr ([sh_range hit], map (\<lambda>(frag_idx, frag_body).
               \<lparr>ck_record = record_of blake3 rel_path language hit signature frag_body, ck_body = frag_body,
                ck_fragment = (if split then Some (frag_idx mod 2 ^ 32) else None)\<rparr>) (enumerate 0 fragments)))))"

definition prelude_chunk :: "(bytes \<Rightarrow> bytes) \<Rightarrow> string \<Rightarrow> language \<Rightarrow> string \<Rightarrow> nat \<times> nat \<Rightarrow> chunk" where
  "prelude_chunk blake3 rel_path language prelude ls =
     \<lparr>ck_record = \<lparr>rec_repository = [], rec_file = replace_char (CHR 0x5C) (CHR ''/'') rel_path,
        rec_language = language_str language, rec_symbol = ''<file_prelude>'', rec_symbol_type = ''file_prelude'',
        rec_signature = [], rec_doc_first_line = None, rec_line_start = fst ls, rec_line_end = snd ls,
        rec_content_hash = content_hash_of blake3 language ''<file_prelude>'' prelude\<rparr>,
      ck_body = prelude, ck_fragment = None\<rparr>"

definition add_prelude :: "(bytes \<Rightarrow> bytes) \<Rightarrow> string \<Rightarrow> language \<Rightarrow> string \<Rightarrow> (nat \<times> nat) list \<Rightarrow> chunk list \<Rightarrow>
    (chunk_error, chunk list) res" where
  "add_prelude blake3 rel_path language source covered chunks =
     bind_res (file_prelude source covered) (\<lambda>p. case p of None \<Rightarrow> Inr chunks
     | Some prelude \<Rightarrow>
         let (ps, pe) = (case prelude_span source covered of Some r \<Rightarrow> r | None \<Rightarrow> (0, length source))
         in bind_res (line_span source ps pe) (\<lambda>ls. Inr (prelude_chunk blake3 rel_path language prelude ls # chunks)))"

definition diagnosed :: "string \<Rightarrow> string \<Rightarrow> (chunk_error, file_chunks) res" where
  "diagnosed rel_path message = Inr \<lparr>fc_chunks = [], fc_diagnostics = [\<lparr>cd_file = rel_path, cd_message = message\<rparr>]\<rparr>"

definition chunk_file :: "tree_sitter \<Rightarrow> (bytes \<Rightarrow> bytes) \<Rightarrow> lang_config list \<Rightarrow> string \<Rightarrow> language \<Rightarrow> string \<Rightarrow>
    (chunk_error, file_chunks) res" where
  "chunk_file ts blake3 configs rel_path language source =
     (let cfg = configs ! language_index language
      in if \<not> ts_set_language ts (lc_language cfg) then diagnosed rel_path (''failed to set language for '' @ rel_path)
         else case ts_parse ts (lc_language cfg) source of
           None \<Rightarrow> diagnosed rel_path (''parse returned no tree for '' @ rel_path)
         | Some tree \<Rightarrow>
           if f64_ge (error_byte_ratio tree) ERROR_NODE_RATIO_THRESHOLD
           then diagnosed rel_path (''parse failed for '' @ rel_path @ '': too many error nodes'')
           else bind_res (collect_symbols ts tree source cfg) (\<lambda>hits.
             let ordered = order_with_containers hits
             in bind_res (map_res (hit_chunks ts blake3 rel_path language source cfg tree ordered) ordered) (\<lambda>parts.
                bind_res (add_prelude blake3 rel_path language source (concat (map fst parts)) (concat (map snd parts))) (\<lambda>chunks.
                Inr \<lparr>fc_chunks = chunks, fc_diagnostics = []\<rparr>))))"

end
