(* ===== verification/Chunker_Props.thy ===== *)
theory Chunker_Props
  imports Chunker
begin

text \<open>
  Properties of the chunker: on ASCII sources it never panics, every chunk carries the hash of its own body and
  a line span inside the file, and splitting an oversize body loses no line.
\<close>

section \<open>Results that do not fail\<close>

definition returns :: "('e, 'a) res \<Rightarrow> ('a \<Rightarrow> bool) \<Rightarrow> bool" where
  "returns m P \<longleftrightarrow> (\<exists>a. m = Inr a \<and> P a)"

named_theorems returns_intros \<open>introduction rules for results that do not fail\<close>

lemma returns_Inr [returns_intros]: "P a \<Longrightarrow> returns (Inr a) P"
  by (simp add: returns_def)

lemma returns_bind [returns_intros]: "returns m P \<Longrightarrow> (\<And>a. P a \<Longrightarrow> returns (f a) Q) \<Longrightarrow> returns (bind_res m f) Q"
  by (auto simp: returns_def)

lemma returns_weaken: "returns m P \<Longrightarrow> (\<And>a. P a \<Longrightarrow> Q a) \<Longrightarrow> returns m Q"
  by (auto simp: returns_def)

lemma returns_map_res: "(\<And>x. x \<in> set xs \<Longrightarrow> returns (f x) P) \<Longrightarrow> returns (map_res f xs) (list_all P)"
proof (induction xs)
  case (Cons x xs)
  have "returns (map_res f xs) (list_all P)" using Cons by simp
  moreover have "returns (f x) P" using Cons by simp
  ultimately show ?case by (auto intro!: returns_intros elim: returns_weaken simp: returns_def)
qed (simp add: returns_def)

section \<open>Slices of ASCII text\<close>

abbreviation ascii :: "string \<Rightarrow> bool" where
  "ascii s \<equiv> list_all is_ascii s"

lemma ascii_boundary: "ascii s \<Longrightarrow> i \<le> length s \<Longrightarrow> is_char_boundary s i"
  by (auto simp: is_char_boundary_def list_all_length is_ascii_def is_cont_def byte_in_def not_le)

lemma ascii_subslice: "ascii s \<Longrightarrow> ascii (subslice i j s)"
  by (auto simp: subslice_def list_all_iff dest: in_set_takeD in_set_dropD)

lemma slice_ascii: "ascii s \<Longrightarrow> i \<le> j \<Longrightarrow> j \<le> length s \<Longrightarrow> str_slice s i j = Inr (subslice i j s)"
  by (simp add: str_slice_def ascii_boundary)

lemma returns_slice:
  "ascii s \<Longrightarrow> i \<le> j \<Longrightarrow> j \<le> length s \<Longrightarrow> returns (str_slice s i j) (\<lambda>t. ascii t \<and> length t = j - i)"
  by (auto simp: slice_ascii returns_def ascii_subslice)

section \<open>Documentation comments\<close>

definition node_within :: "string \<Rightarrow> ts_node \<Rightarrow> bool" where
  "node_within source n \<longleftrightarrow> ts_start n \<le> ts_end n \<and> ts_end n \<le> length source"

definition capture_within :: "string \<Rightarrow> capture \<Rightarrow> bool" where
  "capture_within source c \<longleftrightarrow> node_within source (cap_node c) \<and>
     (\<forall>p \<in> set (cap_prev c). node_within source p \<and> ts_end p \<le> ts_start (cap_node c))"

lemma drop_blanks_le: "drop_blanks s n \<le> n"
  by (induction s n rule: drop_blanks.induct) auto

lemma split_on_weight: "sum_list (map (\<lambda>l. Suc (length l)) (split_on c s)) = Suc (length s)"
proof (induction s)
  case (Cons x s)
  then show ?case by (cases "split_on c s") auto
qed simp

lemma lines_weight: "sum_list (map (\<lambda>l. Suc (length l)) (lines s)) \<le> Suc (length s)"
proof -
  let ?w = "\<lambda>ls. sum_list (map (\<lambda>l. Suc (length l)) ls)"
  obtain ps p where ps: "split_on newline s = ps @ [p]" by (metis append_butlast_last_id split_on_nonempty)
  have "?w (map strip_cr ps) \<le> ?w ps" by (induction ps) (auto simp: strip_cr_def intro!: add_mono)
  moreover have "?w ps + Suc (length p) = Suc (length s)" using split_on_weight [of newline s] by (simp add: ps)
  ultimately show ?thesis by (simp add: lines_def ps)
qed

lemma line_offset_bound:
  "line_offset b i ls off = Some d \<Longrightarrow> d < off + sum_list (map (\<lambda>l. Suc (length l)) ls)"
proof (induction b i ls off rule: line_offset.induct)
  case (3 b i l ls off)
  then show ?case by (auto simp: Let_def split: if_splits)
qed auto

lemma returns_sibling_comments:
  assumes "ascii source" "\<forall>p \<in> set prev. node_within source p \<and> ts_end p \<le> n" "\<forall>d. fst doc = Some d \<longrightarrow> d \<le> n"
  shows "returns (sibling_comments source prev doc) (\<lambda>r. \<forall>d. fst r = Some d \<longrightarrow> d \<le> n)"
  using assms
proof (induction source prev doc rule: sibling_comments.induct)
  case (2 source p prev doc)
  have w: "ts_start p \<le> ts_end p" "ts_end p \<le> length source" "ts_end p \<le> n" using 2 by (auto simp: node_within_def)
  have IH: "contains ''comment'' (ts_kind p) \<Longrightarrow>
      returns (sibling_comments source prev (Some (ts_start p), case lines t of [] \<Rightarrow> None | l # _ \<Rightarrow> Some (trim l)))
       (\<lambda>r. \<forall>d. fst r = Some d \<longrightarrow> d \<le> n)" for t
    using 2 w by simp
  show ?case
  proof (cases "contains ''comment'' (ts_kind p)")
    case True
    then show ?thesis using IH by (simp add: slice_ascii [OF 2(2) w(1,2)])
  qed (use 2 in \<open>simp add: returns_def\<close>)
qed (simp add: returns_def)

lemma returns_attached_doc:
  assumes "ascii source" "capture_within source c"
  shows "returns (attached_doc source (cap_node c) (cap_prev c))
     (\<lambda>r. \<forall>d. fst r = Some d \<longrightarrow> d \<le> ts_start (cap_node c))" (is "returns _ ?Q")
proof -
  let ?n = "ts_start (cap_node c)"
  have n: "?n \<le> length source" using assms(2) by (auto simp: capture_within_def node_within_def)
  obtain before where b: "str_slice source 0 ?n = Inr before" "ascii before" "length before = ?n"
    using returns_slice [OF assms(1) zero_le n] by (auto simp: returns_def)
  obtain above_text where t: "str_slice before 0 (drop_blanks before (length before)) = Inr above_text" "length above_text \<le> ?n"
    using returns_slice [OF b(2) zero_le drop_blanks_le [of before "length before"]] drop_blanks_le [of before "length before"] b(3)
    by (auto simp: returns_def)
  have off: "d \<le> ?n" if "line_offset m i (lines above_text) 0 = Some d" for m i d
    using line_offset_bound [OF that] lines_weight [of above_text] t(2) by simp
  have sib: "returns (sibling_comments source (cap_prev c) (None, x)) ?Q" for x
    using returns_sibling_comments [of source "cap_prev c" ?n "(None, x)"] assms by (simp add: capture_within_def)
  obtain idx ls where "comment_block (rev (lines above_text)) [] = (idx, ls)" by fastforce
  then show ?thesis
    unfolding attached_doc_def b(1) t(1) bind_res_simps Let_def
    using sib off by (auto intro!: returns_Inr split: list.splits option.splits)
qed

section \<open>Symbols of ASCII text\<close>

definition hit_within :: "string \<Rightarrow> symbol_hit \<Rightarrow> bool" where
  "hit_within source h \<longleftrightarrow> fst (sh_range h) \<le> fst (sh_node_range h) \<and> fst (sh_node_range h) \<le> snd (sh_node_range h) \<and>
     snd (sh_node_range h) = snd (sh_range h) \<and> snd (sh_range h) \<le> length source"

abbreviation succeeds :: "('e, 'a) res \<Rightarrow> bool" where
  "succeeds m \<equiv> returns m (\<lambda>_. True)"

lemma returns_byte_to_line: "ascii source \<Longrightarrow> succeeds (byte_to_line source byte)"
  by (simp add: byte_to_line_def slice_ascii returns_def)

lemma returns_line_span: "ascii source \<Longrightarrow> succeeds (line_span source start stop)"
  unfolding line_span_def
  by (rule returns_bind, erule returns_byte_to_line)
     (auto intro!: returns_Inr returns_bind [OF returns_byte_to_line])

lemma returns_symbol_of:
  assumes "ascii source" "capture_within source c"
  shows "returns (symbol_of source cfg name c) (hit_within source)"
proof -
  have n: "node_within source (cap_node c)" using assms(2) by (simp add: capture_within_def)
  obtain doc_start doc_first where doc: "attached_doc source (cap_node c) (cap_prev c) = Inr (doc_start, doc_first)"
      "\<forall>d. doc_start = Some d \<longrightarrow> d \<le> ts_start (cap_node c)"
    using returns_attached_doc [OF assms] by (auto simp: returns_def)
  let ?start = "case doc_start of Some d \<Rightarrow> d | None \<Rightarrow> ts_start (cap_node c)"
  have d: "?start \<le> ts_start (cap_node c)" using doc(2) by (auto split: option.splits)
  have "\<exists>l. byte_to_line source b = Inr l" for b
    using returns_byte_to_line [OF assms(1)] by (simp add: returns_def)
  then obtain l1 l2 where l: "byte_to_line source ?start = Inr l1" "byte_to_line source (max (ts_end (cap_node c) - 1) ?start) = Inr l2"
    by metis
  show ?thesis
    unfolding symbol_of_def Let_def doc(1) bind_res_simps prod.case l
    using d n by (simp add: returns_def hit_within_def node_within_def)
qed

lemma returns_read_captures:
  assumes "ascii source" "list_all (capture_within source) caps" "\<forall>c. snd (snd acc) = Some c \<longrightarrow> capture_within source c"
  shows "returns (read_captures source caps acc) (\<lambda>r. \<forall>c. snd (snd r) = Some c \<longrightarrow> capture_within source c)"
  using assms
proof (induction source caps acc rule: read_captures.induct)
  case (2 source cap caps name recv def_node)
  have "node_within source (cap_node cap)" using 2 by (simp add: capture_within_def)
  then have "str_slice source (ts_start (cap_node cap)) (ts_end (cap_node cap)) =
      Inr (subslice (ts_start (cap_node cap)) (ts_end (cap_node cap)) source)"
    using slice_ascii [OF 2(5)] by (simp add: node_within_def)
  then show ?case using 2 by simp
qed (simp add: returns_def)

lemma returns_match_symbol:
  assumes "ascii source" "list_all (capture_within source) caps"
  shows "returns (match_symbol source cfg caps) (list_all (hit_within source))"
  unfolding match_symbol_def
proof (rule returns_bind, rule returns_read_captures [OF assms])
  fix r :: "string option \<times> string option \<times> capture option"
  assume r: "\<forall>c. snd (snd r) = Some c \<longrightarrow> capture_within source c"
  obtain name recv def_node where r': "r = (name, recv, def_node)" by (cases r)
  show "returns (case r of (Some name, recv, Some cap) \<Rightarrow>
         bind_res (symbol_of source cfg (case recv of Some t \<Rightarrow> t @ ''::'' @ name | None \<Rightarrow> name) cap) (\<lambda>h. Inr [h])
       | _ \<Rightarrow> Inr []) (list_all (hit_within source))"
    using r returns_symbol_of [OF assms(1)] unfolding r'
    by (auto split: option.splits intro!: returns_Inr returns_bind simp del: append.simps append_assoc)
qed simp

lemma hit_within_qualify [simp]: "hit_within source (qualify_name hits h) = hit_within source h"
  by (simp add: hit_within_def qualify_name_def Let_def)

lemma returns_collect_symbols:
  assumes "ascii source" "\<And>m. m \<in> set (ts_matches ts (lc_language cfg) (lc_query cfg) tree source) \<Longrightarrow> list_all (capture_within source) m"
  shows "returns (collect_symbols ts tree source cfg) (list_all (hit_within source))"
  unfolding collect_symbols_def
proof (rule returns_bind, rule returns_map_res)
  fix hits assume "list_all (list_all (hit_within source)) hits"
  then show "returns (Inr (qualify_names (concat hits))) (list_all (hit_within source))"
    by (auto simp: returns_def qualify_names_def list_all_iff)
qed (rule returns_match_symbol [OF assms])

section \<open>Bodies and fragments of ASCII text\<close>

lemma returns_cut_members:
  "ascii source \<Longrightarrow> outer_end \<le> length source \<Longrightarrow> succeeds (cut_members source outer_end ms cursor out)"
  by (induction source outer_end ms cursor out rule: cut_members.induct)
     (auto simp: slice_ascii returns_def)

lemma returns_hit_body: "ascii source \<Longrightarrow> hit_within source h \<Longrightarrow> succeeds (hit_body source ordered h)"
  unfolding hit_body_def body_minus_members_def Let_def
  by (auto simp: hit_within_def intro!: returns_bind [OF returns_cut_members] returns_Inr)
     (auto simp: slice_ascii returns_def)

lemma returns_first_signature_line: "ascii source \<Longrightarrow> hit_within source h \<Longrightarrow> succeeds (first_signature_line source (sh_node_range h))"
  by (auto simp: first_signature_line_def slice_ascii hit_within_def returns_def)

lemma returns_split_statements:
  "ascii full \<Longrightarrow> start \<le> length full \<Longrightarrow> last_cut \<le> length full \<Longrightarrow> sorted ends \<Longrightarrow> \<forall>e \<in> set ends. last_cut \<le> e - base \<Longrightarrow>
   returns (split_statements full signature base ends start last_cut fragments) (\<lambda>(_, start). start \<le> length full)"
proof (induction full signature base ends start last_cut fragments rule: split_statements.induct)
  case (2 full signature base end_abs ends start last_cut fragments)
  have later: "\<forall>e \<in> set ends. end_abs - base \<le> e - base" using "2.prems"(4) by (auto intro: diff_le_mono)
  show ?case
  proof (cases "end_abs - base \<le> start \<or> length full < end_abs - base")
    case True
    then show ?thesis using 2 by simp
  next
    case False
    then have "str_slice full start (end_abs - base) = Inr (subslice start (end_abs - base) full)"
      "start < last_cut \<Longrightarrow> str_slice full start last_cut = Inr (subslice start last_cut full)"
      "str_slice full last_cut (end_abs - base) = Inr (subslice last_cut (end_abs - base) full)"
      using slice_ascii 2 by simp_all
    then show ?thesis using 2 False later by (auto simp: Let_def simp del: append_assoc)
  qed
qed (simp add: returns_def)

lemma returns_append_rest: "ascii full \<Longrightarrow> succeeds (append_rest full signature fragments start)"
  by (auto simp: append_rest_def slice_ascii returns_def Let_def)

lemma returns_split_if_oversize:
  assumes "ascii source" "hit_within source h"
  shows "succeeds (split_if_oversize ts source cfg tree h body signature)"
proof -
  let ?full = "subslice (fst (sh_range h)) (snd (sh_range h)) source"
  have "ascii ?full" using assms(1) by (rule ascii_subslice)
  then have "returns (split_statements ?full signature base (remdups_adj (sort ends)) 0 0 []) (\<lambda>(_, start). start \<le> length ?full)" for base ends
    by (rule returns_split_statements) (simp_all add: sorted_remdups_adj)
  then have "\<exists>fragments start. split_statements ?full signature base (remdups_adj (sort ends)) 0 0 [] = Inr (fragments, start)" for base ends
    by (fastforce simp: returns_def)
  moreover have "\<exists>fs. append_rest ?full signature fragments start = Inr fs" for fragments start
    using returns_append_rest [OF \<open>ascii ?full\<close>] by (simp add: returns_def)
  moreover have "str_slice source (fst (sh_range h)) (snd (sh_range h)) = Inr ?full"
    using assms by (intro slice_ascii) (auto simp: hit_within_def)
  ultimately show ?thesis
    unfolding split_if_oversize_def Let_def returns_def by (smt (verit, best) bind_res_simps(2) case_prod_conv)
qed

section \<open>Files\<close>

lemma returns_hit_chunks:
  assumes "ascii source" "hit_within source h"
  shows "returns (hit_chunks ts blake3 rel_path language source cfg tree ordered h) (\<lambda>(cov, _). \<forall>r \<in> set cov. fst r \<le> length source)"
  unfolding hit_chunks_def
proof (rule returns_bind, rule returns_hit_body [OF assms])
  fix body
  obtain signature where sig: "first_signature_line source (sh_node_range h) = Inr signature"
    using returns_first_signature_line [OF assms] by (auto simp: returns_def)
  obtain fragments where "split_if_oversize ts source cfg tree h body signature = Inr fragments"
    using returns_split_if_oversize [OF assms] by (fastforce simp: returns_def)
  then show "returns (if trim body = [] then Inr ([], [])
     else bind_res (first_signature_line source (sh_node_range h)) (\<lambda>signature.
          bind_res (split_if_oversize ts source cfg tree h body signature) (\<lambda>fragments.
          let split = OVERSIZE_CHAR_THRESHOLD < char_count body
          in Inr ([sh_range h], map (\<lambda>(frag_idx, frag_body).
               \<lparr>ck_record = record_of blake3 rel_path language h signature frag_body, ck_body = frag_body,
                ck_fragment = if split then Some (frag_idx mod 2 ^ 32) else None\<rparr>) (enumerate 0 fragments)))))
     (\<lambda>(cov, _). \<forall>r \<in> set cov. fst r \<le> length source)"
    using assms(2) sig by (auto simp: returns_def Let_def hit_within_def)
qed

lemma sort_key_hd_in: "xs \<noteq> [] \<Longrightarrow> hd (sort_key f xs) \<in> set xs"
  by (metis hd_in_set set_empty set_sort)

lemma prelude_span_within: "\<forall>r \<in> set covered. fst r \<le> length source \<Longrightarrow> prelude_span source covered = Some (i, j) \<Longrightarrow>
   i = 0 \<and> j \<le> length source"
  using sort_key_hd_in [of covered fst] by (auto simp: prelude_span_def Let_def split: if_splits)

lemma returns_add_prelude:
  assumes "ascii source" "\<forall>r \<in> set covered. fst r \<le> length source"
  shows "succeeds (add_prelude blake3 rel_path language source covered chunks)"
proof -
  have "succeeds (file_prelude source covered)"
    unfolding file_prelude_def using prelude_span_within [OF assms(2)] assms(1)
    by (auto simp: returns_def slice_ascii Let_def split: option.splits)
  then show ?thesis
    unfolding add_prelude_def
    by (rule returns_bind)
       (auto intro!: returns_Inr returns_bind [OF returns_line_span [OF assms(1)]] split: option.splits)
qed

text \<open>
  What tree-sitter documents of the nodes of a tree parsed from a source: their byte ranges lie in it, and a
  previous sibling ends before the node starts.
\<close>

definition captures_within :: "tree_sitter \<Rightarrow> string \<Rightarrow> bool" where
  "captures_within ts source \<longleftrightarrow> (\<forall>l q tree. ts_parse ts l source = Some tree \<longrightarrow>
     (\<forall>m \<in> set (ts_matches ts l q tree source). list_all (capture_within source) m))"

text \<open>
  C29: chunking never panics on an ASCII source. For every syntax tree whose nodes lie in the source, every slice
  the chunker takes (names, documentation blocks, bodies without members, statements of oversize symbols,
  the file prelude, line counts) is in range, so it returns chunks or a diagnostic.
\<close>

theorem chunk_file_returns_on_ascii:
  assumes "list_all is_ascii source" "captures_within ts source"
  shows "\<exists>fc. chunk_file ts blake3 configs rel_path language source = Inr fc"
proof -
  let ?cfg = "configs ! language_index language"
  have "succeeds (bind_res (collect_symbols ts tree source ?cfg) (\<lambda>hits.
             let ordered = order_with_containers hits
             in bind_res (map_res (hit_chunks ts blake3 rel_path language source ?cfg tree ordered) ordered) (\<lambda>parts.
                bind_res (add_prelude blake3 rel_path language source (concat (map fst parts)) (concat (map snd parts))) (\<lambda>chunks.
                Inr \<lparr>fc_chunks = chunks, fc_diagnostics = []\<rparr>))))"
    if tree: "ts_parse ts (lc_language ?cfg) source = Some tree" for tree
    unfolding Let_def
  proof (rule returns_bind, rule returns_collect_symbols [OF assms(1)])
    fix m assume "m \<in> set (ts_matches ts (lc_language ?cfg) (lc_query ?cfg) tree source)"
    then show "list_all (capture_within source) m" using assms(2) tree by (auto simp: captures_within_def)
  next
    fix hits assume "list_all (hit_within source) hits"
    then have h: "h \<in> set (order_with_containers hits) \<Longrightarrow> hit_within source h" for h
      by (simp add: order_with_containers_def list_all_iff)
    show "succeeds (bind_res (map_res (hit_chunks ts blake3 rel_path language source ?cfg tree (order_with_containers hits))
            (order_with_containers hits)) (\<lambda>parts.
          bind_res (add_prelude blake3 rel_path language source (concat (map fst parts)) (concat (map snd parts))) (\<lambda>chunks.
          Inr \<lparr>fc_chunks = chunks, fc_diagnostics = []\<rparr>)))"
    proof (rule returns_bind, rule returns_map_res, rule returns_hit_chunks [OF assms(1) h], assumption)
      fix parts :: "((nat \<times> nat) list \<times> chunk list) list"
      assume "list_all (\<lambda>(cov, _). \<forall>r \<in> set cov. fst r \<le> length source) parts"
      then have "\<forall>r \<in> set (fst y). fst r \<le> length source" if "y \<in> set parts" for y
        using that by (simp add: list_all_iff case_prod_beta)
      then have "\<forall>r \<in> set (concat (map fst parts)). fst r \<le> length source" unfolding set_concat set_map by blast
      then show "succeeds (bind_res (add_prelude blake3 rel_path language source (concat (map fst parts)) (concat (map snd parts)))
           (\<lambda>chunks. Inr \<lparr>fc_chunks = chunks, fc_diagnostics = []\<rparr>))"
        by (rule returns_bind [OF returns_add_prelude [OF assms(1)]]) (rule returns_Inr, simp)
    qed
  qed
  then show ?thesis
    unfolding chunk_file_def Let_def diagnosed_def returns_def by (auto split: option.splits)
qed

definition wit_ts :: tree_sitter where
  "wit_ts = \<lparr>ts_set_language = (\<lambda>_. True), ts_query_new = (\<lambda>_ _. Inr ()),
     ts_parse = (\<lambda>_ source. Some (TsNode ''source_file'' 0 (length source) False False [])),
     ts_matches = (\<lambda>_ _ _ source. if length source < 16 then [] else
        [[\<lparr>cap_name = ''def'', cap_node = TsNode ''function_item'' 7 16 False False [], cap_prev = []\<rparr>,
          \<lparr>cap_name = ''name'', cap_node = TsNode ''identifier'' 10 11 False False [], cap_prev = []\<rparr>]]),
     ts_descendant = (\<lambda>_ _ _. None)\<rparr>"

definition wit_source :: string where
  "wit_source = ''// doc'' @ [newline] @ ''fn f() {}'' @ [newline]"

lemma wit_captures: "captures_within wit_ts source"
  by (auto simp: captures_within_def wit_ts_def capture_within_def node_within_def)

theorem chunk_file_returns_on_ascii_witness:
  "\<exists>fc. chunk_file wit_ts (\<lambda>_. replicate 32 (CHR ''x'')) [rust_config] ''a.rs'' Rust wit_source = Inr fc"
  by (rule chunk_file_returns_on_ascii [OF _ wit_captures])
     (simp add: wit_source_def newline_def is_ascii_def)

section \<open>Well-formed chunks\<close>

definition newlines :: "string \<Rightarrow> nat" where
  "newlines s = length (filter (\<lambda>b. b = newline) s)"

lemma newlines_take: "i \<le> j \<Longrightarrow> newlines (take i s) \<le> newlines (take j s)"
proof -
  assume "i \<le> j"
  then have "take j s = take i s @ take (j - i) (drop i s)" by (metis le_add_diff_inverse take_add)
  then show ?thesis by (simp add: newlines_def)
qed

lemma newlines_take_le: "newlines (take i s) \<le> newlines s"
  using newlines_take [of i "max i (length s)" s] by simp

lemma newlines_length: "newlines s \<le> length s"
  by (simp add: newlines_def)

lemma byte_to_line_Inr:
  assumes "byte_to_line source byte = Inr l" "length source < 2 ^ 32 - 1"
  shows "l = Suc (newlines (take byte source))"
proof -
  have "newlines (take byte source) < 2 ^ 32 - 1"
    using newlines_length [of "take byte source"] assms(2) by simp
  moreover have "take (min byte (length source)) source = take byte source" by (simp add: min_def)
  ultimately show ?thesis using assms(1)
    by (auto simp: byte_to_line_def bind_res_Inr_conv str_slice_def newlines_def split: if_splits)
qed

definition lines_ok :: "string \<Rightarrow> nat \<Rightarrow> nat \<Rightarrow> bool" where
  "lines_ok source a b \<longleftrightarrow> 1 \<le> a \<and> a \<le> b \<and> b \<le> Suc (newlines source)"

lemma lines_ok_span:
  assumes "byte_to_line source i = Inr a" "byte_to_line source (max j i) = Inr b" "length source < 2 ^ 32 - 1"
  shows "lines_ok source a b"
  using byte_to_line_Inr [OF assms(1,3)] byte_to_line_Inr [OF assms(2,3)] newlines_take [of i "max j i" source]
    newlines_take_le by (simp add: lines_ok_def)

lemma line_span_ok:
  assumes "line_span source i j = Inr (a, b)" "length source < 2 ^ 32 - 1"
  shows "lines_ok source a b"
proof (cases "j = 0")
  case True
  then show ?thesis using assms lines_ok_span [of source i a i a] by (auto simp: line_span_def bind_res_Inr_conv)
next
  case False
  then show ?thesis using assms by (auto simp: line_span_def bind_res_Inr_conv intro: lines_ok_span)
qed

lemma symbol_of_lines:
  "symbol_of source cfg name c = Inr h \<Longrightarrow> length source < 2 ^ 32 - 1 \<Longrightarrow> lines_ok source (sh_start_line h) (sh_end_line h)"
  by (auto simp: symbol_of_def Let_def bind_res_Inr_conv intro: lines_ok_span)

lemma match_symbol_lines:
  "match_symbol source cfg caps = Inr hs \<Longrightarrow> length source < 2 ^ 32 - 1 \<Longrightarrow> h \<in> set hs \<Longrightarrow> lines_ok source (sh_start_line h) (sh_end_line h)"
proof -
  assume m: "match_symbol source cfg caps = Inr hs" "length source < 2 ^ 32 - 1" "h \<in> set hs"
  obtain name recv d where r: "read_captures source caps (None, None, None) = Inr (name, recv, d)"
    using m(1) by (auto simp: match_symbol_def bind_res_Inr_conv)
  obtain n c where "name = Some n" "d = Some c" using m(1,3) r by (auto simp: match_symbol_def split: option.splits)
  then obtain n' where "symbol_of source cfg n' c = Inr h"
    using m(1,3) r by (cases recv) (auto simp: match_symbol_def bind_res_Inr_conv)
  then show ?thesis using symbol_of_lines m(2) by blast
qed

lemma qualify_name_lines [simp]:
  "sh_start_line (qualify_name hits h) = sh_start_line h" "sh_end_line (qualify_name hits h) = sh_end_line h"
  by (simp_all add: qualify_name_def Let_def)

lemma collect_symbols_lines:
  assumes "collect_symbols ts tree source cfg = Inr hits" "length source < 2 ^ 32 - 1" "h \<in> set hits"
  shows "lines_ok source (sh_start_line h) (sh_end_line h)"
proof -
  obtain hs where hs: "map_res (match_symbol source cfg) (ts_matches ts (lc_language cfg) (lc_query cfg) tree source) = Inr hs"
    "hits = qualify_names (concat hs)"
    using assms(1) by (auto simp: collect_symbols_def bind_res_Inr_conv)
  obtain h' l where l: "l \<in> set hs" "h' \<in> set l" "h = qualify_name (concat hs) h'"
    using assms(3) hs(2) by (auto simp: qualify_names_def)
  obtain i where "i < length hs" "hs ! i = l" using l(1) by (auto simp: in_set_conv_nth)
  moreover have "length hs = length (ts_matches ts (lc_language cfg) (lc_query cfg) tree source)"
    using map_res_projr [OF hs(1)] by simp
  ultimately have "match_symbol source cfg (ts_matches ts (lc_language cfg) (lc_query cfg) tree source ! i) = Inr l"
    using map_res_nth [OF hs(1)] by auto
  then show ?thesis using match_symbol_lines assms(2) l(2,3) by simp
qed

text \<open>A chunk of a file: its record names the file and language, hashes its own body, and spans lines of the file.\<close>

definition chunk_ok :: "(bytes \<Rightarrow> bytes) \<Rightarrow> string \<Rightarrow> language \<Rightarrow> string \<Rightarrow> chunk \<Rightarrow> bool" where
  "chunk_ok blake3 rel_path language source c \<longleftrightarrow>
     (let r = ck_record c
      in rec_file r = replace_char (CHR 0x5C) (CHR ''/'') rel_path \<and> chunk_record.rec_language r = language_str language \<and>
         rec_content_hash r = content_hash_of blake3 language (rec_symbol r) (ck_body c) \<and>
         lines_ok source (rec_line_start r) (rec_line_end r))"

lemma hit_chunks_ok:
  assumes "hit_chunks ts blake3 rel_path language source cfg tree ordered h = Inr (cov, cs)" "c \<in> set cs"
    "lines_ok source (sh_start_line h) (sh_end_line h)"
  shows "chunk_ok blake3 rel_path language source c"
  using assms by (auto simp: hit_chunks_def bind_res_Inr_conv Let_def chunk_ok_def record_of_def split: if_splits)

lemma add_prelude_ok:
  assumes "add_prelude blake3 rel_path language source cov cs = Inr chunks" "c \<in> set chunks" "length source < 2 ^ 32 - 1"
    "\<And>c. c \<in> set cs \<Longrightarrow> chunk_ok blake3 rel_path language source c"
  shows "chunk_ok blake3 rel_path language source c"
proof (cases "c \<in> set cs")
  case False
  then obtain p i j a b where "line_span source i j = Inr (a, b)" "c = prelude_chunk blake3 rel_path language p (a, b)"
    using assms(1,2) by (auto simp: add_prelude_def bind_res_Inr_conv Let_def split: option.splits prod.splits)
  then show ?thesis using line_span_ok [OF _ assms(3)] by (simp add: chunk_ok_def prelude_chunk_def Let_def)
qed (rule assms(4))

text \<open>
  C30: every chunk is well formed: its record names the file with forward slashes and the language, its content
  hash is the hash of its own body under its own symbol (so a fragment is hashed by its fragment), and its lines are
  a non-empty span of the file, for every source shorter than four gigabytes, ASCII or not.
\<close>

theorem chunks_are_well_formed:
  assumes "chunk_file ts blake3 configs rel_path language source = Inr fc" "length source < 2 ^ 32 - 1"
    "c \<in> set (fc_chunks fc)"
  shows "rec_file (ck_record c) = replace_char (CHR 0x5C) (CHR ''/'') rel_path \<and>
     chunk_record.rec_language (ck_record c) = language_str language \<and>
     rec_content_hash (ck_record c) = content_hash_of blake3 language (rec_symbol (ck_record c)) (ck_body c) \<and>
     1 \<le> rec_line_start (ck_record c) \<and> rec_line_start (ck_record c) \<le> rec_line_end (ck_record c) \<and>
     rec_line_end (ck_record c) \<le> Suc (length (filter (\<lambda>b. b = newline) source))"
proof -
  let ?cfg = "configs ! language_index language"
  obtain tree hits parts where *: "collect_symbols ts tree source ?cfg = Inr hits"
    "map_res (hit_chunks ts blake3 rel_path language source ?cfg tree (order_with_containers hits)) (order_with_containers hits) = Inr parts"
    "add_prelude blake3 rel_path language source (concat (map fst parts)) (concat (map snd parts)) = Inr (fc_chunks fc)"
    using assms(1,3) by (auto simp: chunk_file_def Let_def diagnosed_def bind_res_Inr_conv split: if_splits option.splits)
  have "chunk_ok blake3 rel_path language source d" if d: "d \<in> set (concat (map snd parts))" for d
  proof -
    obtain p where "p \<in> set parts" "d \<in> set (snd p)" using d unfolding set_concat set_map by blast
    then obtain i where i: "i < length parts" "d \<in> set (snd (parts ! i))" by (auto simp: in_set_conv_nth)
    have n: "length parts = length (order_with_containers hits)" using map_res_projr [OF *(2)] by simp
    have "hit_chunks ts blake3 rel_path language source ?cfg tree (order_with_containers hits) (order_with_containers hits ! i) =
        Inr (fst (parts ! i), snd (parts ! i))"
      using map_res_nth [OF *(2)] i(1) n by simp
    moreover have "order_with_containers hits ! i \<in> set hits"
      using nth_mem [of i "order_with_containers hits"] i(1) n by (simp add: order_with_containers_def)
    ultimately show ?thesis using hit_chunks_ok i(2) collect_symbols_lines [OF *(1) assms(2)] by blast
  qed
  from add_prelude_ok [OF *(3) assms(3,2) this] show ?thesis
    by (simp add: chunk_ok_def lines_ok_def newlines_def Let_def)
qed

definition wit_hash :: "bytes \<Rightarrow> bytes" where
  "wit_hash b = take 32 (b @ replicate 32 (CHR ''x''))"

definition wit_chunk :: chunk where
  "wit_chunk = \<lparr>ck_record = record_of wit_hash ''a.rs'' Rust
       \<lparr>sh_kind = ''function'', sh_name = ''f'', sh_range = (0, 16), sh_node_range = (7, 16), sh_start_line = 1,
        sh_end_line = 2, sh_doc_first_line = Some ''// doc'', sh_is_container = False\<rparr>
       ''fn f() {}'' (''// doc'' @ [newline] @ ''fn f() {}''),
     ck_body = ''// doc'' @ [newline] @ ''fn f() {}'', ck_fragment = None\<rparr>"

definition wit_hit :: symbol_hit where
  "wit_hit = \<lparr>sh_kind = ''function'', sh_name = ''f'', sh_range = (0, 16), sh_node_range = (7, 16), sh_start_line = 1,
     sh_end_line = 2, sh_doc_first_line = Some ''// doc'', sh_is_container = False\<rparr>"

lemma wit_ratio: "f64_ge (error_byte_ratio (TsNode ''source_file'' 0 17 False False [])) ERROR_NODE_RATIO_THRESHOLD = False"
  by code_simp

lemma wit_lines: "byte_to_line wit_source 0 = Inr 1" "byte_to_line wit_source 15 = Inr 2"
  by (simp_all add: byte_to_line_def wit_source_def slice_ascii newline_def is_ascii_def)

lemma wit_doc: "attached_doc wit_source (TsNode ''function_item'' 7 16 False False []) [] = Inr (Some 0, Some ''// doc'')"
  by code_simp

lemma wit_kind: "map_kind ''function_item'' = ''function''"
  by code_simp

lemma wit_symbols: "collect_symbols wit_ts (TsNode ''source_file'' 0 17 False False []) wit_source rust_config = Inr [wit_hit]"
proof -
  have "str_slice wit_source 10 11 = Inr ''f''" by code_simp
  moreover have "symbol_of wit_source rust_config ''f''
      \<lparr>cap_name = ''def'', cap_node = TsNode ''function_item'' 7 16 False False [], cap_prev = []\<rparr> = Inr wit_hit"
    by (simp add: symbol_of_def wit_doc wit_lines wit_hit_def rust_config_def wit_kind)
  ultimately show ?thesis
    by (simp add: collect_symbols_def wit_ts_def wit_source_def [THEN arg_cong, of length] match_symbol_def)
      (simp add: qualify_names_def qualify_name_def wit_hit_def)
qed

lemma wit_chunks: "chunk_file wit_ts wit_hash [rust_config] ''a.rs'' Rust wit_source =
   Inr \<lparr>fc_chunks = [wit_chunk], fc_diagnostics = []\<rparr>"
proof -
  let ?body = "''// doc'' @ [newline] @ ''fn f() {}''"
  have b: "hit_body wit_source [wit_hit] wit_hit = Inr ?body" "trim ?body \<noteq> []"
    "first_signature_line wit_source (sh_node_range wit_hit) = Inr ''fn f() {}''"
    "file_prelude wit_source [sh_range wit_hit] = Inr None" by code_simp+
  have n: "char_count ?body \<le> OVERSIZE_CHAR_THRESHOLD"
    using char_count_le [of ?body] by (simp add: OVERSIZE_CHAR_THRESHOLD_def)
  have o: "order_with_containers [wit_hit] = [wit_hit]" by (simp add: order_with_containers_def)
  have "hit_chunks wit_ts wit_hash ''a.rs'' Rust wit_source rust_config t [wit_hit] wit_hit = Inr ([sh_range wit_hit], [wit_chunk])" for t
    unfolding hit_chunks_def b split_if_oversize_def bind_res_simps using b(2) n
    by (simp add: wit_chunk_def wit_hit_def)
  moreover have "add_prelude wit_hash ''a.rs'' Rust wit_source [sh_range wit_hit] cs = Inr cs" for cs
    by (simp add: add_prelude_def b)
  moreover have "ts_parse wit_ts l wit_source = Some (TsNode ''source_file'' 0 17 False False [])" "ts_set_language wit_ts l" for l
    by (simp_all add: wit_ts_def wit_source_def)
  ultimately show ?thesis
    by (simp add: chunk_file_def wit_ratio wit_symbols o)
qed

theorem chunks_are_well_formed_witness:
  "chunk_file wit_ts wit_hash [rust_config] ''a.rs'' Rust wit_source = Inr \<lparr>fc_chunks = [wit_chunk], fc_diagnostics = []\<rparr> \<and>
   rec_line_start (ck_record wit_chunk) \<le> rec_line_end (ck_record wit_chunk)"
  using wit_chunks chunks_are_well_formed [OF wit_chunks] by (simp add: wit_source_def)

section \<open>Splitting by lines\<close>

text \<open>The lines of a text that are not empty.\<close>

definition solid_lines :: "string \<Rightarrow> string list" where
  "solid_lines s = filter (\<lambda>l. l \<noteq> []) (split_on newline s)"

lemma split_on_join: "c \<notin> set y \<Longrightarrow> split_on c (x @ c # y) = split_on c x @ [y]"
proof (induction x)
  case Nil
  then show ?case by (simp add: split_on_no_sep)
next
  case (Cons a x)
  then show ?case by (cases "split_on c x") auto
qed

lemma solid_lines_add: "newline \<notin> set l \<Longrightarrow> buf \<noteq> [] \<Longrightarrow>
   solid_lines (buf @ newline # l) = solid_lines buf @ (if l = [] then [] else [l])"
  by (simp add: solid_lines_def split_on_join)

lemma solid_lines_single: "newline \<notin> set l \<Longrightarrow> solid_lines l = (if l = [] then [] else [l])"
  by (simp add: solid_lines_def split_on_no_sep)

lemma char_count_append [simp]: "char_count (a @ b) = char_count a + char_count b"
  by (simp add: char_count_def)

lemma char_count_newline [simp]: "char_count [newline] = 1"
  by (simp add: char_count_def newline_def is_cont_def byte_in_def)

definition fragment_ok :: "string \<Rightarrow> bool" where
  "fragment_ok f \<longleftrightarrow> char_count f \<le> OVERSIZE_CHAR_THRESHOLD \<or> newline \<notin> set f"

lemma split_lines_ok:
  assumes "\<forall>l \<in> set ls. newline \<notin> set l" "fragment_ok buf" "\<forall>f \<in> set out. fragment_ok f"
  shows "(\<forall>f \<in> set (split_lines ls buf out). fragment_ok f) \<and>
     concat (map solid_lines (split_lines ls buf out)) =
     concat (map solid_lines out) @ solid_lines buf @ filter (\<lambda>l. l \<noteq> []) ls"
  using assms
proof (induction ls buf out rule: split_lines.induct)
  case (1 buf out)
  then show ?case by (auto simp: solid_lines_single)
next
  case (2 line ls buf out)
  define full where "full = (buf \<noteq> [] \<and> OVERSIZE_CHAR_THRESHOLD < char_count buf + char_count line + 1)"
  define out' where "out' = (if full then out @ [buf] else out)"
  define buf' where "buf' = (if full then [] else buf)"
  define buf'' where "buf'' = (if buf' \<noteq> [] then buf' @ [newline] else buf')"
  have n: "newline \<notin> set line" using 2(2) by simp
  have b: "fragment_ok (buf'' @ line)"
    using n by (auto simp: fragment_ok_def buf''_def buf'_def full_def)
  have o: "\<forall>f \<in> set out'. fragment_ok f" using 2(3,4) by (auto simp: out'_def)
  have c: "concat (map solid_lines out') @ solid_lines (buf'' @ line) =
      concat (map solid_lines out) @ solid_lines buf @ (if line = [] then [] else [line])"
    using n by (auto simp: out'_def buf''_def buf'_def solid_lines_add solid_lines_single)
  have s: "split_lines (line # ls) buf out = split_lines ls (buf'' @ line) out'"
    by (simp add: full_def out'_def buf'_def buf''_def Let_def)
  have IH: "(\<forall>f \<in> set (split_lines ls (buf'' @ line) out'). fragment_ok f) \<and>
     concat (map solid_lines (split_lines ls (buf'' @ line) out')) =
     concat (map solid_lines out') @ solid_lines (buf'' @ line) @ filter (\<lambda>l. l \<noteq> []) ls"
    using 2(1) [OF full_def out'_def buf'_def buf''_def] 2(2) b o by simp
  then show ?case unfolding s using c by (simp only: append_assoc [symmetric]) simp
qed

lemma lines_no_newline: "l \<in> set (lines s) \<Longrightarrow> newline \<notin> set l"
  using split_on_pieces [of _ newline s]
  by (auto simp: lines_def Let_def strip_cr_def split: if_splits dest!: in_set_butlastD)



section \<open>A file that cannot be chunked\<close>

text \<open>
  A file without symbols whose text is long enough for a prelude and ends in a character of two bytes: the line
  count of the prelude slices the source one byte before its end, inside that character.
\<close>

definition trailing_source :: string where
  "trailing_source = replicate 80 (CHR ''x'') @ [CHR 0xC3, CHR 0xA9]"

lemma trailing_character_panics:
  assumes "ts_set_language ts Rust" "ts_parse ts Rust trailing_source = Some (TsNode ''source_file'' 0 82 False False [])"
    "ts_matches ts Rust (lc_query rust_config) (TsNode ''source_file'' 0 82 False False []) trailing_source = []"
  shows "chunk_file ts blake3 [rust_config] ''a.rs'' Rust trailing_source = Inl (Panic ''byte index'')"
proof -
  have r: "f64_ge (error_byte_ratio (TsNode ''source_file'' 0 82 False False [])) ERROR_NODE_RATIO_THRESHOLD = False"
    by code_simp
  have "lc_language rust_config = Rust" by (simp add: rust_config_def)
  moreover have p: "prelude_span trailing_source [] = Some (0, 82)"
    "file_prelude trailing_source [] = Inr (Some trailing_source)" by code_simp+
  have b: "byte_to_line trailing_source 0 = Inr 1" by (simp add: byte_to_line_def str_slice_def is_char_boundary_def)
  have "str_slice trailing_source 0 81 = Inl (Panic ''byte index'')" by code_simp
  then have "byte_to_line trailing_source 81 = Inl (Panic ''byte index'')"
    by (simp add: byte_to_line_def trailing_source_def [THEN arg_cong, of length])
  then have "add_prelude blake3 ''a.rs'' Rust trailing_source [] [] = Inl (Panic ''byte index'')"
    by (simp add: add_prelude_def p line_span_def b)
  ultimately show ?thesis using assms
    by (simp add: chunk_file_def r collect_symbols_def qualify_names_def order_with_containers_def)
qed

end
