(* ===== verification/Protocol.thy ===== *)
theory Protocol
  imports Pipeline
begin

text \<open>
  The wire protocol of the daemon: \<open>protocol.rs\<close>, \<open>codec.rs\<close> and \<open>handshake.rs\<close> of \<open>crates/daemon\<close>. The serializer (bincode)
  is a parameter. A reader is the bytes still to come and what happens after them: the end of the stream or an
  I/O error. Reading at most the declared number of bytes, a frame larger than the limit is never buffered.
\<close>

section \<open>Messages\<close>

definition PROTOCOL_VERSION :: nat where "PROTOCOL_VERSION = 1"
definition MAX_REQUEST_BYTES :: nat where "MAX_REQUEST_BYTES = 1048576"

record 'a envelope =
  ev_request_id :: nat
  ev_payload :: 'a

datatype index_mode = Full | Update

datatype index_phase = Walking | Parsing | Embedding | Storing | Compacting

datatype request =
    RqHello nat string
  | RqSearch string nat
  | RqSearchSimilar string nat
  | RqGetSymbol string string
  | RqIndex index_mode string
  | RqStatus
  | RqShutdown

datatype daemon_error =
    ProtocolVersion nat nat
  | DStarting
  | IndexInProgress
  | SymbolNotFound string string
  | SymbolAmbiguous string string "string list"
  | StoreStale string
  | DGpuUnavailable string
  | RequestTooLarge nat nat
  | Malformed string
  | Internal string

record daemon_status =
  ds_model_id :: string
  ds_chunks_live :: nat
  ds_chunks_dead :: nat
  ds_indexed_commit :: "string option"
  ds_indexing :: bool
  ds_resident_gpu_bytes :: nat
  ds_idle_seconds :: nat
  ds_uptime_seconds :: nat

record index_report_wire =
  iw_commit :: string
  iw_files_seen :: nat
  iw_files_indexed :: nat
  iw_files_excluded :: nat
  iw_files_unsupported :: nat
  iw_files_unparsed :: nat
  iw_chunks_added :: nat
  iw_chunks_reused :: nat
  iw_chunks_removed :: nat
  iw_embeddings_computed :: nat
  iw_chunks_truncated :: nat
  iw_live_before :: nat
  iw_live_after :: nat

datatype response =
    RsHello nat string nat
  | RsSearch search_response
  | RsSymbol string string string string "nat \<times> nat" string
  | RsIndexProgress index_phase nat "nat option"
  | RsIndexDone index_report_wire
  | RsStatus daemon_status
  | RsError daemon_error

definition report_wire :: "index_report \<Rightarrow> index_report_wire" where
  "report_wire r = \<lparr>iw_commit = rp_commit r, iw_files_seen = rp_files_seen r, iw_files_indexed = rp_files_indexed r,
     iw_files_excluded = rp_files_excluded r, iw_files_unsupported = rp_files_unsupported r,
     iw_files_unparsed = rp_files_unparsed r, iw_chunks_added = rp_chunks_added r, iw_chunks_reused = rp_chunks_reused r,
     iw_chunks_removed = rp_chunks_removed r, iw_embeddings_computed = rp_embeddings_computed r,
     iw_chunks_truncated = rp_chunks_truncated r, iw_live_before = rp_live_before r, iw_live_after = rp_live_after r\<rparr>"

section \<open>Framing\<close>

record 'a bincode =
  bc_serialize :: "'a \<Rightarrow> string + bytes"
  bc_deserialize :: "bytes \<Rightarrow> string + 'a"

record reader =
  rd_bytes :: bytes
  rd_error :: "string option"

text \<open>\<open>read_exact\<close>: all the bytes asked for, or everything left and why there is no more (\<open>None\<close> is the end of the stream).\<close>

definition read_exact :: "nat \<Rightarrow> reader \<Rightarrow> (string option + bytes) \<times> reader" where
  "read_exact n r = (if n \<le> length (rd_bytes r) then (Inr (take n (rd_bytes r)), r\<lparr>rd_bytes := drop n (rd_bytes r)\<rparr>)
     else (Inl (rd_error r), r\<lparr>rd_bytes := []\<rparr>))"

definition encode_frame :: "'a bincode \<Rightarrow> 'a \<Rightarrow> daemon_error + bytes" where
  "encode_frame B v = (case bc_serialize B v of
     Inl e \<Rightarrow> Inl (Malformed (''encode: '' @ e))
   | Inr payload \<Rightarrow>
       if MAX_REQUEST_BYTES < length payload then Inl (RequestTooLarge (length payload) MAX_REQUEST_BYTES)
       else Inr (le_bytes 4 (length payload mod 2 ^ 32) @ payload))"

definition decode_payload :: "'a bincode \<Rightarrow> bytes \<Rightarrow> daemon_error + 'a" where
  "decode_payload B payload = (case bc_deserialize B payload of
     Inl e \<Rightarrow> Inl (Malformed (''decode: '' @ e)) | Inr v \<Rightarrow> Inr v)"

definition read_body :: "'a bincode \<Rightarrow> nat \<Rightarrow> reader \<Rightarrow> (daemon_error + 'a) \<times> reader" where
  "read_body B len r = (case read_exact len r of
     (Inl None, r) \<Rightarrow> (Inl (Malformed ''truncated frame body''), r)
   | (Inl (Some e), r) \<Rightarrow> (Inl (Malformed (''read body: '' @ e)), r)
   | (Inr payload, r) \<Rightarrow> (decode_payload B payload, r))"

definition decode_one :: "'a bincode \<Rightarrow> reader \<Rightarrow> (daemon_error + 'a) \<times> reader" where
  "decode_one B r = (case read_exact 4 r of
     (Inl None, r) \<Rightarrow> (Inl (Malformed ''truncated length prefix''), r)
   | (Inl (Some e), r) \<Rightarrow> (Inl (Malformed (''read length: '' @ e)), r)
   | (Inr len_buf, r) \<Rightarrow>
       let len = le_nat len_buf
       in if MAX_REQUEST_BYTES < len then (Inl (RequestTooLarge len MAX_REQUEST_BYTES), r) else read_body B len r)"

definition eof_text :: "string option \<Rightarrow> string" where
  "eof_text e = (case e of None \<Rightarrow> ''failed to fill whole buffer'' | Some e \<Rightarrow> e)"

text \<open>The body of an oversized frame is read in pieces of 8192 bytes and dropped.\<close>

function skip_oversized_body :: "reader \<Rightarrow> nat \<Rightarrow> (daemon_error + unit) \<times> reader" where
  "skip_oversized_body r remaining =
     (if remaining = 0 then (Inr (), r)
      else let n = min remaining 8192
      in case read_exact n r of
           (Inl e, r) \<Rightarrow> (Inl (Malformed (''skip oversized: '' @ eof_text e)), r)
         | (Inr _, r) \<Rightarrow> skip_oversized_body r (remaining - n))"
  by pat_completeness auto
termination
  by (relation "measure snd") auto

declare skip_oversized_body.simps [simp del]

definition decode_one_recovering :: "'a bincode \<Rightarrow> reader \<Rightarrow> (daemon_error + 'a) \<times> reader" where
  "decode_one_recovering B r = (case read_exact 4 r of
     (Inl None, r) \<Rightarrow> (Inl (Malformed ''truncated length prefix''), r)
   | (Inl (Some e), r) \<Rightarrow> (Inl (Malformed (''read length: '' @ e)), r)
   | (Inr len_buf, r) \<Rightarrow>
       let len = le_nat len_buf
       in if MAX_REQUEST_BYTES < len
          then case skip_oversized_body r len of
                 (Inl e, r) \<Rightarrow> (Inl e, r)
               | (Inr _, r) \<Rightarrow> (Inl (RequestTooLarge len MAX_REQUEST_BYTES), r)
          else read_body B len r)"

section \<open>Handshake\<close>

definition handle_hello :: "request envelope \<Rightarrow> string \<Rightarrow> nat \<Rightarrow> response + string \<times> response" where
  "handle_hello env model_id chunks = (case ev_payload env of
     RqHello protocol_version client \<Rightarrow>
       if protocol_version \<noteq> PROTOCOL_VERSION
       then Inl (RsError (ProtocolVersion PROTOCOL_VERSION protocol_version))
       else Inr (client, RsHello PROTOCOL_VERSION model_id chunks)
   | _ \<Rightarrow> Inl (RsError (Malformed ''Hello required before other requests'')))"

section \<open>Streams of frames\<close>

text \<open>What a peer may put on a stream: an encoded message, or a frame declaring too many bytes.\<close>

datatype 'a frame_sent = Sent 'a | Oversized bytes

definition wire_of :: "'a bincode \<Rightarrow> 'a frame_sent \<Rightarrow> bytes" where
  "wire_of B f = (case f of
     Sent v \<Rightarrow> (case encode_frame B v of Inr frame \<Rightarrow> frame | Inl _ \<Rightarrow> [])
   | Oversized body \<Rightarrow> le_bytes 4 (length body) @ body)"

definition frame_fits :: "'a bincode \<Rightarrow> 'a frame_sent \<Rightarrow> bool" where
  "frame_fits B f = (case f of
     Sent v \<Rightarrow> (case bc_serialize B v of Inr p \<Rightarrow> length p \<le> MAX_REQUEST_BYTES | Inl _ \<Rightarrow> False)
   | Oversized body \<Rightarrow> MAX_REQUEST_BYTES < length body \<and> length body < 2 ^ 32)"

definition frame_read :: "'a frame_sent \<Rightarrow> daemon_error + 'a" where
  "frame_read f = (case f of Sent v \<Rightarrow> Inr v | Oversized body \<Rightarrow> Inl (RequestTooLarge (length body) MAX_REQUEST_BYTES))"

text \<open>Reading a number of frames one after the other from the same stream.\<close>

fun read_many :: "(reader \<Rightarrow> (daemon_error + 'a) \<times> reader) \<Rightarrow> nat \<Rightarrow> reader \<Rightarrow> (daemon_error + 'a) list \<times> reader" where
  "read_many rd 0 r = ([], r)"
| "read_many rd (Suc n) r = (case rd r of (x, r) \<Rightarrow> case read_many rd n r of (xs, r) \<Rightarrow> (x # xs, r))"

definition decode_many :: "'a bincode \<Rightarrow> nat \<Rightarrow> reader \<Rightarrow> (daemon_error + 'a) list \<times> reader" where
  "decode_many B = read_many (decode_one_recovering B)"

text \<open>
  The contract of a reader of frames: a frame at the head of the stream is read as its content, and nothing after it is touched.
\<close>

locale frame_reader =
  fixes rd :: "reader \<Rightarrow> (daemon_error + 'a) \<times> reader"
    and fits :: "'f \<Rightarrow> bool" and wire :: "'f \<Rightarrow> bytes" and content :: "'f \<Rightarrow> daemon_error + 'a"
  assumes reads: "fits f \<Longrightarrow> rd_bytes r = wire f @ ys \<Longrightarrow> rd r = (content f, r\<lparr>rd_bytes := ys\<rparr>)"
begin

lemma reads_at: "fits f \<Longrightarrow> rd \<lparr>rd_bytes = wire f @ ys, rd_error = e\<rparr> = (content f, \<lparr>rd_bytes = ys, rd_error = e\<rparr>)"
  by (simp add: reads)

lemma reads_last: "fits f \<Longrightarrow> rd \<lparr>rd_bytes = wire f, rd_error = e\<rparr> = (content f, \<lparr>rd_bytes = [], rd_error = e\<rparr>)"
  by (simp add: reads [of _ _ "[]"])

lemma reads_many:
  "list_all fits fs \<Longrightarrow> read_many rd (length fs) \<lparr>rd_bytes = concat (map wire fs) @ rest, rd_error = e\<rparr> =
     (map content fs, \<lparr>rd_bytes = rest, rd_error = e\<rparr>)"
  by (induction fs) (simp_all add: reads_at)

end

definition bincode_ok :: "'a bincode \<Rightarrow> bool" where
  "bincode_ok B \<longleftrightarrow> (\<forall>v p. bc_serialize B v = Inr p \<longrightarrow> bc_deserialize B p = Inr v)"

lemma read_exact_append: "length xs = n \<Longrightarrow> rd_bytes r = xs @ ys \<Longrightarrow> read_exact n r = (Inr xs, r\<lparr>rd_bytes := ys\<rparr>)"
  by (auto simp: read_exact_def)

lemma skip_oversized_body_skips:
  "rd_bytes r = xs @ ys \<Longrightarrow> length xs = n \<Longrightarrow> skip_oversized_body r n = (Inr (), r\<lparr>rd_bytes := ys\<rparr>)"
proof (induction r n arbitrary: xs rule: skip_oversized_body.induct)
  case (1 r remaining)
  show ?case
  proof (cases "remaining = 0")
    case True
    then show ?thesis using 1(2,3) by (cases r) (simp add: skip_oversized_body.simps)
  next
    case False
    let ?n = "min remaining 8192"
    have xs: "rd_bytes r = take ?n xs @ drop ?n xs @ ys" "length (take ?n xs) = ?n" using 1(2,3) by auto
    let ?r = "r\<lparr>rd_bytes := drop ?n xs @ ys\<rparr>"
    have e: "read_exact ?n r = (Inr (take ?n xs), ?r)" by (rule read_exact_append [OF xs(2,1)])
    have "skip_oversized_body ?r (remaining - ?n) = (Inr (), ?r\<lparr>rd_bytes := ys\<rparr>)"
      using 1(1) [OF False refl e [symmetric] refl, of "drop ?n xs"] 1(3) by simp
    then show ?thesis using False e by (simp add: skip_oversized_body.simps [of r])
  qed
qed

lemma decode_frame:
  assumes "bincode_ok B" "frame_fits B f" "rd_bytes r = wire_of B f @ ys"
  shows "decode_one_recovering B r = (frame_read f, r\<lparr>rd_bytes := ys\<rparr>)"
proof (cases f)
  case (Sent v)
  then obtain p where p: "bc_serialize B v = Inr p" "length p \<le> MAX_REQUEST_BYTES"
    using assms(2) by (auto simp: frame_fits_def split: sum.splits)
  have n: "length p < 2 ^ 32" using p(2) by (simp add: MAX_REQUEST_BYTES_def)
  then have w: "rd_bytes r = le_bytes 4 (length p) @ p @ ys"
    using assms(3) p by (simp add: Sent wire_of_def encode_frame_def)
  have "bc_deserialize B p = Inr v" using assms(1) p(1) by (simp add: bincode_ok_def)
  then show ?thesis using p(2) n
    by (simp add: decode_one_recovering_def read_exact_append [OF _ w] read_body_def Sent frame_read_def
        read_exact_append [of p _ _ ys] decode_payload_def)
next
  case (Oversized body)
  then have b: "MAX_REQUEST_BYTES < length body" "length body < 2 ^ 32" using assms(2) by (auto simp: frame_fits_def)
  have w: "rd_bytes r = le_bytes 4 (length body) @ body @ ys" using assms(3) by (simp add: Oversized wire_of_def)
  show ?thesis using b
    by (simp add: decode_one_recovering_def read_exact_append [OF _ w] Oversized frame_read_def
        skip_oversized_body_skips [of _ body ys])
qed

interpretation codec: frame_reader "decode_one_recovering B" "\<lambda>f. bincode_ok B \<and> frame_fits B f" "wire_of B" frame_read for B
  by unfold_locales (rule decode_frame; simp)

lemma frames_decoded:
  assumes "bincode_ok B" "list_all (\<lambda>v. frame_fits B (Sent v)) vs"
  shows "decode_many B (length vs) \<lparr>rd_bytes = concat (map (\<lambda>v. wire_of B (Sent v)) vs) @ rest, rd_error = e\<rparr> =
     (map Inr vs, \<lparr>rd_bytes = rest, rd_error = e\<rparr>)"
  using codec.reads_many [of B "map Sent vs" rest e] assms
  by (simp add: decode_many_def list.pred_map comp_def frame_read_def)

text \<open>
  C32: frames survive the wire. A peer that sends any sequence of messages and oversized frames is understood
  frame by frame: every message comes back as it was sent, every oversized frame is reported with its size without
  disturbing the next one, and the reader stops exactly where the frames end.
\<close>

theorem frames_roundtrip:
  assumes "bincode_ok B" "list_all (frame_fits B) fs"
  shows "decode_many B (length fs) \<lparr>rd_bytes = concat (map (wire_of B) fs) @ rest, rd_error = e\<rparr> =
     (map frame_read fs, \<lparr>rd_bytes = rest, rd_error = e\<rparr>)"
  using codec.reads_many [of B fs rest e] assms by (simp add: decode_many_def)

definition wit_bincode :: "string bincode" where
  "wit_bincode = \<lparr>bc_serialize = Inr, bc_deserialize = Inr\<rparr>"

theorem frames_roundtrip_witness:
  "decode_many wit_bincode 3
     \<lparr>rd_bytes = concat (map (wire_of wit_bincode) [Sent ''a'', Oversized (replicate 1048577 (CHR ''x'')), Sent ''b'']) @ ''rest'',
      rd_error = None\<rparr> =
   ([Inr ''a'', Inl (RequestTooLarge 1048577 MAX_REQUEST_BYTES), Inr ''b''], \<lparr>rd_bytes = ''rest'', rd_error = None\<rparr>)"
proof -
  have "bincode_ok wit_bincode" by (simp add: bincode_ok_def wit_bincode_def)
  moreover have "list_all (frame_fits wit_bincode) [Sent ''a'', Oversized (replicate 1048577 (CHR ''x'')), Sent ''b'']"
    by (simp add: frame_fits_def wit_bincode_def MAX_REQUEST_BYTES_def)
  ultimately show ?thesis
    using frames_roundtrip [of wit_bincode "[Sent ''a'', Oversized (replicate 1048577 (CHR ''x'')), Sent ''b'']" "''rest''" None]
    by (simp add: frame_read_def numeral_3_eq_3)
qed

end
