(* ===== verification/Resident.thy ===== *)
theory Resident
  imports Protocol Search_Degraded Live_Map
begin

text \<open>
  The resident state of the daemon (\<open>crates/daemon/src/resident.rs\<close>): opening a store with its retrievers, answering
  searches and symbol lookups, and the frozen view that answers them while an index run owns the store.
  What the file system says of the store's directory is the record \<open>store_fs\<close>; the iteration order of a
  hash map is the argument \<open>order\<close>, a permutation.
\<close>

section \<open>Store identity\<close>

record store_identity =
  si_canonical_path :: string
  si_schema_version :: nat
  si_model_id :: string
  si_dir_dev :: nat
  si_dir_ino :: nat

record store_fs =
  sf_canonicalize :: "string \<Rightarrow> string + string"
  sf_stat :: "string \<Rightarrow> string + nat \<times> nat"

definition internal_error :: "string \<Rightarrow> (string + 'a) \<Rightarrow> (daemon_error, 'a) res" where
  "internal_error what m = (case m of Inl e \<Rightarrow> Inl (Raise (Internal (what @ e))) | Inr a \<Rightarrow> Inr a)"

definition capture_identity :: "store_fs \<Rightarrow> string \<Rightarrow> string \<Rightarrow> (daemon_error, store_identity) res" where
  "capture_identity F store_dir model_id =
     bind_res (internal_error (''canonicalize '' @ store_dir @ '': '') (sf_canonicalize F store_dir)) (\<lambda>canonical.
     bind_res (internal_error (''stat '' @ canonical @ '': '') (sf_stat F canonical)) (\<lambda>(dev, ino).
     Inr \<lparr>si_canonical_path = canonical, si_schema_version = SCHEMA_VERSION, si_model_id = model_id,
          si_dir_dev = dev, si_dir_ino = ino\<rparr>))"

definition check_still_valid :: "store_fs \<Rightarrow> store_identity \<Rightarrow> (daemon_error, unit) res" where
  "check_still_valid F ident = (case sf_stat F (si_canonical_path ident) of
     Inl e \<Rightarrow> Inl (Raise (StoreStale (''store missing: '' @ e)))
   | Inr (dev, ino) \<Rightarrow>
       if dev \<noteq> si_dir_dev ident \<or> ino \<noteq> si_dir_ino ident then Inl (Raise (StoreStale ''store directory replaced''))
       else Inr ())"

section \<open>Errors\<close>

fun map_infer_err :: "infer_error \<Rightarrow> daemon_error" where
  "map_infer_err (GpuUnavailable detail) = DGpuUnavailable detail"
| "map_infer_err other = Internal (infer_to_string other)"

fun map_retrieval_err :: "retrieval_error \<Rightarrow> daemon_error" where
  "map_retrieval_err (RInference (GpuUnavailable detail)) = DGpuUnavailable detail"
| "map_retrieval_err other = Internal (retrieval_to_string other)"

definition store_internal :: "string \<Rightarrow> store_error \<Rightarrow> daemon_error" where
  "store_internal what e = Internal (what @ store_to_string e)"

definition retrieval_internal :: "string \<Rightarrow> retrieval_error \<Rightarrow> daemon_error" where
  "retrieval_internal what e = Internal (what @ retrieval_to_string e)"

definition index_internal :: "string \<Rightarrow> index_error \<Rightarrow> daemon_error" where
  "index_internal what e = Internal (what @ index_to_string e)"

section \<open>Resident\<close>

record 'i resident =
  re_store :: chunk_store
  re_lexical :: 'i
  re_dense :: dense_index
  re_embedder :: embedder
  re_identity :: store_identity
  re_repo_dir :: string

text \<open>\<open>opened\<close> is what opening the lexical index of the store's directory returns.\<close>

definition load_resident :: "store_fs \<Rightarrow> string \<Rightarrow> store_dir \<Rightarrow> (retrieval_error, 'i) res \<Rightarrow> string \<Rightarrow> embedder \<Rightarrow>
    (daemon_error, 'i resident) res" where
  "load_resident F store_dir dir opened repo_dir emb =
     bind_res (map_err (store_internal ''open or create store: '')
       (if dir DB_NAME = None \<and> dir MATRIX_NAME = None \<and> dir MANIFEST_NAME = None
        then store_create dir (eb_dims emb) (eb_model_id emb) else store_open dir)) (\<lambda>s.
     bind_res (map_err (store_internal ''model: '') (require_model s (eb_model_id emb))) (\<lambda>_.
     bind_res (map_err (retrieval_internal ''open lexical: '') opened) (\<lambda>lexical.
     bind_res (map_err (retrieval_internal ''open dense: '') (from_store s Cpu)) (\<lambda>dense.
     bind_res (capture_identity F store_dir (eb_model_id emb)) (\<lambda>ident.
     Inr \<lparr>re_store = s, re_lexical = lexical, re_dense = dense, re_embedder = emb, re_identity = ident,
          re_repo_dir = repo_dir\<rparr>)))))"

definition resident_searcher :: "'i tantivy \<Rightarrow> 'i resident \<Rightarrow> 'i searcher" where
  "resident_searcher T r = searcher_new T (re_lexical r) (re_dense r) (re_store r) (re_embedder r)"

definition resident_search :: "store_fs \<Rightarrow> 'i tantivy \<Rightarrow> stage_timings \<Rightarrow> 'i resident \<Rightarrow> string \<Rightarrow> nat \<Rightarrow> fusion_config \<Rightarrow>
    (daemon_error, search_response) res" where
  "resident_search F T tm r query top_k fusion = bind_res (check_still_valid F (re_identity r)) (\<lambda>_.
     map_err map_retrieval_err (search (resident_searcher T r) tm query top_k fusion))"

definition resident_search_similar :: "store_fs \<Rightarrow> 'i tantivy \<Rightarrow> stage_timings \<Rightarrow> 'i resident \<Rightarrow> string \<Rightarrow> nat \<Rightarrow> fusion_config \<Rightarrow>
    (daemon_error, search_response) res" where
  "resident_search_similar F T tm r code top_k fusion = bind_res (check_still_valid F (re_identity r)) (\<lambda>_.
     map_err map_retrieval_err (search_similar (resident_searcher T r) tm code top_k fusion))"

definition candidate :: "chunk_record \<Rightarrow> string" where
  "candidate rec = rec_file rec @ '':'' @ rec_signature rec"

definition symbol_response :: "chunk_record \<Rightarrow> string \<Rightarrow> response" where
  "symbol_response rec body = RsSymbol (rec_file rec) (rec_symbol rec) (chunk_record.rec_language rec) (rec_signature rec)
     (rec_line_start rec, rec_line_end rec) body"

definition symbol_matches :: "chunk_store \<Rightarrow> string \<Rightarrow> string \<Rightarrow> (nat \<times> chunk_record) list" where
  "symbol_matches s path symbol = concat (map (\<lambda>r. case get_row s r of
     Some rec \<Rightarrow> if rec_symbol rec = symbol then [(r, rec)] else [] | None \<Rightarrow> []) (rows_for_file s path))"

definition resolve_symbol :: "'i tantivy \<Rightarrow> chunk_store \<Rightarrow> 'i \<Rightarrow> string \<Rightarrow> string \<Rightarrow> (daemon_error, response) res" where
  "resolve_symbol T s lexical path symbol =
     (let matches = symbol_matches s path symbol
      in case matches of
           [] \<Rightarrow> Inl (Raise (SymbolNotFound path symbol))
         | [(r, rec)] \<Rightarrow> bind_res (map_err (retrieval_internal ''bodies: '') (bodies T lexical [r])) (\<lambda>bs.
             Inr (symbol_response rec (case bs of Some b # _ \<Rightarrow> b | _ \<Rightarrow> [])))
         | _ \<Rightarrow> Inl (Raise (SymbolAmbiguous path symbol (map (\<lambda>(_, rec). candidate rec) matches))))"

definition resident_get_symbol :: "store_fs \<Rightarrow> 'i tantivy \<Rightarrow> 'i resident \<Rightarrow> string \<Rightarrow> string \<Rightarrow> (daemon_error, response) res" where
  "resident_get_symbol F T r path symbol = bind_res (check_still_valid F (re_identity r)) (\<lambda>_.
     resolve_symbol T (re_store r) (re_lexical r) path symbol)"

section \<open>Frozen view\<close>

text \<open>
  The lexical handle keeps the reader of the index, so \<open>fz_lexical\<close> is what that reader shows when it is used. The maps of
  records and bodies are lists of pairs with distinct rows.
\<close>

record 'i frozen_search =
  fz_dense :: dense_index
  fz_lexical :: 'i
  fz_records :: "(nat \<times> chunk_record) list"
  fz_bodies :: "(nat \<times> string) list"
  fz_embedder :: embedder
  fz_identity :: store_identity
  fz_model_id :: string
  fz_chunks_live :: nat
  fz_chunks_dead :: nat
  fz_indexed_commit :: "string option"

fun frozen_maps :: "nat list \<Rightarrow> chunk_record option list \<Rightarrow> string option list \<Rightarrow>
    (nat \<times> chunk_record) list \<times> (nat \<times> string) list" where
  "frozen_maps (r # rows) (rec # recs) (body # bs) =
     (let (records, bodies) = frozen_maps rows recs bs
      in case rec of
           None \<Rightarrow> (records, bodies)
         | Some rec \<Rightarrow> ((r, rec) # records, (case body of Some b \<Rightarrow> (r, b) # bodies | None \<Rightarrow> bodies)))"
| "frozen_maps _ _ _ = ([], [])"

definition split_for_index :: "'i tantivy \<Rightarrow> 'i resident \<Rightarrow>
    (daemon_error, 'i frozen_search \<times> chunk_store \<times> string \<times> embedder) res" where
  "split_for_index T r =
     (let st = stats (re_store r);
          rows = live_rows (re_store r);
          got = fst (get_many (re_store r) rows)
      in bind_res (map_err (retrieval_internal ''bodies: '') (bodies T (re_lexical r) rows)) (\<lambda>body_list.
         let (records, bs) = frozen_maps rows got body_list
         in Inr (\<lparr>fz_dense = re_dense r, fz_lexical = re_lexical r, fz_records = records, fz_bodies = bs,
                  fz_embedder = re_embedder r, fz_identity = re_identity r, fz_model_id = eb_model_id (re_embedder r),
                  fz_chunks_live = st_live st, fz_chunks_dead = st_dead st,
                  fz_indexed_commit = indexed_commit (re_store r)\<rparr>,
                 re_store r, re_repo_dir r, re_embedder r)))"

text \<open>What one retriever contributes: its rows and error text; a panic ends the search.\<close>

definition retrieved :: "(retrieval_error, scored_row list) res \<Rightarrow> (daemon_error, scored_row list \<times> string option) res" where
  "retrieved m = (case m of Inr rows \<Rightarrow> Inr (rows, None) | Inl (Raise e) \<Rightarrow> Inr ([], Some (retrieval_to_string e))
     | Inl (Panic w) \<Rightarrow> Inl (Panic w))"

definition frozen_results :: "(nat \<times> chunk_record) list \<Rightarrow> (nat \<times> string) list \<Rightarrow> fused_row list \<Rightarrow> search_result list" where
  "frozen_results records bs frs = concat (map (\<lambda>fr. case map_of records (fr_row fr) of
     None \<Rightarrow> [] | Some rec \<Rightarrow> [result_of fr rec (map_of bs (fr_row fr))]) frs)"

definition search_with_parts :: "'i tantivy \<Rightarrow> stage_timings \<Rightarrow> embedder \<Rightarrow> 'i \<Rightarrow> dense_index \<Rightarrow> (nat \<times> chunk_record) list \<Rightarrow>
    (nat \<times> string) list \<Rightarrow> string \<Rightarrow> nat \<Rightarrow> fusion_config \<Rightarrow> role \<Rightarrow> (daemon_error, search_response) res" where
  "search_with_parts T tm emb lexical dense records bs text top_k fusion rl =
     bind_res (map_err map_infer_err (eb_embed emb [text] rl)) (\<lambda>embedded.
     case embedded of [] \<Rightarrow> Inl (Panic ''index out of bounds'') | e # _ \<Rightarrow>
     bind_res (retrieved (lexical_search T lexical text (lexical_depth fusion))) (\<lambda>(lexical_rows, lexical_error).
     bind_res (retrieved (dense_search dense (em_vector e) (eb_model_id emb) (dense_depth fusion))) (\<lambda>(dense_rows, dense_error).
     Inr \<lparr>rs_results = frozen_results records bs (take top_k (fuse lexical_rows dense_rows fusion)),
          rs_diagnostics = \<lparr>dg_lexical_ok = (lexical_error = None), dg_dense_ok = (dense_error = None),
             dg_lexical_error = lexical_error, dg_dense_error = dense_error, dg_stage_millis = tm\<rparr>\<rparr>)))"

definition frozen_search_query :: "store_fs \<Rightarrow> 'i tantivy \<Rightarrow> stage_timings \<Rightarrow> 'i frozen_search \<Rightarrow> string \<Rightarrow> nat \<Rightarrow> fusion_config \<Rightarrow>
    (daemon_error, search_response) res" where
  "frozen_search_query F T tm fz query top_k fusion = bind_res (check_still_valid F (fz_identity fz)) (\<lambda>_.
     search_with_parts T tm (fz_embedder fz) (fz_lexical fz) (fz_dense fz) (fz_records fz) (fz_bodies fz) query top_k fusion Query)"

definition frozen_search_similar :: "store_fs \<Rightarrow> 'i tantivy \<Rightarrow> stage_timings \<Rightarrow> 'i frozen_search \<Rightarrow> string \<Rightarrow> nat \<Rightarrow> fusion_config \<Rightarrow>
    (daemon_error, search_response) res" where
  "frozen_search_similar F T tm fz code top_k fusion = bind_res (check_still_valid F (fz_identity fz)) (\<lambda>_.
     search_with_parts T tm (fz_embedder fz) (fz_lexical fz) (fz_dense fz) (fz_records fz) (fz_bodies fz) code top_k fusion Document)"

definition frozen_get_symbol :: "store_fs \<Rightarrow> ((nat \<times> chunk_record) list \<Rightarrow> (nat \<times> chunk_record) list) \<Rightarrow> 'i frozen_search \<Rightarrow>
    string \<Rightarrow> string \<Rightarrow> (daemon_error, response) res" where
  "frozen_get_symbol F order fz path symbol = bind_res (check_still_valid F (fz_identity fz)) (\<lambda>_.
     let matches = filter (\<lambda>(_, rec). rec_file rec = path \<and> rec_symbol rec = symbol) (order (fz_records fz))
     in case matches of
          [] \<Rightarrow> Inl (Raise (SymbolNotFound path symbol))
        | [(r, rec)] \<Rightarrow> Inr (symbol_response rec (case map_of (fz_bodies fz) r of Some b \<Rightarrow> b | None \<Rightarrow> []))
        | _ \<Rightarrow> Inl (Raise (SymbolAmbiguous path symbol (map (\<lambda>(_, rec). candidate rec) matches))))"

section \<open>Indexing\<close>

definition rebuild_resident :: "store_fs \<Rightarrow> string \<Rightarrow> chunk_store \<Rightarrow> 'i \<Rightarrow> embedder \<Rightarrow> string \<Rightarrow> (daemon_error, 'i resident) res" where
  "rebuild_resident F store_dir s lexical emb repo_dir =
     bind_res (map_err (retrieval_internal ''live mask: '') (mask_from_store s)) (\<lambda>live.
     bind_res (map_err (retrieval_internal ''dense: '') (from_store s Cpu)) (\<lambda>dense.
     bind_res (map_err (store_internal []) (matrix_ref s)) (\<lambda>m.
     bind_res (map_err (retrieval_internal ''dense refresh: '') (refresh dense m live)) (\<lambda>dense.
     bind_res (capture_identity F store_dir (eb_model_id emb)) (\<lambda>ident.
     Inr \<lparr>re_store = s, re_lexical = lexical, re_dense = dense, re_embedder = emb, re_identity = ident,
          re_repo_dir = repo_dir\<rparr>)))))"

definition after_index :: "'i indexer \<Rightarrow> index_report \<Rightarrow> (daemon_error, chunk_store \<times> 'i \<times> index_report) res" where
  "after_index ix report = (case verify (ix_store ix) of
     Inr (Integrity_Ok _) \<Rightarrow> Inr (ix_store ix, ix_lexical ix, report)
   | Inr other \<Rightarrow> Inl (Raise (Internal (''verify after index: '' @ debug_integrity other)))
   | Inl (Raise e) \<Rightarrow> Inl (Raise (store_internal ''verify: '' e))
   | Inl (Panic w) \<Rightarrow> Inl (Panic w))"

definition run_index :: "'i index_env \<Rightarrow> glob_engine \<Rightarrow> string + gix \<Rightarrow> chunk_store \<Rightarrow> (retrieval_error, 'i) res \<Rightarrow> string \<Rightarrow> bool \<Rightarrow>
    (daemon_error, chunk_store \<times> 'i \<times> index_report) res" where
  "run_index E globs repository s opened repo full =
     bind_res (map_err (index_internal ''indexer open: '')
       (indexer_open (en_engine E) (en_embedder E) globs (en_fs E) repo repository s opened default_index_config)) (\<lambda>(git, ex, ix).
     let E = E\<lparr>en_repo := repo, en_git := git, en_exclusions := ex\<rparr>;
         (out, ix) = (if full then index_all E ix else update E ix)
     in bind_res (map_err (index_internal ''index: '') out) (\<lambda>report. after_index ix report))"

definition index_report_response :: "index_report \<Rightarrow> response" where
  "index_report_response report = RsIndexDone (report_wire report)"

end
