(* ===== verification/Resident_Props.thy ===== *)
theory Resident_Props
  imports Resident
begin

text \<open>
  While an index run owns the store, the daemon answers from the frozen view; the view answers as the resident did.
\<close>

section \<open>Frozen maps\<close>

text \<open>The body the lexical index stores for a row.\<close>

definition stored_body :: "document list \<Rightarrow> nat \<Rightarrow> string option" where
  "stored_body docs r = (case find (\<lambda>d. doc_row d = Some r) docs of None \<Rightarrow> None | Some d \<Rightarrow> map_option ld_body (lexical_doc d))"

lemma bodies_stored:
  "tantivy_runs T staged visible \<Longrightarrow> bodies T i rows = Inr (map (stored_body (visible i)) rows)"
  unfolding bodies_def by (rule map_res_Inr) (simp add: tantivy_load stored_body_def)

lemma frozen_maps_spec:
  assumes "distinct rows"
  shows "map_of (fst (frozen_maps rows (map g rows) (map b rows))) r = (if r \<in> set rows then g r else None)"
    and "map_of (snd (frozen_maps rows (map g rows) (map b rows))) r = (if r \<in> set rows \<and> g r \<noteq> None then b r else None)"
    and "distinct (map fst (fst (frozen_maps rows (map g rows) (map b rows))))"
    and "set (fst (frozen_maps rows (map g rows) (map b rows))) = {(r, rec). r \<in> set rows \<and> g r = Some rec}"
  using assms
proof (induction rows)
  case (Cons a rows)
  case 1
  then show ?case using Cons(1,2) by (auto split: prod.splits option.splits)
next
  case (Cons a rows)
  case 2
  then show ?case using Cons(2) by (auto split: prod.splits option.splits)
next
  case (Cons a rows)
  case 3
  then show ?case using Cons(3,4) by (auto split: prod.splits option.splits)
next
  case (Cons a rows)
  case 4
  then show ?case using Cons(4) by (auto split: prod.splits option.splits)
qed simp_all

lemma split_for_index_view:
  assumes T: "tantivy_runs T staged visible" and inv: "store_inv (re_store r)" and split: "split_for_index T r = Inr (fz, parts)"
  shows "map_of (fz_records fz) row = get_row (re_store r) row"
    and "get_row (re_store r) row = Some rec \<Longrightarrow> map_of (fz_bodies fz) row = stored_body (visible (re_lexical r)) row"
    and "distinct (map fst (fz_records fz))"
    and "set (fz_records fz) = {(q, rec). get_row (re_store r) q = Some rec}"
    and "fz_dense fz = re_dense r \<and> fz_lexical fz = re_lexical r \<and> fz_embedder fz = re_embedder r \<and> fz_identity fz = re_identity r"
proof -
  let ?rows = "live_rows (re_store r)" and ?b = "stored_body (visible (re_lexical r))"
  let ?m = "frozen_maps ?rows (map (get_row (re_store r)) ?rows) (map ?b ?rows)"
  have d: "distinct ?rows" by (rule lm.rows_distinct [OF inv])
  have l: "q \<in> set ?rows \<longleftrightarrow> get_row (re_store r) q \<noteq> None" for q using lm.rows_get [OF inv] by auto
  have fz: "fz_records fz = fst ?m" "fz_bodies fz = snd ?m"
    "fz_dense fz = re_dense r \<and> fz_lexical fz = re_lexical r \<and> fz_embedder fz = re_embedder r \<and> fz_identity fz = re_identity r"
    using split by (simp_all add: split_for_index_def bodies_stored [OF T] get_many_map [OF inv] Let_def case_prod_beta) auto
  note spec = frozen_maps_spec [OF d, of "get_row (re_store r)" ?b]
  show "map_of (fz_records fz) row = get_row (re_store r) row" using l [of row] by (simp add: fz spec(1))
  show "map_of (fz_bodies fz) row = ?b row" if "get_row (re_store r) row = Some rec" using l [of row] that by (simp add: fz spec(2))
  show "distinct (map fst (fz_records fz))" by (simp only: fz spec(3))
  show "set (fz_records fz) = {(q, rec). get_row (re_store r) q = Some rec}" using l by (auto simp: fz spec(4))
  show "fz_dense fz = re_dense r \<and> fz_lexical fz = re_lexical r \<and> fz_embedder fz = re_embedder r \<and> fz_identity fz = re_identity r"
    by (rule fz(3))
qed

section \<open>Searches\<close>

lemma frozen_results_assemble:
  assumes "tantivy_runs T staged visible" "store_inv (re_store r)" "split_for_index T r = Inr (fz, parts)"
  shows "assemble (re_store r) T (re_lexical r) fused top_k = Inr (frozen_results (fz_records fz) (fz_bodies fz) (take top_k fused))"
proof -
  note view = split_for_index_view [OF assms]
  have "map (\<lambda>(fr, rec). result_of fr rec (stored_body (visible (re_lexical r)) (fr_row fr))) (visible_rows (re_store r) frs) =
      frozen_results (fz_records fz) (fz_bodies fz) frs" for frs
    by (induction frs) (auto simp: visible_rows_def frozen_results_def view(1,2) split: option.splits)
  then show ?thesis
    using assemble_ok [OF assms(2) bodies_stored [OF assms(1)]] by simp
qed

text \<open>An embedder that returns one vector per text.\<close>

definition embeds_each :: "embedder \<Rightarrow> bool" where
  "embeds_each emb \<longleftrightarrow> (\<forall>ts rl es. eb_embed emb ts rl = Inr es \<longrightarrow> length es = length ts)"

lemma frozen_search_same:
  assumes T: "tantivy_runs T staged visible" and inv: "store_inv (re_store r)" and split: "split_for_index T r = Inr (fz, parts)"
    and emb: "embeds_each (re_embedder r)" and ok: "resident_search F T tm r query top_k fusion = Inr resp"
  shows "frozen_search_query F T tm fz query top_k fusion = Inr resp"
proof -
  have fz: "fz_dense fz = re_dense r" "fz_lexical fz = re_lexical r" "fz_embedder fz = re_embedder r" "fz_identity fz = re_identity r"
    using split_for_index_view(5) [OF T inv split] by auto
  have v: "check_still_valid F (re_identity r) = Inr ()" and s: "search (resident_searcher T r) tm query top_k fusion = Inr resp"
    using ok by (auto simp: resident_search_def bind_res_Inr_conv)
  obtain es where es: "eb_embed (re_embedder r) [query] Query = Inr es"
    using s by (auto simp: search_def run_search_def bind_res_Inr_conv resident_searcher_def searcher_new_def)
  then obtain e where e: "es = [e]" using emb by (auto simp: embeds_each_def length_Suc_conv dest!: spec)
  let ?lex = "lexical_search T (re_lexical r) query (lexical_depth fusion)"
  let ?den = "dense_search (re_dense r) (em_vector e) (eb_model_id (re_embedder r)) (dense_depth fusion)"
  note assembled = frozen_results_assemble [OF T inv split]
  have "\<exists>lr le dr de. retrieved ?lex = Inr (lr, le) \<and> retrieved ?den = Inr (dr, de) \<and>
      finish_search (resident_searcher T r) top_k fusion tm (le = None) (de = None) le de lr dr = Inr resp"
    using s unfolding search_def run_search_def
    by (auto simp: resident_searcher_def searcher_new_def no_hooks_def es e dispatch_concurrent_def lexical_path_def dense_path_def
        maybe_force_lexical_error_def maybe_force_dense_error_def retrieved_def Let_def split: sum.splits fault.splits)
  then obtain lr le dr de where *: "retrieved ?lex = Inr (lr, le)" "retrieved ?den = Inr (dr, de)"
    "finish_search (resident_searcher T r) top_k fusion tm (le = None) (de = None) le de lr dr = Inr resp" by blast
  show ?thesis
    using *(3) by (auto simp: frozen_search_query_def fz v search_with_parts_def es e *(1,2) finish_search_def
        resident_searcher_def searcher_new_def assembled Let_def split: if_splits)
qed

section \<open>Symbols\<close>

text \<open>Equal answers, except that the candidates of an ambiguous symbol may be listed in another order.\<close>

definition same_answer :: "(daemon_error, response) res \<Rightarrow> (daemon_error, response) res \<Rightarrow> bool" where
  "same_answer x y \<longleftrightarrow> x = y \<or> (\<exists>path symbol cs ds. x = Inl (Raise (SymbolAmbiguous path symbol cs)) \<and>
     y = Inl (Raise (SymbolAmbiguous path symbol ds)) \<and> mset cs = mset ds)"

lemma symbol_matches_resident:
  assumes "store_inv s"
  shows "distinct (symbol_matches s path symbol)"
    "set (symbol_matches s path symbol) = {(r, rec). get_row s r = Some rec \<and> rec_file rec = path \<and> rec_symbol rec = symbol}"
proof -
  let ?f = "\<lambda>r. case get_row s r of Some rec \<Rightarrow> if rec_symbol rec = symbol then [(r, rec)] else [] | None \<Rightarrow> []"
  have "distinct (concat (map ?f rows)) \<and> fst ` set (concat (map ?f rows)) \<subseteq> set rows" if "distinct rows" for rows
    using that by (induction rows) (auto split: option.splits if_splits)
  then show "distinct (symbol_matches s path symbol)" using rows_for_file_live(1) [OF assms(1)] by (simp add: symbol_matches_def)
  show "set (symbol_matches s path symbol) = {(r, rec). get_row s r = Some rec \<and> rec_file rec = path \<and> rec_symbol rec = symbol}"
    using rows_for_file_live(2) [OF assms(1)] by (auto simp: symbol_matches_def split: option.splits if_splits)
qed

lemma frozen_symbol_same:
  assumes T: "tantivy_runs T staged visible" and inv: "store_inv (re_store r)" and split: "split_for_index T r = Inr (fz, parts)"
    and order: "\<And>xs. mset (order xs) = mset xs"
  shows "same_answer (resident_get_symbol F T r path symbol) (frozen_get_symbol F order fz path symbol)"
proof (cases "check_still_valid F (re_identity r)")
  case (Inl e)
  then show ?thesis using split_for_index_view(5) [OF T inv split]
    by (simp add: same_answer_def resident_get_symbol_def frozen_get_symbol_def)
next
  case (Inr u)
  note view = split_for_index_view [OF T inv split]
  define ms where "ms = symbol_matches (re_store r) path symbol"
  define fs where "fs = filter (\<lambda>(_, rec). rec_file rec = path \<and> rec_symbol rec = symbol) (order (fz_records fz))"
  have "distinct (order (fz_records fz))"
    using view(3) order [of "fz_records fz"] by (metis distinct_map mset_eq_imp_distinct_iff)
  then have "distinct fs" by (simp add: fs_def)
  moreover have "set fs = set ms"
    using symbol_matches_resident(2) [OF inv, of path symbol] view(4) mset_eq_setD [OF order [of "fz_records fz"]]
    by (auto simp: fs_def ms_def)
  ultimately have m: "mset ms = mset fs"
    using symbol_matches_resident(1) [OF inv, of path symbol] by (simp add: ms_def set_eq_iff_mset_eq_distinct)
  have get: "get_row (re_store r) q = Some rec" if "(q, rec) \<in> set ms" for q rec
    using that symbol_matches_resident(2) [OF inv, of path symbol] by (auto simp: ms_def)
  have rs: "resident_get_symbol F T r path symbol = (case ms of
      [] \<Rightarrow> Inl (Raise (SymbolNotFound path symbol))
    | [(q, rec)] \<Rightarrow> Inr (symbol_response rec (case stored_body (visible (re_lexical r)) q of Some b \<Rightarrow> b | None \<Rightarrow> []))
    | _ \<Rightarrow> Inl (Raise (SymbolAmbiguous path symbol (map (\<lambda>(_, rec). candidate rec) ms))))"
    by (auto simp: resident_get_symbol_def Inr resolve_symbol_def ms_def bodies_stored [OF T] split: list.splits option.splits)
  have fs': "frozen_get_symbol F order fz path symbol = (case fs of
      [] \<Rightarrow> Inl (Raise (SymbolNotFound path symbol))
    | [(q, rec)] \<Rightarrow> Inr (symbol_response rec (case map_of (fz_bodies fz) q of Some b \<Rightarrow> b | None \<Rightarrow> []))
    | _ \<Rightarrow> Inl (Raise (SymbolAmbiguous path symbol (map (\<lambda>(_, rec). candidate rec) fs))))"
    by (simp add: frozen_get_symbol_def view(5) Inr Let_def flip: fs_def)
  consider "ms = []" | q rec where "ms = [(q, rec)]" | x y zs where "ms = x # y # zs"
    by (cases ms rule: remdups_adj.cases) (blast, metis surj_pair, blast)
  then show ?thesis
  proof cases
    case 1
    then show ?thesis using m by (simp add: rs fs' same_answer_def)
  next
    case (2 q rec)
    then have "fs = [(q, rec)]" using m by (cases fs) (auto simp: add_mset_eq_single)
    then show ?thesis using 2 view(2) [OF get [of q rec]] by (simp add: rs fs' same_answer_def)
  next
    case (3 x y zs)
    then obtain x' y' zs' where f: "fs = x' # y' # zs'"
      using mset_eq_length [OF m] by (cases fs rule: remdups_adj.cases) auto
    have "mset (map (\<lambda>(_, rec). candidate rec) ms) = mset (map (\<lambda>(_, rec). candidate rec) fs)" using m by (simp only: mset_map)
    then show ?thesis unfolding rs fs' same_answer_def using 3 f by (auto split: prod.splits)
  qed
qed


definition wit_resident :: "chunk_store \<Rightarrow> (document list \<times> document list) resident" where
  "wit_resident s = \<lparr>re_store = s, re_lexical = ([], []),
     re_dense = \<lparr>di_matrix = [], di_rows = 0, di_dims = 1, di_model_id = ''m'', di_live = [], di_uploaded_bytes = 0\<rparr>,
     re_embedder = \<lparr>eb_model_id = ''m'', eb_dims = 1, eb_embed = (\<lambda>ts _. Inr (map (\<lambda>_. \<lparr>em_vector = [0], em_truncated = False\<rparr>) ts))\<rparr>,
     re_identity = \<lparr>si_canonical_path = ''/s'', si_schema_version = 1, si_model_id = ''m'', si_dir_dev = 1, si_dir_ino = 2\<rparr>,
     re_repo_dir = ''/r''\<rparr>"

definition wit_fs :: store_fs where
  "wit_fs = \<lparr>sf_canonicalize = Inr, sf_stat = (\<lambda>_. Inr (1, 2))\<rparr>"


end
