(* ===== verification/Steps.thy ===== *)
theory Steps
  imports Main
begin

text \<open>
  Labelled transition systems: the states that follow a state, and the properties that every step keeps.
\<close>

inductive steps :: "('s \<Rightarrow> 'l \<Rightarrow> 's \<Rightarrow> bool) \<Rightarrow> 's \<Rightarrow> 's \<Rightarrow> bool" for step :: "'s \<Rightarrow> 'l \<Rightarrow> 's \<Rightarrow> bool" where
  none [intro]: "steps step s s"
| more [intro]: "steps step s s' \<Longrightarrow> step s' l s'' \<Longrightarrow> steps step s s''"

locale kept =
  fixes step :: "'s \<Rightarrow> 'l \<Rightarrow> 's \<Rightarrow> bool" and P :: "'s \<Rightarrow> bool"
  assumes keeps: "P s \<Longrightarrow> step s l s' \<Longrightarrow> P s'"
begin

lemma later: "steps step s s' \<Longrightarrow> P s \<Longrightarrow> P s'"
  by (induction rule: steps.induct) (auto intro: keeps)

lemma along:
  assumes "P (\<sigma> 0)" "\<forall>i. step (\<sigma> i) (ls i) (\<sigma> (Suc i))"
  shows "P (\<sigma> i)"
  using assms by (induction i) (auto intro: keeps)

end

end
