(* ===== verification/Daemon.thy ===== *)
theory Daemon
  imports Resident Steps
begin

text \<open>
  The daemon (\<open>crates/daemon/src/server.rs\<close> and \<open>SharedState\<close> of \<open>resident.rs\<close>): connections, the dispatch of requests, the
  loader and the index worker as a step relation over the shared serving state. A step is what one thread does
  between two lock operations. The server loop ends with \<open>Stop\<close>; the end of the process, when the last connection is gone, is not a step.
  A mutex poisoned by a panicking search is not modelled. The debug format of an error is the argument \<open>dbg\<close>; delays are test hooks and left out.
\<close>

section \<open>Shared state\<close>

datatype 'i serving_state = Starting | Ready "'i resident" | Indexing "'i frozen_search" | Stale string

text \<open>The threads that hold a handle to a ready resident while they search are counted in \<open>ss_borrows\<close>.\<close>

record 'i shared_state =
  ss_serving :: "'i serving_state"
  ss_indexing :: bool
  ss_borrows :: nat
  ss_connected_clients :: nat
  ss_shutting_down :: bool

definition new_state :: "'i shared_state" where
  "new_state = \<lparr>ss_serving = Starting, ss_indexing = False, ss_borrows = 0, ss_connected_clients = 0, ss_shutting_down = False\<rparr>"

definition empty_status :: "nat \<Rightarrow> nat \<Rightarrow> daemon_status" where
  "empty_status idle uptime = \<lparr>ds_model_id = [], ds_chunks_live = 0, ds_chunks_dead = 0, ds_indexed_commit = None,
     ds_indexing = False, ds_resident_gpu_bytes = 0, ds_idle_seconds = idle, ds_uptime_seconds = uptime\<rparr>"

definition daemon_status_of :: "'i serving_state \<Rightarrow> nat \<Rightarrow> nat \<Rightarrow> daemon_status" where
  "daemon_status_of serving idle uptime = (case serving of
     Starting \<Rightarrow> empty_status idle uptime
   | Ready r \<Rightarrow> (empty_status idle uptime)\<lparr>ds_model_id := eb_model_id (re_embedder r),
       ds_chunks_live := st_live (stats (re_store r)), ds_chunks_dead := st_dead (stats (re_store r)),
       ds_indexed_commit := indexed_commit (re_store r)\<rparr>
   | Indexing f \<Rightarrow> (empty_status idle uptime)\<lparr>ds_model_id := fz_model_id f, ds_chunks_live := fz_chunks_live f,
       ds_chunks_dead := fz_chunks_dead f, ds_indexed_commit := fz_indexed_commit f, ds_indexing := True\<rparr>
   | Stale _ \<Rightarrow> empty_status idle uptime)"

section \<open>Requests\<close>

text \<open>What a search or lookup is answered with in each serving state.\<close>

definition serve_read :: "'i serving_state \<Rightarrow> ('i resident \<Rightarrow> (daemon_error, response) res) \<Rightarrow>
    ('i frozen_search \<Rightarrow> (daemon_error, response) res) \<Rightarrow> (daemon_error, response) res" where
  "serve_read serving on_ready on_frozen = (case serving of
     Starting \<Rightarrow> Inl (Raise DStarting)
   | Stale r \<Rightarrow> Inl (Raise (StoreStale r))
   | Ready r \<Rightarrow> (case on_ready r of Inl (Panic w) \<Rightarrow> Inl (Raise (Internal (''join: '' @ w))) | out \<Rightarrow> out)
   | Indexing f \<Rightarrow> on_frozen f)"

record 'i daemon_env =
  dn_fs :: store_fs
  dn_engine :: "'i tantivy"
  dn_timings :: stage_timings
  dn_fusion :: fusion_config
  dn_order :: "(nat \<times> chunk_record) list \<Rightarrow> (nat \<times> chunk_record) list"
  dn_idle :: nat
  dn_uptime :: nat

text \<open>
  The requests answered at once; an index request is the worker's, see below. \<open>Inl\<close> is the error the connection
  reports.
\<close>

definition dispatch_read :: "'i daemon_env \<Rightarrow> 'i serving_state \<Rightarrow> request \<Rightarrow> (daemon_error, response) res" where
  "dispatch_read D serving req = (case req of
     RqHello _ _ \<Rightarrow> Inl (Raise (Malformed ''duplicate Hello''))
   | RqStatus \<Rightarrow> Inr (RsStatus (daemon_status_of serving (dn_idle D) (dn_uptime D)))
   | RqShutdown \<Rightarrow> Inr (RsStatus (daemon_status_of serving (dn_idle D) (dn_uptime D)))
   | RqSearch query top_k \<Rightarrow> serve_read serving
       (\<lambda>r. bind_res (resident_search (dn_fs D) (dn_engine D) (dn_timings D) r query top_k (dn_fusion D)) (\<lambda>s. Inr (RsSearch s)))
       (\<lambda>f. bind_res (frozen_search_query (dn_fs D) (dn_engine D) (dn_timings D) f query top_k (dn_fusion D)) (\<lambda>s. Inr (RsSearch s)))
   | RqSearchSimilar code top_k \<Rightarrow> serve_read serving
       (\<lambda>r. bind_res (resident_search_similar (dn_fs D) (dn_engine D) (dn_timings D) r code top_k (dn_fusion D)) (\<lambda>s. Inr (RsSearch s)))
       (\<lambda>f. bind_res (frozen_search_similar (dn_fs D) (dn_engine D) (dn_timings D) f code top_k (dn_fusion D)) (\<lambda>s. Inr (RsSearch s)))
   | RqGetSymbol path symbol \<Rightarrow> serve_read serving
       (\<lambda>r. resident_get_symbol (dn_fs D) (dn_engine D) r path symbol)
       (\<lambda>f. frozen_get_symbol (dn_fs D) (dn_order D) f path symbol)
   | RqIndex _ _ \<Rightarrow> Inl (Raise IndexInProgress))"

section \<open>Index worker\<close>

text \<open>
  The stages of the thread an index request starts: before it takes the resident, with the resident in hand, running with
  the store, and about to clear the flag. A panic ends the thread where it is.
\<close>

datatype 'i worker =
    Spawned index_mode string
  | Taken index_mode string "'i resident"
  | Running index_mode string chunk_store embedder
  | Clearing "daemon_error + index_report"
  | Vanished

definition take_resident :: "index_mode \<Rightarrow> string \<Rightarrow> 'i shared_state \<Rightarrow> 'i worker \<times> 'i shared_state" where
  "take_resident mode repo st = (case ss_serving st of
     Ready r \<Rightarrow> if ss_borrows st = 0 then (Taken mode repo r, st\<lparr>ss_serving := Starting\<rparr>)
               else (Clearing (Inl (Internal ''resident still borrowed'')), st)
   | _ \<Rightarrow> (Clearing (Inl (Internal ''not ready for index'')), st))"

definition freeze_resident :: "'i tantivy \<Rightarrow> index_mode \<Rightarrow> string \<Rightarrow> 'i resident \<Rightarrow> 'i shared_state \<Rightarrow> 'i worker \<times> 'i shared_state" where
  "freeze_resident T mode repo r st = (case split_for_index T r of
     Inr (frozen, s, _, emb) \<Rightarrow> (Running mode repo s emb, st\<lparr>ss_serving := Indexing frozen\<rparr>)
   | Inl (Raise e) \<Rightarrow> (Clearing (Inl e), st)
   | Inl (Panic _) \<Rightarrow> (Vanished, st))"

text \<open>The outcome of the run and of rebuilding the resident from its store.\<close>

definition finish_index :: "(daemon_error \<Rightarrow> string) \<Rightarrow> store_fs \<Rightarrow> string \<Rightarrow> embedder \<Rightarrow> string \<Rightarrow>
    (daemon_error, chunk_store \<times> 'i \<times> index_report) res \<Rightarrow> 'i shared_state \<Rightarrow> 'i worker \<times> 'i shared_state" where
  "finish_index dbg F store_dir emb repo result st = (case result of
     Inr (s, lexical, report) \<Rightarrow> (case rebuild_resident F store_dir s lexical emb repo of
         Inr resident \<Rightarrow> (Clearing (Inr report), st\<lparr>ss_serving := Ready resident\<rparr>)
       | Inl (Raise e) \<Rightarrow> (Clearing (Inl e), st\<lparr>ss_serving := Stale (''rebuild: '' @ dbg e)\<rparr>)
       | Inl (Panic _) \<Rightarrow> (Vanished, st))
   | Inl (Raise e) \<Rightarrow> (Clearing (Inl e), st\<lparr>ss_serving := Stale (''index: '' @ dbg e)\<rparr>)
   | Inl (Panic _) \<Rightarrow> (Vanished, st))"

section \<open>Server loop\<close>

definition idle_shutdown :: "bool \<Rightarrow> 'i shared_state \<Rightarrow> bool" where
  "idle_shutdown idle_elapsed st \<longleftrightarrow> ss_connected_clients st = 0 \<and> idle_elapsed \<and> ss_serving st \<noteq> Starting"

definition accept_client :: "'i shared_state \<Rightarrow> 'i shared_state" where
  "accept_client st = (if ss_shutting_down st then st else st\<lparr>ss_connected_clients := ss_connected_clients st + 1\<rparr>)"

definition client_gone :: "'i shared_state \<Rightarrow> 'i shared_state" where
  "client_gone st = st\<lparr>ss_connected_clients := ss_connected_clients st - 1\<rparr>"

definition loaded :: "(daemon_error \<Rightarrow> string) \<Rightarrow> (daemon_error, 'i resident) res \<Rightarrow> 'i shared_state \<Rightarrow> 'i shared_state" where
  "loaded dbg result st = (case result of
     Inr resident \<Rightarrow> st\<lparr>ss_serving := Ready resident\<rparr>
   | Inl (Raise e) \<Rightarrow> st\<lparr>ss_serving := Stale (''load failed: '' @ dbg e)\<rparr>
   | Inl (Panic _) \<Rightarrow> st)"

text \<open>The daemon: its shared state, whether the loader is still running, and the index worker.\<close>

record 'i daemon =
  dm_state :: "'i shared_state"
  dm_loading :: bool
  dm_worker :: "'i worker option"

definition started :: "'i daemon" where
  "started = \<lparr>dm_state = new_state, dm_loading = True, dm_worker = None\<rparr>"

datatype label = Load | Connect | Disconnect | SearchBegin | SearchEnd | IndexAccepted | IndexRefused | Work | Stop

inductive daemon_step :: "(daemon_error \<Rightarrow> string) \<Rightarrow> 'i tantivy \<Rightarrow> 'i daemon \<Rightarrow> label \<Rightarrow> 'i daemon \<Rightarrow> bool"
  for dbg :: "daemon_error \<Rightarrow> string" and T :: "'i tantivy" where
  load: "dm_loading d \<Longrightarrow> load_resident F store_dir dir opened repo emb = out \<Longrightarrow>
    daemon_step dbg T d Load (d\<lparr>dm_state := loaded dbg out (dm_state d), dm_loading := False\<rparr>)"
| connect: "daemon_step dbg T d Connect (d\<lparr>dm_state := accept_client (dm_state d)\<rparr>)"
| disconnect: "0 < ss_connected_clients (dm_state d) \<Longrightarrow> daemon_step dbg T d Disconnect (d\<lparr>dm_state := client_gone (dm_state d)\<rparr>)"
| search_begin: "ss_serving (dm_state d) = Ready r \<Longrightarrow>
    daemon_step dbg T d SearchBegin (d\<lparr>dm_state := (dm_state d)\<lparr>ss_borrows := ss_borrows (dm_state d) + 1\<rparr>\<rparr>)"
| search_end: "0 < ss_borrows (dm_state d) \<Longrightarrow>
    daemon_step dbg T d SearchEnd (d\<lparr>dm_state := (dm_state d)\<lparr>ss_borrows := ss_borrows (dm_state d) - 1\<rparr>\<rparr>)"
| index_accepted: "\<not> ss_indexing (dm_state d) \<Longrightarrow>
    daemon_step dbg T d IndexAccepted (d\<lparr>dm_state := (dm_state d)\<lparr>ss_indexing := True\<rparr>, dm_worker := Some (Spawned mode repo)\<rparr>)"
| index_refused: "ss_indexing (dm_state d) \<Longrightarrow> daemon_step dbg T d IndexRefused d"
| take: "dm_worker d = Some (Spawned mode repo) \<Longrightarrow> take_resident mode repo (dm_state d) = (w, st) \<Longrightarrow>
    daemon_step dbg T d Work (d\<lparr>dm_state := st, dm_worker := Some w\<rparr>)"
| freeze: "dm_worker d = Some (Taken mode repo r) \<Longrightarrow> freeze_resident T mode repo r (dm_state d) = (w, st) \<Longrightarrow>
    daemon_step dbg T d Work (d\<lparr>dm_state := st, dm_worker := Some w\<rparr>)"
| run: "dm_worker d = Some (Running mode repo s emb) \<Longrightarrow> en_engine E = T \<Longrightarrow> en_embedder E = emb \<Longrightarrow>
    run_index E globs repository s opened repo (mode = Full) = result \<Longrightarrow>
    finish_index dbg F store_dir emb repo result (dm_state d) = (w, st) \<Longrightarrow>
    daemon_step dbg T d Work (d\<lparr>dm_state := st, dm_worker := Some w\<rparr>)"
| clear: "dm_worker d = Some (Clearing res) \<Longrightarrow>
    daemon_step dbg T d Work (d\<lparr>dm_state := (dm_state d)\<lparr>ss_indexing := False\<rparr>, dm_worker := None\<rparr>)"
| stop: "\<not> ss_shutting_down (dm_state d) \<Longrightarrow> shutdown_notified \<or> idle_shutdown idle_elapsed (dm_state d) \<Longrightarrow>
    daemon_step dbg T d Stop (d\<lparr>dm_state := (dm_state d)\<lparr>ss_shutting_down := True\<rparr>\<rparr>)"

inductive_cases daemon_stepE: "daemon_step dbg T d l d'"

definition reachable :: "(daemon_error \<Rightarrow> string) \<Rightarrow> 'i tantivy \<Rightarrow> 'i daemon \<Rightarrow> bool" where
  "reachable dbg T d \<longleftrightarrow> steps (daemon_step dbg T) started d"

end
