(* ===== verification/Daemon_Props.thy ===== *)
theory Daemon_Props
  imports Daemon Resident_Props
begin

text \<open>
  Properties of the daemon's step relation: the store has one owner at a time, an index request ends when the worker is
  scheduled, and the state a failed split leaves behind.
\<close>

section \<open>Ownership\<close>

definition worker_owns :: "'i worker option \<Rightarrow> bool" where
  "worker_owns w \<longleftrightarrow> (case w of Some (Taken _ _ _) \<Rightarrow> True | Some (Running _ _ _ _) \<Rightarrow> True | _ \<Rightarrow> False)"

definition daemon_inv :: "'i tantivy \<Rightarrow> 'i daemon \<Rightarrow> bool" where
  "daemon_inv T d \<longleftrightarrow>
     (ss_indexing (dm_state d) \<longleftrightarrow> dm_worker d \<noteq> None) \<and>
     (dm_loading d \<longrightarrow> ss_serving (dm_state d) = Starting \<and> \<not> worker_owns (dm_worker d) \<and> dm_worker d \<noteq> Some Vanished) \<and>
     (0 < ss_borrows (dm_state d) \<longrightarrow> (\<exists>r. ss_serving (dm_state d) = Ready r)) \<and>
     (\<forall>f. ss_serving (dm_state d) = Indexing f \<longrightarrow> worker_owns (dm_worker d) \<or> dm_worker d = Some Vanished) \<and>
     (\<forall>mode repo r. dm_worker d = Some (Taken mode repo r) \<longrightarrow> ss_serving (dm_state d) = Starting) \<and>
     (\<forall>mode repo s emb. dm_worker d = Some (Running mode repo s emb) \<longrightarrow>
        (\<exists>f r repo'. ss_serving (dm_state d) = Indexing f \<and> split_for_index T r = Inr (f, s, repo', emb)))"

lemma worker_owns_simps [simp]:
  "\<not> worker_owns None" "worker_owns (Some (Taken mode repo r))" "worker_owns (Some (Running mode repo s emb))"
  "\<not> worker_owns (Some (Spawned mode repo))" "\<not> worker_owns (Some (Clearing res))" "\<not> worker_owns (Some Vanished)"
  by (simp_all add: worker_owns_def)

lemma daemon_inv_started: "daemon_inv T started"
  by (simp add: daemon_inv_def started_def new_state_def)

lemma take_resident_cases:
  assumes "take_resident mode repo st = (w, st')"
  obtains r where "ss_serving st = Ready r" "ss_borrows st = 0" "w = Taken mode repo r" "st' = st\<lparr>ss_serving := Starting\<rparr>"
  | e where "w = Clearing (Inl e)" "st' = st"
  using assms by (auto simp: take_resident_def split: serving_state.splits if_splits)

lemma freeze_resident_cases:
  assumes "freeze_resident T mode repo r st = (w, st')"
  obtains f s repo' emb where "split_for_index T r = Inr (f, s, repo', emb)" "w = Running mode repo s emb"
    "st' = st\<lparr>ss_serving := Indexing f\<rparr>"
  | e where "split_for_index T r = Inl (Raise e)" "w = Clearing (Inl e)" "st' = st"
  | p where "split_for_index T r = Inl (Panic p)" "w = Vanished" "st' = st"
  using assms by (auto simp: freeze_resident_def split: sum.splits fault.splits prod.splits)

lemma finish_index_cases:
  assumes "finish_index dbg F store_dir emb repo result st = (w, st')"
  obtains r report where "w = Clearing (Inr report)" "st' = st\<lparr>ss_serving := Ready r\<rparr>"
  | e reason where "w = Clearing (Inl e)" "st' = st\<lparr>ss_serving := Stale reason\<rparr>"
  | "w = Vanished" "st' = st"
  using assms by (auto simp: finish_index_def split: sum.splits fault.splits prod.splits)

lemma daemon_inv_step:
  assumes "daemon_step dbg T d l d'" "daemon_inv T d"
  shows "daemon_inv T d'"
  using assms
proof (cases rule: daemon_step.cases)
  case (load F store_dir dir opened repo emb out)
  then show ?thesis using assms(2)
    by (auto simp: daemon_inv_def loaded_def split: sum.splits fault.splits)
next
  case (take mode repo w st)
  from take(4) show ?thesis
    by (cases rule: take_resident_cases) (use take assms(2) in \<open>auto simp: daemon_inv_def\<close>)
next
  case (freeze mode repo r w st)
  from freeze(4) show ?thesis
    by (cases rule: freeze_resident_cases) (use freeze assms(2) in \<open>auto simp: daemon_inv_def\<close>)
next
  case (run mode repo s emb E globs repository opened result F store_dir w st)
  from run(7) show ?thesis
    by (cases rule: finish_index_cases) (use run assms(2) in \<open>auto simp: daemon_inv_def\<close>)
qed (auto simp: daemon_inv_def accept_client_def client_gone_def)

interpretation own: kept "daemon_step dbg T" "daemon_inv T" for dbg T
  by unfold_locales (rule daemon_inv_step)

lemma reachable_inv: "reachable dbg T d \<Longrightarrow> daemon_inv T d"
  unfolding reachable_def by (rule own.later [OF _ daemon_inv_started])

section \<open>The dense index of a resident\<close>

definition dense_current :: "'i resident \<Rightarrow> bool" where
  "dense_current r \<longleftrightarrow> from_store (re_store r) Cpu = Inr (re_dense r)"

lemma refresh_same:
  assumes "mask_from_store s = Inr live" "matrix_ref s = Inr m" "from_store s Cpu = Inr d" "refresh d m live = Inr d'"
  shows "d' = d"
proof -
  from assms(1-3) have p: "prepare m live Cpu = Inr d"
    by (simp add: from_store_def lift_store_def)
  then obtain xs where xs: "lift_store (as_slice m) = Inr xs"
    and d: "prepare_slice xs (matrix_rows m) (matrix_dims m) (matrix_model_id m) live Cpu = Inr d"
    by (auto simp: prepare_def bind_res_Inr_conv)
  from d have "d = \<lparr>di_matrix = xs, di_rows = matrix_rows m, di_dims = matrix_dims m, di_model_id = matrix_model_id m,
      di_live = live, di_uploaded_bytes = length xs * 2\<rparr>" and "length xs = matrix_rows m * matrix_dims m"
    by (auto simp: prepare_slice_def split: if_splits)
  with assms(4) xs show ?thesis
    by (auto simp: refresh_def Let_def split: if_splits)
qed

lemma load_dense: "load_resident F store_dir dir opened repo emb = Inr r \<Longrightarrow> dense_current r"
  by (auto simp: load_resident_def bind_res_Inr_conv dense_current_def)

lemma rebuild_dense: "rebuild_resident F store_dir s lexical emb repo = Inr r \<Longrightarrow> dense_current r"
  by (auto simp: rebuild_resident_def bind_res_Inr_conv dense_current_def dest: refresh_same)

definition dense_inv :: "'i daemon \<Rightarrow> bool" where
  "dense_inv d \<longleftrightarrow> (\<forall>r. ss_serving (dm_state d) = Ready r \<longrightarrow> dense_current r) \<and>
     (\<forall>mode repo r. dm_worker d = Some (Taken mode repo r) \<longrightarrow> dense_current r)"

lemma dense_inv_step:
  assumes "daemon_step dbg T d l d'" "dense_inv d"
  shows "dense_inv d'"
  using assms
proof (cases rule: daemon_step.cases)
  case (load F store_dir dir opened repo emb out)
  then show ?thesis using assms(2)
    by (auto simp: dense_inv_def loaded_def dest: load_dense split: sum.splits fault.splits)
next
  case (take mode repo w st)
  from take(4) show ?thesis
    by (cases rule: take_resident_cases) (use take assms(2) in \<open>auto simp: dense_inv_def\<close>)
next
  case (freeze mode repo r w st)
  from freeze(4) show ?thesis
    by (cases rule: freeze_resident_cases) (use freeze assms(2) in \<open>auto simp: dense_inv_def\<close>)
next
  case (run mode repo s emb E globs repository opened result F store_dir w st)
  from run(7) show ?thesis using run assms(2)
    by (auto simp: dense_inv_def finish_index_def dest: rebuild_dense split: sum.splits fault.splits prod.splits)
qed (auto simp: dense_inv_def accept_client_def client_gone_def)

interpretation dense: kept "daemon_step dbg T" dense_inv for dbg T
  by unfold_locales (rule dense_inv_step)

lemma reachable_dense: "reachable dbg T d \<Longrightarrow> dense_inv d"
  unfolding reachable_def
  by (erule dense.later) (simp add: dense_inv_def started_def new_state_def)

text \<open>
  C34: the store has one owner. In every state the daemon can reach, the indexing flag is set exactly while there is an
  index worker; a ready resident is not also held by the worker, and its dense index is the one its store gives; the frozen
  view is only served while the worker runs on the very store it was split from (or after the worker's thread died);
  and searches hold the resident only while it is being served.
\<close>

theorem one_owner_of_the_store:
  assumes "reachable dbg T d"
  shows "(ss_indexing (dm_state d) \<longleftrightarrow> dm_worker d \<noteq> None) \<and>
     (\<forall>r. ss_serving (dm_state d) = Ready r \<longrightarrow>
        \<not> worker_owns (dm_worker d) \<and> from_store (re_store r) Cpu = Inr (re_dense r)) \<and>
     (\<forall>f. ss_serving (dm_state d) = Indexing f \<longrightarrow> dm_worker d = Some Vanished \<or>
        (\<exists>mode repo s emb r repo'. dm_worker d = Some (Running mode repo s emb) \<and> split_for_index T r = Inr (f, s, repo', emb))) \<and>
     (0 < ss_borrows (dm_state d) \<longrightarrow> (\<exists>r. ss_serving (dm_state d) = Ready r))"
proof -
  have inv: "daemon_inv T d" "dense_inv d"
    using assms by (rule reachable_inv, rule reachable_dense)
  have owns: "(\<exists>mode repo r. dm_worker d = Some (Taken mode repo r)) \<or>
      (\<exists>mode repo s emb. dm_worker d = Some (Running mode repo s emb))" if "worker_owns (dm_worker d)"
    using that by (auto simp: worker_owns_def split: option.splits worker.splits)
  show ?thesis
  proof (intro conjI allI impI)
    show "ss_indexing (dm_state d) \<longleftrightarrow> dm_worker d \<noteq> None"
      using inv(1) by (simp add: daemon_inv_def)
  next
    fix r assume r: "ss_serving (dm_state d) = Ready r"
    then show "\<not> worker_owns (dm_worker d)" using inv(1) owns by (fastforce simp: daemon_inv_def)
    show "from_store (re_store r) Cpu = Inr (re_dense r)" using inv(2) r by (simp add: dense_inv_def dense_current_def)
  next
    fix f assume f: "ss_serving (dm_state d) = Indexing f"
    then have "dm_worker d = Some Vanished \<or> worker_owns (dm_worker d)" using inv(1) by (auto simp: daemon_inv_def)
    then consider "dm_worker d = Some Vanished" | mode repo s emb where "dm_worker d = Some (Running mode repo s emb)"
      using owns inv(1) f by (fastforce simp: daemon_inv_def)
    then show "dm_worker d = Some Vanished \<or> (\<exists>mode repo s emb r repo'. dm_worker d = Some (Running mode repo s emb) \<and>
        split_for_index T r = Inr (f, s, repo', emb))"
    proof cases
      case 2
      then obtain g r repo' where "ss_serving (dm_state d) = Indexing g" "split_for_index T r = Inr (g, s, repo', emb)"
        using inv(1) by (auto simp: daemon_inv_def)
      then show ?thesis using 2 f by auto
    qed simp
  next
    assume "0 < ss_borrows (dm_state d)"
    then show "\<exists>r. ss_serving (dm_state d) = Ready r" using inv(1) by (simp add: daemon_inv_def)
  qed
qed

theorem one_owner_of_the_store_witness:
  "reachable (\<lambda>_. []) list_engine (started\<lparr>dm_state := new_state\<lparr>ss_indexing := True\<rparr>, dm_worker := Some (Spawned Full ''/r'')\<rparr>) \<and>
   (\<forall>f. ss_serving (new_state\<lparr>ss_indexing := True\<rparr>) \<noteq> Indexing (f :: (document list \<times> document list) frozen_search))"
proof -
  have "daemon_step (\<lambda>_. []) list_engine started IndexAccepted
      (started\<lparr>dm_state := (dm_state started)\<lparr>ss_indexing := True\<rparr>, dm_worker := Some (Spawned Full ''/r'')\<rparr>)"
    by (rule daemon_step.index_accepted) (simp add: started_def new_state_def)
  then have "reachable (\<lambda>_. []) list_engine
      (started\<lparr>dm_state := (dm_state started)\<lparr>ss_indexing := True\<rparr>, dm_worker := Some (Spawned Full ''/r'')\<rparr>)"
    unfolding reachable_def by (rule steps.more [OF steps.none])
  then have r: "reachable (\<lambda>_. []) list_engine
      (started\<lparr>dm_state := new_state\<lparr>ss_indexing := True\<rparr>, dm_worker := Some (Spawned Full ''/r'')\<rparr>)"
    by (simp add: started_def)
  show ?thesis using one_owner_of_the_store [OF r] r by auto
qed

section \<open>Index requests end\<close>

definition work_left :: "'i worker option \<Rightarrow> nat" where
  "work_left w = (case w of None \<Rightarrow> 0 | Some Vanished \<Rightarrow> 0 | Some (Clearing _) \<Rightarrow> 1 | Some (Running _ _ _ _) \<Rightarrow> 2
     | Some (Taken _ _ _) \<Rightarrow> 3 | Some (Spawned _ _) \<Rightarrow> 4)"

lemma work_left_simps [simp]:
  "work_left None = 0" "work_left (Some Vanished) = 0" "work_left (Some (Clearing res)) = 1"
  "work_left (Some (Running mode repo s emb)) = 2" "work_left (Some (Taken mode repo r)) = 3"
  "work_left (Some (Spawned mode repo)) = 4"
  by (simp_all add: work_left_def)

lemma work_left_0: "work_left w = 0 \<longleftrightarrow> w = None \<or> w = Some Vanished"
  by (auto simp: work_left_def split: option.splits worker.splits)

lemma work_step:
  assumes "daemon_step dbg T d Work d'"
  shows "work_left (dm_worker d') < work_left (dm_worker d)"
  using assms
proof (cases rule: daemon_step.cases)
  case (take mode repo w st)
  from take(3) show ?thesis by (cases rule: take_resident_cases) (use take in auto)
next
  case (freeze mode repo r w st)
  from freeze(3) show ?thesis by (cases rule: freeze_resident_cases) (use freeze in auto)
next
  case (run mode repo s emb E globs repository opened result F store_dir w st)
  from run(6) show ?thesis by (cases rule: finish_index_cases) (use run in auto)
qed simp

lemma other_step:
  assumes "daemon_step dbg T d l d'" "l \<noteq> Work" "daemon_inv T d" "dm_worker d = Some w"
  shows "dm_worker d' = Some w"
  using assms by (cases rule: daemon_step.cases) (auto simp: daemon_inv_def)

text \<open>A run of the daemon: its states and the steps between them, the worker scheduled again and again while it has work left.\<close>

definition daemon_run :: "(daemon_error \<Rightarrow> string) \<Rightarrow> 'i tantivy \<Rightarrow> (nat \<Rightarrow> 'i daemon) \<Rightarrow> (nat \<Rightarrow> label) \<Rightarrow> bool" where
  "daemon_run dbg T \<sigma> ls \<longleftrightarrow> \<sigma> 0 = started \<and> (\<forall>i. daemon_step dbg T (\<sigma> i) (ls i) (\<sigma> (Suc i)))"

definition worker_scheduled :: "(nat \<Rightarrow> 'i daemon) \<Rightarrow> (nat \<Rightarrow> label) \<Rightarrow> bool" where
  "worker_scheduled \<sigma> ls \<longleftrightarrow> (\<forall>i. 0 < work_left (dm_worker (\<sigma> i)) \<longrightarrow> (\<exists>j\<ge>i. ls j = Work))"

lemma run_inv: "daemon_run dbg T \<sigma> ls \<Longrightarrow> daemon_inv T (\<sigma> i)"
  unfolding daemon_run_def using own.along [of T \<sigma> dbg ls i] daemon_inv_started [of T] by simp

lemma worker_waits:
  assumes "daemon_run dbg T \<sigma> ls" "dm_worker (\<sigma> i) = Some w" "\<forall>k. i \<le> k \<and> k < i + n \<longrightarrow> ls k \<noteq> Work"
  shows "dm_worker (\<sigma> (i + n)) = Some w"
  using assms(3)
proof (induction n)
  case (Suc n)
  then have w: "dm_worker (\<sigma> (i + n)) = Some w" "ls (i + n) \<noteq> Work" by auto
  have "daemon_step dbg T (\<sigma> (i + n)) (ls (i + n)) (\<sigma> (Suc (i + n)))" using assms(1) by (simp add: daemon_run_def)
  from other_step [OF this w(2) run_inv [OF assms(1)] w(1)] show ?case by simp
qed (use assms(2) in simp)

lemma work_runs_out:
  assumes "daemon_run dbg T \<sigma> ls" "worker_scheduled \<sigma> ls"
  shows "\<exists>j\<ge>i. work_left (dm_worker (\<sigma> j)) = 0"
proof (induction "work_left (dm_worker (\<sigma> i))" arbitrary: i rule: less_induct)
  case less
  show ?case
  proof (cases "work_left (dm_worker (\<sigma> i)) = 0")
    case False
    then obtain w where w: "dm_worker (\<sigma> i) = Some w" by (cases "dm_worker (\<sigma> i)") auto
    define j where "j = (LEAST j. i \<le> j \<and> ls j = Work)"
    have "\<exists>j. i \<le> j \<and> ls j = Work" using False assms(2) by (auto simp: worker_scheduled_def)
    then have j: "i \<le> j" "ls j = Work" unfolding j_def by (metis (mono_tags, lifting) LeastI_ex)+
    have "ls k \<noteq> Work" if "i \<le> k" "k < j" for k using that not_less_Least [of k "\<lambda>j. i \<le> j \<and> ls j = Work"] by (auto simp: j_def)
    then have "dm_worker (\<sigma> j) = Some w" using worker_waits [OF assms(1) w, of "j - i"] j(1) by simp
    moreover have "daemon_step dbg T (\<sigma> j) Work (\<sigma> (Suc j))" using assms(1) j(2) by (metis daemon_run_def)
    ultimately have "work_left (dm_worker (\<sigma> (Suc j))) < work_left (dm_worker (\<sigma> i))" using work_step w by fastforce
    from less [OF this] obtain k where "k \<ge> Suc j" "work_left (dm_worker (\<sigma> k)) = 0" by blast
    then show ?thesis using j(1) by (intro exI [of _ k]) auto
  qed auto
qed

text \<open>
  C35: an index request ends. In every infinite run of the daemon in which the index worker is scheduled as long as it has work
  left, whatever clients, searches and the loader do in between, the indexing flag that an accepted request
  sets is cleared again, unless the worker's thread dies from a panic.
\<close>

theorem index_request_ends:
  assumes "daemon_run dbg T \<sigma> ls" "worker_scheduled \<sigma> ls"
  shows "\<exists>j\<ge>i. \<not> ss_indexing (dm_state (\<sigma> j)) \<or> dm_worker (\<sigma> j) = Some Vanished"
proof -
  obtain j where j: "j \<ge> i" "work_left (dm_worker (\<sigma> j)) = 0" using work_runs_out [OF assms] by blast
  then show ?thesis
    using run_inv [OF assms(1), of j] unfolding daemon_inv_def work_left_0 by blast
qed

text \<open>A run in which index requests come before the store is loaded, each refused by the worker as not ready.\<close>

definition wit_states :: "nat \<Rightarrow> (document list \<times> document list) daemon" where
  "wit_states i = (if i mod 3 = 0 then started
     else started\<lparr>dm_state := new_state\<lparr>ss_indexing := True\<rparr>,
       dm_worker := Some (if i mod 3 = 1 then Spawned Full ''/r'' else Clearing (Inl (Internal ''not ready for index'')))\<rparr>)"

definition wit_labels :: "nat \<Rightarrow> label" where
  "wit_labels i = (if i mod 3 = 0 then IndexAccepted else Work)"

lemma wit_run: "daemon_run (\<lambda>_. []) list_engine wit_states wit_labels"
proof -
  have "daemon_step (\<lambda>_. []) list_engine (wit_states i) (wit_labels i) (wit_states (Suc i))" for i
  proof -
    have m: "i mod 3 = 0 \<and> Suc i mod 3 = 1 \<or> i mod 3 = 1 \<and> Suc i mod 3 = 2 \<or> i mod 3 = 2 \<and> Suc i mod 3 = 0" by presburger
    let ?s = "started\<lparr>dm_state := new_state\<lparr>ss_indexing := True\<rparr>, dm_worker := Some (Spawned Full ''/r'')\<rparr> :: (document list \<times> document list) daemon"
    let ?c = "?s\<lparr>dm_worker := Some (Clearing (Inl (Internal ''not ready for index'')))\<rparr>"
    have "daemon_step (\<lambda>_. []) list_engine started IndexAccepted ?s"
      using daemon_step.index_accepted [of started "\<lambda>_. []" list_engine Full "''/r''"] by (simp add: started_def new_state_def)
    moreover have "daemon_step (\<lambda>_. []) list_engine ?s Work ?c"
      using daemon_step.take [of ?s Full "''/r''" "Clearing (Inl (Internal ''not ready for index''))" "new_state\<lparr>ss_indexing := True\<rparr>"]
      by (simp add: started_def new_state_def take_resident_def)
    moreover have "daemon_step (\<lambda>_. []) list_engine ?c Work started"
      using daemon_step.clear [of ?c "Inl (Internal ''not ready for index'')" "\<lambda>_. []" list_engine] by (simp add: started_def new_state_def)
    ultimately show ?thesis using m by (auto simp: wit_states_def wit_labels_def)
  qed
  then show ?thesis by (simp add: daemon_run_def wit_states_def)
qed

theorem index_request_ends_witness:
  "ss_indexing (dm_state (wit_states 1)) \<and> dm_worker (wit_states 1) \<noteq> Some Vanished \<and>
   (\<exists>j\<ge>1. \<not> ss_indexing (dm_state (wit_states j)) \<or> dm_worker (wit_states j) = Some Vanished)"
proof -
  have "\<exists>j\<ge>i. wit_labels j = Work" for i
    by (rule exI [of _ "3 * i + 1"]) (simp add: wit_labels_def)
  then have "worker_scheduled wit_states wit_labels" by (simp add: worker_scheduled_def)
  from index_request_ends [OF wit_run this, of 1] show ?thesis
    by (simp add: wit_states_def started_def new_state_def)
qed

section \<open>A failed split\<close>

definition abandoned :: "'i daemon \<Rightarrow> bool" where
  "abandoned d \<longleftrightarrow> \<not> dm_loading d \<and> ss_serving (dm_state d) = Starting \<and> \<not> worker_owns (dm_worker d)"

lemma abandoned_step:
  assumes "daemon_step dbg T d l d'" "abandoned d"
  shows "abandoned d'"
  using assms
proof (cases rule: daemon_step.cases)
  case (take mode repo w st)
  from take(4) show ?thesis by (cases rule: take_resident_cases) (use take assms(2) in \<open>auto simp: abandoned_def\<close>)
qed (auto simp: abandoned_def accept_client_def client_gone_def)

interpretation gone: kept "daemon_step dbg T" abandoned for dbg T
  by unfold_locales (rule abandoned_step)

text \<open>
  C36: a failed split is permanent. When building the frozen view fails after the resident has been taken, the resident is
  gone and the state says the daemon is starting; whatever happens later it never serves a search again,
  and since it counts as starting it never shuts down for being idle.
\<close>

theorem failed_split_is_permanent:
  assumes "\<not> dm_loading d" "dm_worker d = Some (Taken mode repo r)" "ss_serving (dm_state d) = Starting"
    "split_for_index T r = Inl (Raise e)" "daemon_step dbg T d Work d'" "steps (daemon_step dbg T) d' d''"
  shows "dispatch_read D (ss_serving (dm_state d'')) (RqSearch query top_k) = Inl (Raise DStarting) \<and>
     \<not> idle_shutdown idle_elapsed (dm_state d'')"
proof -
  have "abandoned d'"
    using assms(5,1-4) by (cases rule: daemon_step.cases) (auto simp: abandoned_def freeze_resident_def)
  from gone.later [OF assms(6) this] show ?thesis
    by (simp add: abandoned_def dispatch_read_def serve_read_def idle_shutdown_def)
qed

text \<open>A store with one live chunk, an engine that cannot read documents, and the daemon about to split.\<close>

definition wit_unreadable :: "(document list \<times> document list) tantivy" where
  "wit_unreadable = list_engine\<lparr>tv_find_row := \<lambda>_ _. Inl ''I/O error''\<rparr>"

definition wit_one_chunk :: chunk_store where
  "wit_one_chunk = \<lparr>cs_dir = Map.empty, cs_db_path = DB_NAME, cs_conn = \<lparr>db_chunks = [\<lparr>cr_rowid = 0,
       cr_rec = \<lparr>rec_repository = [], rec_file = ''a.rs'', rec_language = ''rust'', rec_symbol = ''f'', rec_symbol_type = ''function'',
         rec_signature = ''fn f()'', rec_doc_first_line = None, rec_line_start = 1, rec_line_end = 1, rec_content_hash = []\<rparr>,
       cr_live = True\<rparr>], db_meta = Map.empty\<rparr>, cs_matrix_path = MATRIX_NAME, cs_matrix = None, cs_statements_prepared = 0,
     cs_fail_before_commit = False\<rparr>"

definition wit_taken :: "(document list \<times> document list) daemon" where
  "wit_taken = \<lparr>dm_state = new_state\<lparr>ss_indexing := True\<rparr>, dm_loading = False,
     dm_worker = Some (Taken Full ''/r'' (wit_resident wit_one_chunk))\<rparr>"

theorem failed_split_is_permanent_witness:
  "\<exists>d' d''. daemon_step (\<lambda>_. []) wit_unreadable wit_taken Work d' \<and> daemon_step (\<lambda>_. []) wit_unreadable d' Connect d'' \<and>
     (\<forall>D. dispatch_read D (ss_serving (dm_state d'')) (RqSearch ''query'' 5) = Inl (Raise DStarting))"
proof -
  define e where "e = retrieval_internal ''bodies: '' (RTantivy ''I/O error'')"
  have split: "split_for_index wit_unreadable (wit_resident wit_one_chunk) = Inl (Raise e)"
    by (simp add: split_for_index_def wit_resident_def wit_one_chunk_def live_rows_def bodies_def load_document_def
        tantivy_error_def wit_unreadable_def e_def Let_def)
  define d' where "d' = wit_taken\<lparr>dm_worker := Some (Clearing (Inl e))\<rparr>"
  define d'' where "d'' = d'\<lparr>dm_state := accept_client (dm_state d')\<rparr>"
  have d': "daemon_step (\<lambda>_. []) wit_unreadable wit_taken Work d'"
    using daemon_step.freeze [of wit_taken Full "''/r''" "wit_resident wit_one_chunk" wit_unreadable "Clearing (Inl e)" "dm_state wit_taken"]
    by (simp add: freeze_resident_def split d'_def wit_taken_def)
  have d'': "daemon_step (\<lambda>_. []) wit_unreadable d' Connect d''" unfolding d''_def by (rule daemon_step.connect)
  then have "steps (daemon_step (\<lambda>_. []) wit_unreadable) d' d''" by (rule steps.more [OF steps.none])
  from failed_split_is_permanent [OF _ _ _ split d' this, of Full "''/r''" _ "''query''" 5]
  have "dispatch_read D (ss_serving (dm_state d'')) (RqSearch ''query'' 5) = Inl (Raise DStarting)" for D
    by (simp add: wit_taken_def new_state_def)
  then show ?thesis using d' d'' by blast
qed

end
