(* ===== verification/Binding.thy ===== *)
theory Binding
  imports Protocol Steps
begin

text \<open>
  Where a daemon listens and how it becomes the only one there (\<open>paths.rs\<close>, and \<open>Daemon::try_bind\<close> with the end of \<open>serve\<close> in \<open>server.rs\<close>). The
  file system is the map of what exists under each path, with its kind and permission bits; \<open>be_io\<close> says which operations
  fail for other reasons, and with which message. A lock belongs to the process that holds it.
\<close>

section \<open>Paths and permissions\<close>

type_synonym path = "string list"

definition path_display :: "path \<Rightarrow> string" where
  "path_display p = (if p = [] then ''/'' else concat (map (\<lambda>c. CHR ''/'' # c) p))"

datatype node_kind = Directory | RegularFile | SocketFile

record node =
  nd_kind :: node_kind
  nd_mode :: "32 word"

type_synonym file_tree = "path \<Rightarrow> node option"

record bind_env =
  be_umask :: "32 word"
  be_io :: "string \<Rightarrow> path \<Rightarrow> string option"
  be_canonical :: "path \<Rightarrow> string + path"
  be_current_dir :: "string + path"
  be_xdg_runtime_dir :: "path option"
  be_user :: "string option"
  be_blake3_hex :: "bytes \<Rightarrow> string"

text \<open>\<open>{:o}\<close>.\<close>

function show_oct :: "nat \<Rightarrow> string" where
  "show_oct n = (if n < 8 then [char_of (48 + n)] else show_oct (n div 8) @ [char_of (48 + n mod 8)])"
  by pat_completeness auto
termination
  by (relation "measure (\<lambda>n. n)") auto

declare show_oct.simps [simp del]

abbreviation all_bits :: "32 word" where "all_bits \<equiv> 0x1FF"
abbreviation others_bits :: "32 word" where "others_bits \<equiv> 0x3F"
abbreviation world_write :: "32 word" where "world_write \<equiv> 2"
abbreviation owner_all :: "32 word" where "owner_all \<equiv> 0x1C0"
abbreviation owner_rw :: "32 word" where "owner_rw \<equiv> 0x180"

definition show_mode :: "32 word \<Rightarrow> string" where
  "show_mode w = show_oct (unat (and w all_bits))"

definition metadata :: "bind_env \<Rightarrow> path \<Rightarrow> file_tree \<Rightarrow> string + node" where
  "metadata B p fs = (case be_io B ''stat'' p of
     Some e \<Rightarrow> Inl e | None \<Rightarrow> (case fs p of Some n \<Rightarrow> Inr n | None \<Rightarrow> Inl ''No such file or directory (os error 2)''))"

definition check_not_world_writable :: "bind_env \<Rightarrow> path \<Rightarrow> file_tree \<Rightarrow> daemon_error + unit" where
  "check_not_world_writable B p fs = (case metadata B p fs of
     Inl e \<Rightarrow> Inl (Internal (''stat '' @ path_display p @ '': '' @ e))
   | Inr n \<Rightarrow> if and (nd_mode n) world_write \<noteq> 0
       then Inl (Internal (''refusing world-writable directory '' @ path_display p @ '' (mode '' @ show_mode (nd_mode n) @ '')''))
       else Inr ())"

text \<open>\<open>mkdir\<close> with the given mode; the flag of an error is whether its kind is \<open>NotFound\<close>.\<close>

definition make_dir :: "bind_env \<Rightarrow> path \<Rightarrow> file_tree \<Rightarrow> (bool \<times> string) + file_tree" where
  "make_dir B p fs = (case be_io B ''mkdir'' p of
     Some e \<Rightarrow> Inl (False, e)
   | None \<Rightarrow>
       if fs p \<noteq> None then Inl (False, ''File exists (os error 17)'')
       else case fs (butlast p) of
              None \<Rightarrow> Inl (True, ''No such file or directory (os error 2)'')
            | Some n \<Rightarrow> if nd_kind n \<noteq> Directory then Inl (False, ''Not a directory (os error 20)'')
                else Inr (fs(p \<mapsto> \<lparr>nd_kind = Directory, nd_mode = and owner_all (not (be_umask B))\<rparr>)))"

text \<open>The recursive form: every missing ancestor first; a directory that exists is no error.\<close>

fun make_dirs :: "bind_env \<Rightarrow> path list \<Rightarrow> file_tree \<Rightarrow> (string + unit) \<times> file_tree" where
  "make_dirs B [] fs = (Inr (), fs)"
| "make_dirs B (p # ps) fs = (case fs p of
     Some n \<Rightarrow> if nd_kind n = Directory then make_dirs B ps fs else (Inl ''File exists (os error 17)'', fs)
   | None \<Rightarrow> (case make_dir B p fs of Inl (_, e) \<Rightarrow> (Inl e, fs) | Inr fs \<Rightarrow> make_dirs B ps fs))"

definition ancestors :: "path \<Rightarrow> path list" where
  "ancestors p = map (\<lambda>n. take n p) [0..<length p + 1]"

text \<open>Creating the directory when it does not exist; a missing parent is created first and checked again.\<close>

definition create_runtime_dir :: "bind_env \<Rightarrow> path \<Rightarrow> file_tree \<Rightarrow> (daemon_error + unit) \<times> file_tree" where
  "create_runtime_dir B dir fs =
     (let refused = (\<lambda>e. Internal (''create runtime dir '' @ path_display dir @ '': '' @ e))
      in case make_dir B dir fs of
           Inr fs \<Rightarrow> (Inr (), fs)
         | Inl (missing, e) \<Rightarrow>
             if \<not> missing then (Inl (refused e), fs)
             else case make_dirs B (ancestors (butlast dir)) fs of
                    (Inl e, fs) \<Rightarrow> (Inl (Internal (''create parent '' @ path_display (butlast dir) @ '': '' @ e)), fs)
                  | (Inr _, fs) \<Rightarrow>
                      (case check_not_world_writable B (butlast dir) fs of
                         Inl e \<Rightarrow> (Inl e, fs)
                       | Inr _ \<Rightarrow> (case make_dir B dir fs of
                             Inl (_, e) \<Rightarrow> (Inl (refused e), fs) | Inr fs \<Rightarrow> (Inr (), fs))))"

definition ensure_runtime_dir :: "bind_env \<Rightarrow> path \<Rightarrow> file_tree \<Rightarrow> (daemon_error + unit) \<times> file_tree" where
  "ensure_runtime_dir B dir fs =
     (if fs dir \<noteq> None
      then (case check_not_world_writable B dir fs of
              Inl e \<Rightarrow> Inl e
            | Inr _ \<Rightarrow> (case metadata B dir fs of
                  Inl e \<Rightarrow> Inl (Internal (''stat '' @ path_display dir @ '': '' @ e))
                | Inr n \<Rightarrow> if and (nd_mode n) others_bits \<noteq> 0
                    then Inl (Internal (''runtime dir '' @ path_display dir @ '' permissions '' @ show_mode (nd_mode n) @ '' allow group/other''))
                    else Inr ()), fs)
      else case (if fs (butlast dir) \<noteq> None then check_not_world_writable B (butlast dir) fs else Inr ()) of
             Inl e \<Rightarrow> (Inl e, fs)
           | Inr _ \<Rightarrow> create_runtime_dir B dir fs)"

section \<open>The paths of a store\<close>

text \<open>A store directory as it is given: whether it is absolute, and its components.\<close>

definition store_display :: "bool \<times> path \<Rightarrow> string" where
  "store_display = (\<lambda>(is_absolute, store). if is_absolute then path_display store else join_with ''/'' store)"

definition stable_store_path :: "bind_env \<Rightarrow> file_tree \<Rightarrow> bool \<times> path \<Rightarrow> daemon_error + path" where
  "stable_store_path B fs = (\<lambda>(is_absolute, store).
     let absolute = (if is_absolute then Inr store else case be_current_dir B of Inl e \<Rightarrow> Inl e | Inr cwd \<Rightarrow> Inr (cwd @ store));
         canonicalize = (\<lambda>what p. case be_canonical B p of Inl e \<Rightarrow> Inl (Internal (what @ e)) | Inr p \<Rightarrow> Inr p)
     in if (case absolute of Inr p \<Rightarrow> fs p \<noteq> None | Inl _ \<Rightarrow> False)
        then canonicalize (''canonicalize store '' @ store_display (is_absolute, store) @ '': '') (projr absolute)
        else case absolute of
               Inl e \<Rightarrow> Inl (Internal (''resolve current directory: '' @ e))
             | Inr p \<Rightarrow>
                 if p = [] \<or> last p = ''..'' then Inl (Internal (''store path has no leaf: '' @ store_display (is_absolute, store)))
                 else case (if fs (butlast p) \<noteq> None
                            then canonicalize (''canonicalize store parent '' @ path_display (butlast p) @ '': '') (butlast p)
                            else Inr (butlast p)) of
                        Inl e \<Rightarrow> Inl e
                      | Inr parent \<Rightarrow> Inr (parent @ [last p]))"

definition runtime_dir_for_store :: "bind_env \<Rightarrow> file_tree \<Rightarrow> bool \<times> path \<Rightarrow> daemon_error + path" where
  "runtime_dir_for_store B fs store = (case stable_store_path B fs store of
     Inl e \<Rightarrow> Inl e
   | Inr canonical \<Rightarrow>
       let short = take 16 (be_blake3_hex B (path_display canonical));
           base = (case be_xdg_runtime_dir B of Some p \<Rightarrow> p
             | None \<Rightarrow> [''tmp'', ''sift-'' @ (case be_user B of Some u \<Rightarrow> u | None \<Rightarrow> ''user'')])
       in Inr (base @ [''sift'', short]))"

definition socket_path_for_store :: "bind_env \<Rightarrow> file_tree \<Rightarrow> bool \<times> path \<Rightarrow> daemon_error + path" where
  "socket_path_for_store B fs store = (case runtime_dir_for_store B fs store of Inl e \<Rightarrow> Inl e | Inr d \<Rightarrow> Inr (d @ [''daemon.sock'']))"

definition lock_path_for_store :: "bind_env \<Rightarrow> file_tree \<Rightarrow> bool \<times> path \<Rightarrow> daemon_error + path" where
  "lock_path_for_store B fs store = (case runtime_dir_for_store B fs store of Inl e \<Rightarrow> Inl e | Inr d \<Rightarrow> Inr (d @ [''daemon.lock'']))"

section \<open>Processes and their locks\<close>

record host =
  ho_tree :: file_tree
  ho_locks :: "path \<Rightarrow> nat option"
  ho_listening :: "path \<Rightarrow> nat option"

definition open_lock_file :: "bind_env \<Rightarrow> path \<Rightarrow> file_tree \<Rightarrow> (daemon_error + unit) \<times> file_tree" where
  "open_lock_file B p fs = (case (if p = [] then (Inr (), fs) else ensure_runtime_dir B (butlast p) fs) of
     (Inl e, fs) \<Rightarrow> (Inl e, fs)
   | (Inr _, fs) \<Rightarrow>
       let refused = (\<lambda>e. Inl (Internal (''open lock '' @ path_display p @ '': '' @ e)))
       in case be_io B ''open'' p of
            Some e \<Rightarrow> (refused e, fs)
          | None \<Rightarrow> (case fs (butlast p) of
                None \<Rightarrow> (refused ''No such file or directory (os error 2)'', fs)
              | Some d \<Rightarrow>
                  if nd_kind d \<noteq> Directory then (refused ''Not a directory (os error 20)'', fs)
                  else case fs p of
                         None \<Rightarrow> (Inr (), fs(p \<mapsto> \<lparr>nd_kind = RegularFile, nd_mode = and owner_rw (not (be_umask B))\<rparr>))
                       | Some n \<Rightarrow> if nd_kind n = Directory then (refused ''Is a directory (os error 21)'', fs) else (Inr (), fs)))"

text \<open>Removing a file takes the name from whoever listens under it.\<close>

definition remove_file :: "bind_env \<Rightarrow> path \<Rightarrow> host \<Rightarrow> (string + unit) \<times> host" where
  "remove_file B p h = (case be_io B ''unlink'' p of
     Some e \<Rightarrow> (Inl e, h)
   | None \<Rightarrow> (case ho_tree h p of
         None \<Rightarrow> (Inl ''No such file or directory (os error 2)'', h)
       | Some n \<Rightarrow> if nd_kind n = Directory then (Inl ''Is a directory (os error 21)'', h)
           else (Inr (), h\<lparr>ho_tree := (ho_tree h)(p := None), ho_listening := (ho_listening h)(p := None)\<rparr>)))"

definition prepare_socket_path :: "bind_env \<Rightarrow> path \<Rightarrow> host \<Rightarrow> (daemon_error + unit) \<times> host" where
  "prepare_socket_path B socket h =
     (if socket = [] then (Inl (Internal ''socket path has no parent''), h)
      else case ensure_runtime_dir B (butlast socket) (ho_tree h) of
             (Inl e, fs) \<Rightarrow> (Inl e, h\<lparr>ho_tree := fs\<rparr>)
           | (Inr _, fs) \<Rightarrow>
               let h = h\<lparr>ho_tree := fs\<rparr>
               in if fs socket = None then (Inr (), h)
                  else case remove_file B socket h of
                         (Inl e, h) \<Rightarrow> (Inl (Internal (''unlink stale socket '' @ path_display socket @ '': '' @ e)), h)
                       | (Inr _, h) \<Rightarrow> (Inr (), h))"

definition bind_listener :: "bind_env \<Rightarrow> nat \<Rightarrow> path \<Rightarrow> host \<Rightarrow> (daemon_error + unit) \<times> host" where
  "bind_listener B pid socket h =
     (let refused = (\<lambda>e. (Inl (Internal (''bind '' @ path_display socket @ '': '' @ e)), h))
      in case be_io B ''bind'' socket of
           Some e \<Rightarrow> refused e
         | None \<Rightarrow>
             if ho_tree h socket \<noteq> None then refused ''Address already in use (os error 98)''
             else case ho_tree h (butlast socket) of
                    None \<Rightarrow> refused ''No such file or directory (os error 2)''
                  | Some d \<Rightarrow> if nd_kind d \<noteq> Directory then refused ''Not a directory (os error 20)''
                      else (Inr (), h\<lparr>ho_tree := (ho_tree h)(socket \<mapsto> \<lparr>nd_kind = SocketFile, nd_mode = and all_bits (not (be_umask B))\<rparr>),
                                     ho_listening := (ho_listening h)(socket \<mapsto> pid)\<rparr>))"

definition tighten_socket_permissions :: "bind_env \<Rightarrow> path \<Rightarrow> file_tree \<Rightarrow> (daemon_error + unit) \<times> file_tree" where
  "tighten_socket_permissions B socket fs = (case metadata B socket fs of
     Inl e \<Rightarrow> (Inl (Internal (''stat socket '' @ path_display socket @ '': '' @ e)), fs)
   | Inr n \<Rightarrow> (case be_io B ''chmod'' socket of
         Some e \<Rightarrow> (Inl (Internal (''chmod socket '' @ path_display socket @ '': '' @ e)), fs)
       | None \<Rightarrow> (Inr (), fs(socket \<mapsto> n\<lparr>nd_mode := owner_rw\<rparr>))))"

definition assert_socket_permissions :: "bind_env \<Rightarrow> path \<Rightarrow> file_tree \<Rightarrow> daemon_error + unit" where
  "assert_socket_permissions B socket fs = (case metadata B socket fs of
     Inl e \<Rightarrow> Inl (Internal (''stat socket '' @ path_display socket @ '': '' @ e))
   | Inr n \<Rightarrow> if and (nd_mode n) others_bits \<noteq> 0
       then Inl (Internal (''socket '' @ path_display socket @ '' mode '' @ show_mode (nd_mode n) @ '' allows group/other'')) else Inr ())"

section \<open>Becoming the daemon\<close>

text \<open>
  \<open>try_bind\<close> one statement at a time, so that other processes may run in between: open the lock file, lock it, prepare the
  socket's place, bind, tighten, check. \<open>Serving\<close> carries on in \<open>Daemon\<close>. A process that ends, for whatever reason, drops its
  lock and its listener; only the orderly end removes the socket, while the lock is still held.
\<close>

record bind_config =
  bg_store_dir :: "bool \<times> path"
  bg_socket_path :: path

datatype bind_end = LockHeld | Refused daemon_error | Finished

datatype bind_phase = PhStart | PhOpened path | PhLocked path | PhPrepared path | PhBound path | PhTightened path | PhServing path | PhUnlinked path
  | PhEnded bind_end

definition lock_path_of :: "bind_env \<Rightarrow> bind_config \<Rightarrow> file_tree \<Rightarrow> daemon_error + path" where
  "lock_path_of B cfg fs = (case lock_path_for_store B fs (bg_store_dir cfg) of
     Inl e \<Rightarrow> Inl e
   | Inr p \<Rightarrow> Inr (if bg_socket_path cfg = [] then p else butlast (bg_socket_path cfg) @ [''daemon.lock'']))"

definition release :: "nat \<Rightarrow> host \<Rightarrow> host" where
  "release pid h = h\<lparr>ho_locks := (\<lambda>p. if ho_locks h p = Some pid then None else ho_locks h p),
     ho_listening := (\<lambda>p. if ho_listening h p = Some pid then None else ho_listening h p)\<rparr>"

definition give_up :: "nat \<Rightarrow> daemon_error \<Rightarrow> host \<Rightarrow> bind_phase \<times> host" where
  "give_up pid e h = (PhEnded (Refused e), release pid h)"

definition open_phase :: "bind_env \<Rightarrow> bind_config \<Rightarrow> nat \<Rightarrow> host \<Rightarrow> bind_phase \<times> host" where
  "open_phase B cfg pid h = (case lock_path_of B cfg (ho_tree h) of
     Inl e \<Rightarrow> give_up pid e h
   | Inr p \<Rightarrow> (case open_lock_file B p (ho_tree h) of
         (Inl e, fs) \<Rightarrow> give_up pid e (h\<lparr>ho_tree := fs\<rparr>) | (Inr _, fs) \<Rightarrow> (PhOpened p, h\<lparr>ho_tree := fs\<rparr>)))"

definition lock_phase :: "bind_env \<Rightarrow> nat \<Rightarrow> path \<Rightarrow> host \<Rightarrow> bind_phase \<times> host" where
  "lock_phase B pid p h = (case be_io B ''lock'' p of
     Some e \<Rightarrow> give_up pid (Internal (''try_lock: '' @ e)) h
   | None \<Rightarrow> if ho_locks h p = None then (PhLocked p, h\<lparr>ho_locks := (ho_locks h)(p \<mapsto> pid)\<rparr>)
       else (PhEnded LockHeld, release pid h))"

fun next_phase :: "bind_env \<Rightarrow> bind_config \<Rightarrow> nat \<Rightarrow> bind_phase \<times> host \<Rightarrow> bind_phase \<times> host" where
  "next_phase B cfg pid (PhStart, h) = open_phase B cfg pid h"
| "next_phase B cfg pid (PhOpened p, h) = lock_phase B pid p h"
| "next_phase B cfg pid (PhLocked p, h) = (case prepare_socket_path B (bg_socket_path cfg) h of
     (Inl e, h) \<Rightarrow> give_up pid e h | (Inr _, h) \<Rightarrow> (PhPrepared p, h))"
| "next_phase B cfg pid (PhPrepared p, h) = (case bind_listener B pid (bg_socket_path cfg) h of
     (Inl e, h) \<Rightarrow> give_up pid e h | (Inr _, h) \<Rightarrow> (PhBound p, h))"
| "next_phase B cfg pid (PhBound p, h) = (case tighten_socket_permissions B (bg_socket_path cfg) (ho_tree h) of
     (Inl e, fs) \<Rightarrow> give_up pid e (h\<lparr>ho_tree := fs\<rparr>) | (Inr _, fs) \<Rightarrow> (PhTightened p, h\<lparr>ho_tree := fs\<rparr>))"
| "next_phase B cfg pid (PhTightened p, h) = (case assert_socket_permissions B (bg_socket_path cfg) (ho_tree h) of
     Inl e \<Rightarrow> give_up pid e h | Inr _ \<Rightarrow> (PhServing p, h))"
| "next_phase B cfg pid (PhServing p, h) = (PhServing p, h)"
| "next_phase B cfg pid (PhUnlinked p, h) = (PhEnded Finished, release pid h)"
| "next_phase B cfg pid (PhEnded e, h) = (PhEnded e, h)"

text \<open>\<open>try_bind\<close> and \<open>bind\<close> when nothing runs in between.\<close>

definition try_bind :: "bind_env \<Rightarrow> bind_config \<Rightarrow> nat \<Rightarrow> host \<Rightarrow> bind_phase \<times> host" where
  "try_bind B cfg pid h = (next_phase B cfg pid ^^ 6) (PhStart, h)"

definition bind_daemon :: "bind_env \<Rightarrow> bind_config \<Rightarrow> nat \<Rightarrow> host \<Rightarrow> (daemon_error + unit) \<times> host" where
  "bind_daemon B cfg pid h = (case try_bind B cfg pid h of
     (PhEnded LockHeld, h) \<Rightarrow> (Inl (Internal ''lock held by another daemon''), h)
   | (PhEnded (Refused e), h) \<Rightarrow> (Inl e, h)
   | (_, h) \<Rightarrow> (Inr (), h))"

text \<open>The end of \<open>serve\<close>: the socket is removed, and a failure to do so ignored.\<close>

definition unlink_socket :: "bind_env \<Rightarrow> bind_config \<Rightarrow> path \<Rightarrow> host \<Rightarrow> bind_phase \<times> host" where
  "unlink_socket B cfg p h = (PhUnlinked p, snd (remove_file B (bg_socket_path cfg) h))"

section \<open>All processes together\<close>

record machine =
  ma_host :: host
  ma_procs :: "nat \<Rightarrow> (bind_config \<times> bind_phase) option"

datatype machine_label = Launch nat bind_config | Advance nat | StopServing nat | Kill nat

inductive machine_step :: "bind_env \<Rightarrow> machine \<Rightarrow> machine_label \<Rightarrow> machine \<Rightarrow> bool" for B where
  launch: "ma_procs m pid = None \<Longrightarrow> machine_step B m (Launch pid cfg) (m\<lparr>ma_procs := (ma_procs m)(pid \<mapsto> (cfg, PhStart))\<rparr>)"
| advance: "ma_procs m pid = Some (cfg, ph) \<Longrightarrow> next_phase B cfg pid (ph, ma_host m) = (ph', h) \<Longrightarrow>
    machine_step B m (Advance pid) \<lparr>ma_host = h, ma_procs = (ma_procs m)(pid \<mapsto> (cfg, ph'))\<rparr>"
| stop_serving: "ma_procs m pid = Some (cfg, PhServing p) \<Longrightarrow> unlink_socket B cfg p (ma_host m) = (ph', h) \<Longrightarrow>
    machine_step B m (StopServing pid) \<lparr>ma_host = h, ma_procs = (ma_procs m)(pid \<mapsto> (cfg, ph'))\<rparr>"
| kill: "ma_procs m pid = Some (cfg, ph) \<Longrightarrow>
    machine_step B m (Kill pid) \<lparr>ma_host = release pid (ma_host m), ma_procs = (ma_procs m)(pid \<mapsto> (cfg, PhEnded Finished))\<rparr>"

inductive_cases machine_stepE: "machine_step B m l m'"

section \<open>The command line\<close>

text \<open>\<open>str::parse::<u64>\<close>: decimal digits after an optional plus sign, within the range.\<close>

definition parse_u64 :: "string \<Rightarrow> nat option" where
  "parse_u64 s =
     (let ds = (case s of c # cs \<Rightarrow> if c = CHR ''+'' then cs else s | [] \<Rightarrow> []);
          n = foldl (\<lambda>acc c. 10 * acc + (of_char c - 48)) 0 ds
      in if ds \<noteq> [] \<and> list_all (\<lambda>c. c \<in> set ''0123456789'') ds \<and> n < 2 ^ 64 then Some n else None)"

record daemon_args =
  da_store :: "string option"
  da_repo :: "string option"
  da_model :: "string option"
  da_socket :: "string option"
  da_idle_secs :: nat

datatype daemon_main = UnknownDaemonArg string | DaemonPanic string | RunDaemon daemon_args

definition default_daemon_args :: daemon_args where
  "default_daemon_args = \<lparr>da_store = None, da_repo = None, da_model = None, da_socket = None, da_idle_secs = 15 * 60\<rparr>"

text \<open>An option without its value indexes past the end of the arguments; an idle time that is not a number is ignored.\<close>

fun parse_daemon_args :: "string list \<Rightarrow> daemon_args \<Rightarrow> daemon_main" where
  "parse_daemon_args [] a =
     (if da_store a = None then DaemonPanic ''--store required'' else if da_repo a = None then DaemonPanic ''--repo required'' else RunDaemon a)"
| "parse_daemon_args [arg] a =
     (if arg \<in> {''--store'', ''--repo'', ''--model'', ''--socket'', ''--idle-secs''} then DaemonPanic ''index out of bounds'' else UnknownDaemonArg arg)"
| "parse_daemon_args (arg # v # args) a =
     (if arg = ''--store'' then parse_daemon_args args (a\<lparr>da_store := Some v\<rparr>)
      else if arg = ''--repo'' then parse_daemon_args args (a\<lparr>da_repo := Some v\<rparr>)
      else if arg = ''--model'' then parse_daemon_args args (a\<lparr>da_model := Some v\<rparr>)
      else if arg = ''--socket'' then parse_daemon_args args (a\<lparr>da_socket := Some v\<rparr>)
      else if arg = ''--idle-secs'' then parse_daemon_args args (a\<lparr>da_idle_secs := (case parse_u64 v of Some n \<Rightarrow> n | None \<Rightarrow> da_idle_secs a)\<rparr>)
      else UnknownDaemonArg arg)"

end
