(* ===== verification/Binding_Props.thy ===== *)
theory Binding_Props
  imports Binding
begin

text \<open>
  Of all processes that want the same socket at most one is past the lock, and a serving daemon keeps its socket: whatever
  the others do, start, fail, end or die, its name leads to it, readable and writable by its owner only, in a directory
  closed to others.
\<close>

section \<open>What the file operations keep\<close>

text \<open>An operation keeps everything that exists, except under the paths in a given set.\<close>

definition keeps_tree :: "path set \<Rightarrow> file_tree \<Rightarrow> file_tree \<Rightarrow> bool" where
  "keeps_tree X fs fs' \<longleftrightarrow> (\<forall>p n. p \<notin> X \<longrightarrow> fs p = Some n \<longrightarrow> fs' p = Some n)"

lemma keeps_tree_refl [simp]: "keeps_tree X fs fs" by (simp add: keeps_tree_def)

lemma keeps_tree_trans: "keeps_tree {} fs fs' \<Longrightarrow> keeps_tree X fs' fs'' \<Longrightarrow> keeps_tree X fs fs''"
  by (auto simp: keeps_tree_def)

lemma keeps_tree_weaken: "keeps_tree {} fs fs' \<Longrightarrow> keeps_tree X fs fs'"
  by (auto simp: keeps_tree_def)

lemma make_dir_keeps: "make_dir B p fs = Inr fs' \<Longrightarrow> keeps_tree {} fs fs'"
  by (auto simp: make_dir_def keeps_tree_def split: option.splits if_splits)

lemma make_dirs_keeps: "make_dirs B ps fs = (r, fs') \<Longrightarrow> keeps_tree {} fs fs'"
  by (induction ps arbitrary: fs) (auto split: option.splits if_splits sum.splits prod.splits intro: keeps_tree_trans [OF make_dir_keeps])

lemma create_runtime_dir_keeps: "create_runtime_dir B dir fs = (r, fs') \<Longrightarrow> keeps_tree {} fs fs'"
  by (auto simp: create_runtime_dir_def Let_def split: sum.splits prod.splits if_splits
      dest: make_dir_keeps make_dirs_keeps intro: keeps_tree_trans)

lemma ensure_runtime_dir_keeps: "ensure_runtime_dir B dir fs = (r, fs') \<Longrightarrow> keeps_tree {} fs fs'"
  by (auto simp: ensure_runtime_dir_def split: if_splits sum.splits dest: create_runtime_dir_keeps)

lemma open_lock_file_keeps: "open_lock_file B p fs = (r, fs') \<Longrightarrow> keeps_tree {} fs fs'"
  by (auto simp: open_lock_file_def Let_def keeps_tree_def [of _ fs] dest!: ensure_runtime_dir_keeps
      split: if_splits sum.splits prod.splits option.splits)

section \<open>Closed directories\<close>

definition private_dir :: "path \<Rightarrow> file_tree \<Rightarrow> bool" where
  "private_dir d fs \<longleftrightarrow> (\<exists>n. fs d = Some n \<and> nd_kind n = Directory \<and> and (nd_mode n) others_bits = 0)"

lemma owner_all_private: "and (and owner_all w) others_bits = 0"
  by (simp add: and.assoc and.left_commute and.commute)

lemma make_dir_private: "make_dir B p fs = Inr fs' \<Longrightarrow> private_dir p fs'"
  by (auto simp: make_dir_def private_dir_def owner_all_private split: option.splits if_splits)

lemma ensure_runtime_dir_closed:
  "ensure_runtime_dir B dir fs = (Inr (), fs') \<Longrightarrow> \<exists>n. fs' dir = Some n \<and> and (nd_mode n) others_bits = 0"
  using make_dir_private [of B dir]
  by (fastforce simp: ensure_runtime_dir_def create_runtime_dir_def metadata_def Let_def private_dir_def
      split: if_splits sum.splits prod.splits option.splits)

lemma open_lock_file_private:
  assumes "open_lock_file B p fs = (Inr (), fs')" "p \<noteq> []"
  shows "private_dir (butlast p) fs'"
proof -
  obtain fs1 where e: "ensure_runtime_dir B (butlast p) fs = (Inr (), fs1)"
    using assms by (auto simp: open_lock_file_def split: prod.splits sum.splits)
  then obtain n where n: "fs1 (butlast p) = Some n" "and (nd_mode n) others_bits = 0" using ensure_runtime_dir_closed by blast
  have ne: "butlast p \<noteq> p" using assms(2) by (metis append_butlast_last_id append_self_conv list.distinct(1))
  from assms e n ne show ?thesis
    by (auto simp: open_lock_file_def private_dir_def Let_def split: option.splits if_splits)
qed

section \<open>One process\<close>

definition phase_lock :: "bind_phase \<Rightarrow> path option" where
  "phase_lock ph = (case ph of PhLocked p \<Rightarrow> Some p | PhPrepared p \<Rightarrow> Some p | PhBound p \<Rightarrow> Some p | PhTightened p \<Rightarrow> Some p
     | PhServing p \<Rightarrow> Some p | PhUnlinked p \<Rightarrow> Some p | _ \<Rightarrow> None)"

definition phase_listens :: "bind_phase \<Rightarrow> bool" where
  "phase_listens ph \<longleftrightarrow> (case ph of PhBound _ \<Rightarrow> True | PhTightened _ \<Rightarrow> True | PhServing _ \<Rightarrow> True | _ \<Rightarrow> False)"

definition lock_name :: "bind_config \<Rightarrow> path" where
  "lock_name cfg = butlast (bg_socket_path cfg) @ [''daemon.lock'']"

text \<open>A configuration whose socket is not the lock file itself.\<close>

definition config_ok :: "bind_config \<Rightarrow> bool" where
  "config_ok cfg \<longleftrightarrow> bg_socket_path cfg \<noteq> [] \<and> last (bg_socket_path cfg) \<noteq> ''daemon.lock''"

definition proc_inv :: "bind_config \<Rightarrow> nat \<Rightarrow> bind_phase \<Rightarrow> host \<Rightarrow> bool" where
  "proc_inv cfg pid ph h \<longleftrightarrow> config_ok cfg \<and>
     (\<forall>p. ph = PhOpened p \<or> phase_lock ph = Some p \<longrightarrow> p = lock_name cfg \<and> private_dir (butlast (bg_socket_path cfg)) (ho_tree h)) \<and>
     (\<forall>p. phase_lock ph = Some p \<longrightarrow> ho_locks h p = Some pid) \<and>
     (phase_listens ph \<longrightarrow> ho_listening h (bg_socket_path cfg) = Some pid \<and>
        (\<exists>n. ho_tree h (bg_socket_path cfg) = Some n \<and> nd_kind n = SocketFile \<and> ((\<exists>p. ph = PhBound p) \<or> nd_mode n = owner_rw)))"

lemma proc_inv_idle [simp]: "proc_inv cfg pid PhStart h = config_ok cfg" "proc_inv cfg pid (PhEnded e) h = config_ok cfg"
  by (simp_all add: proc_inv_def phase_lock_def phase_listens_def)

lemma lock_path_name: "config_ok cfg \<Longrightarrow> lock_path_of B cfg fs = Inr p \<Longrightarrow> p = lock_name cfg"
  by (auto simp: lock_path_of_def lock_name_def config_ok_def split: sum.splits)

lemma lock_name_ne [simp]: "lock_name cfg \<noteq> []" "butlast (lock_name cfg) = butlast (bg_socket_path cfg)"
  by (simp_all add: lock_name_def)

text \<open>What a process does to the machine: it adds, and removes or changes only files under the paths \<open>X\<close>; locks and names of others stay.\<close>

definition effect :: "nat \<Rightarrow> path set \<Rightarrow> host \<Rightarrow> host \<Rightarrow> bool" where
  "effect pid X h h' \<longleftrightarrow>
     (\<forall>p n. ho_tree h p = Some n \<longrightarrow> p \<notin> X \<or> nd_kind n = Directory \<longrightarrow> ho_tree h' p = Some n) \<and>
     (\<forall>p q. ho_locks h p = Some q \<longrightarrow> q \<noteq> pid \<longrightarrow> ho_locks h' p = Some q) \<and>
     (\<forall>p q. ho_listening h p = Some q \<longrightarrow> q \<noteq> pid \<longrightarrow> p \<notin> X \<longrightarrow> ho_listening h' p = Some q)"

lemma effect_same [simp]: "effect pid X h h"
  by (simp add: effect_def)

lemma effect_release: "effect pid X h (release pid h)"
  by (simp add: effect_def release_def)

lemma effect_tree: "keeps_tree {} (ho_tree h) fs \<Longrightarrow> effect pid X h (h\<lparr>ho_tree := fs\<rparr>)"
  by (simp add: effect_def keeps_tree_def)

lemma effect_trans: "effect pid X h h' \<Longrightarrow> effect pid X h' h'' \<Longrightarrow> effect pid X h h''"
  by (auto simp: effect_def)

lemma effect_give_up: "effect pid X h h' \<Longrightarrow> give_up pid e h' = (ph, h'') \<Longrightarrow> effect pid X h h''"
  by (auto simp: give_up_def intro: effect_trans effect_release)

lemma private_dir_effect: "effect pid X h h' \<Longrightarrow> private_dir d (ho_tree h) \<Longrightarrow> private_dir d (ho_tree h')"
  by (auto simp: effect_def private_dir_def)

lemma effect_remove_file: "remove_file B p h = (r, h') \<Longrightarrow> effect pid {p} h h'"
  by (auto simp: remove_file_def effect_def split: option.splits if_splits)

lemma effect_prepare: "prepare_socket_path B s h = (r, h') \<Longrightarrow> effect pid {s} h h'"
  by (auto simp: prepare_socket_path_def Let_def split: if_splits prod.splits sum.splits
      dest!: ensure_runtime_dir_keeps effect_remove_file [of _ _ _ _ _ pid] intro: effect_tree effect_trans [OF effect_tree])
  
lemma effect_bind: "bind_listener B pid s h = (r, h') \<Longrightarrow> effect pid {s} h h'"
  by (auto simp: bind_listener_def effect_def Let_def split: option.splits if_splits)

lemma effect_tighten:
  "tighten_socket_permissions B s (ho_tree h) = (r, fs) \<Longrightarrow> ho_tree h s = Some n \<Longrightarrow> nd_kind n \<noteq> Directory \<Longrightarrow> effect pid {s} h (h\<lparr>ho_tree := fs\<rparr>)"
  by (auto simp: tighten_socket_permissions_def effect_def split: option.splits sum.splits)

definition touched :: "bind_config \<Rightarrow> bind_phase \<Rightarrow> path set" where
  "touched cfg ph = (if phase_lock ph = None then {} else {bg_socket_path cfg})"

lemma open_phase_step:
  assumes "config_ok cfg" "open_phase B cfg pid h = (ph', h')"
  shows "effect pid {} h h' \<and> proc_inv cfg pid ph' h'"
proof (cases "lock_path_of B cfg (ho_tree h)")
  case (Inl e)
  then show ?thesis using assms effect_give_up [of pid "{}" h h e] by (auto simp: open_phase_def give_up_def)
next
  case (Inr p)
  have p: "p = lock_name cfg" using lock_path_name [OF assms(1) Inr] .
  obtain r fs where o: "open_lock_file B p (ho_tree h) = (r, fs)" by fastforce
  have e: "effect pid {} h (h\<lparr>ho_tree := fs\<rparr>)" using open_lock_file_keeps [OF o] by (rule effect_tree)
  show ?thesis
  proof (cases r)
    case Inl
    then show ?thesis using assms Inr o e effect_give_up by (fastforce simp: open_phase_def give_up_def)
  next
    case (Inr u)
    then have "private_dir (butlast p) fs" using open_lock_file_private [of B p "ho_tree h" fs] o p by simp
    then show ?thesis using assms \<open>lock_path_of B cfg (ho_tree h) = Inr p\<close> o e Inr p
      by (auto simp: open_phase_def proc_inv_def phase_lock_def phase_listens_def)
  qed
qed

lemma lock_phase_step:
  assumes "proc_inv cfg pid (PhOpened p) h" "lock_phase B pid p h = (ph', h')"
  shows "effect pid {} h h' \<and> proc_inv cfg pid ph' h'"
  using assms effect_release [of pid "{}" h]
  by (auto simp: lock_phase_def give_up_def split: option.splits if_splits)
    (auto simp: effect_def proc_inv_def phase_lock_def phase_listens_def)

text \<open>A phase that holds the lock: it touches the socket's path only, and keeps the directory.\<close>

lemma locked_phase_step:
  assumes "proc_inv cfg pid ph h" "phase_lock ph = Some p" "next_phase B cfg pid (ph, h) = (ph', h')"
  shows "effect pid {bg_socket_path cfg} h h' \<and> proc_inv cfg pid ph' h'"
proof -
  let ?s = "bg_socket_path cfg"
  have c: "config_ok cfg" "p = lock_name cfg" "private_dir (butlast ?s) (ho_tree h)" "ho_locks h p = Some pid"
    using assms(1,2) by (auto simp: proc_inv_def)
  have stays: "private_dir (butlast ?s) (ho_tree h'')" if "effect pid {?s} h h''" for h'' using private_dir_effect [OF that c(3)] .
  show ?thesis
  proof (cases ph)
    case (PhLocked q)
    obtain r h1 where r: "prepare_socket_path B ?s h = (r, h1)" by fastforce
    have "ho_locks h1 = ho_locks h" using r
      by (auto simp: prepare_socket_path_def remove_file_def Let_def split: if_splits prod.splits sum.splits option.splits)
    then show ?thesis using assms PhLocked r effect_prepare [OF r, of pid] stays [OF effect_prepare [OF r]] c
      by (cases r) (auto simp: give_up_def effect_give_up proc_inv_def phase_lock_def phase_listens_def intro: effect_trans effect_release)
  next
    case (PhPrepared q)
    obtain r h1 where r: "bind_listener B pid ?s h = (r, h1)" by fastforce
    show ?thesis using assms PhPrepared r effect_bind [OF r] stays [OF effect_bind [OF r]] c
      by (cases r) (auto simp: give_up_def proc_inv_def phase_lock_def phase_listens_def bind_listener_def Let_def
          intro: effect_trans effect_release split: option.splits if_splits)
  next
    case (PhBound q)
    then obtain n where n: "ho_tree h ?s = Some n" "nd_kind n = SocketFile" "ho_listening h ?s = Some pid"
      using assms(1) by (auto simp: proc_inv_def phase_listens_def)
    obtain r fs where r: "tighten_socket_permissions B ?s (ho_tree h) = (r, fs)" by fastforce
    have e: "effect pid {?s} h (h\<lparr>ho_tree := fs\<rparr>)" using effect_tighten [OF r n(1)] n(2) by simp
    show ?thesis using assms PhBound r e stays [OF e] c n
      by (cases r) (auto simp: give_up_def proc_inv_def phase_lock_def phase_listens_def tighten_socket_permissions_def metadata_def
          intro: effect_trans effect_release split: option.splits if_splits sum.splits)
  next
    case (PhTightened q)
    then show ?thesis using assms c
      by (auto simp: give_up_def effect_release proc_inv_def phase_lock_def phase_listens_def split: sum.splits)
  next
    case (PhServing q)
    then show ?thesis using assms by simp
  next
    case (PhUnlinked q)
    then show ?thesis using assms c by (auto simp: effect_release)
  qed (use assms(2) in \<open>auto simp: phase_lock_def\<close>)
qed

lemma next_phase_step:
  assumes "proc_inv cfg pid ph h" "next_phase B cfg pid (ph, h) = (ph', h')"
  shows "effect pid (touched cfg ph) h h' \<and> proc_inv cfg pid ph' h'"
proof (cases "phase_lock ph")
  case None
  then show ?thesis using assms open_phase_step [of cfg B pid h ph' h'] lock_phase_step [of cfg pid _ h B ph' h']
    by (cases ph) (auto simp: touched_def phase_lock_def)
next
  case (Some p)
  then show ?thesis using locked_phase_step [OF assms(1) Some assms(2)] by (simp add: touched_def)
qed

lemma unlink_socket_step:
  assumes "proc_inv cfg pid (PhServing p) h" "unlink_socket B cfg p h = (ph', h')"
  shows "effect pid {bg_socket_path cfg} h h' \<and> proc_inv cfg pid ph' h'"
proof -
  obtain r h1 where r: "remove_file B (bg_socket_path cfg) h = (r, h1)" by fastforce
  have "ho_locks h1 = ho_locks h" using r by (auto simp: remove_file_def split: option.splits if_splits)
  then show ?thesis using assms r effect_remove_file [OF r, of pid] private_dir_effect [OF effect_remove_file [OF r, of pid]]
    by (auto simp: unlink_socket_def proc_inv_def phase_lock_def phase_listens_def)
qed

lemma proc_inv_other:
  assumes "proc_inv cfg q ph h" "effect pid X h h'" "q \<noteq> pid" "phase_listens ph \<longrightarrow> bg_socket_path cfg \<notin> X"
  shows "proc_inv cfg q ph h'"
  using assms private_dir_effect [OF assms(2)] unfolding proc_inv_def effect_def by metis

section \<open>All processes\<close>

definition machine_inv :: "machine \<Rightarrow> bool" where
  "machine_inv m \<longleftrightarrow> (\<forall>pid cfg ph. ma_procs m pid = Some (cfg, ph) \<longrightarrow> proc_inv cfg pid ph (ma_host m))"

text \<open>Processes that hold the lock and want the same socket are the same process.\<close>

lemma lock_excludes:
  assumes "proc_inv cfg pid ph h" "proc_inv cfg' q ph' h" "phase_lock ph \<noteq> None" "phase_lock ph' \<noteq> None"
    "butlast (bg_socket_path cfg) = butlast (bg_socket_path cfg')"
  shows "pid = q"
  using assms by (auto simp: proc_inv_def lock_name_def)

lemma listens_lock: "phase_listens ph \<Longrightarrow> phase_lock ph \<noteq> None"
  by (auto simp: phase_listens_def phase_lock_def split: bind_phase.splits)

lemma machine_inv_update:
  assumes "machine_inv m" "ma_procs m pid = Some (cfg, ph)" "effect pid X (ma_host m) h" "proc_inv cfg pid ph' h"
    "X = {} \<or> X = {bg_socket_path cfg} \<and> phase_lock ph \<noteq> None"
  shows "machine_inv \<lparr>ma_host = h, ma_procs = (ma_procs m)(pid \<mapsto> (cfg, ph'))\<rparr>"
proof -
  have "proc_inv cfg' q ph'' h" if "ma_procs m q = Some (cfg', ph'')" "q \<noteq> pid" for q cfg' ph''
  proof (rule proc_inv_other [OF _ assms(3) that(2)])
    have i: "proc_inv cfg pid ph (ma_host m)" "proc_inv cfg' q ph'' (ma_host m)" using assms(1,2) that(1) by (auto simp: machine_inv_def)
    then show "proc_inv cfg' q ph'' (ma_host m)" by simp
    show "phase_listens ph'' \<longrightarrow> bg_socket_path cfg' \<notin> X"
      using lock_excludes [OF i] listens_lock that(2) assms(5) by force
  qed
  then show ?thesis using assms(4) by (auto simp: machine_inv_def)
qed

definition launch_ok :: "machine_label \<Rightarrow> bool" where
  "launch_ok l = (case l of Launch pid cfg \<Rightarrow> config_ok cfg | _ \<Rightarrow> True)"

interpretation daemons: kept "\<lambda>m l m'. machine_step B m l m' \<and> launch_ok l" machine_inv for B
proof
  fix m l m'
  assume inv: "machine_inv m" and "machine_step B m l m' \<and> launch_ok l"
  then have st: "machine_step B m l m'" and ok: "launch_ok l" by simp_all
  from st show "machine_inv m'"
  proof (cases rule: machine_step.cases)
    case (launch pid cfg)
    then show ?thesis using inv ok by (auto simp: machine_inv_def launch_ok_def)
  next
    case (advance pid cfg ph ph' h)
    then have "proc_inv cfg pid ph (ma_host m)" using inv by (simp add: machine_inv_def)
    from next_phase_step [OF this advance(4)] show ?thesis
      using machine_inv_update [OF inv advance(3)] advance(2) by (auto simp: touched_def split: if_splits)
  next
    case (stop_serving pid cfg p ph' h)
    then have "proc_inv cfg pid (PhServing p) (ma_host m)" using inv by (simp add: machine_inv_def)
    from unlink_socket_step [OF this stop_serving(4)] show ?thesis
      using machine_inv_update [OF inv stop_serving(3)] stop_serving(2) by (auto simp: phase_lock_def)
  next
    case (kill pid cfg ph)
    then have "config_ok cfg" using inv by (auto simp: machine_inv_def proc_inv_def)
    then have "proc_inv cfg pid (PhEnded Finished) (release pid (ma_host m))" by simp
    then show ?thesis using machine_inv_update [OF inv kill(3) effect_release [of pid "{}"]] kill(2) by simp
  qed
qed

text \<open>A machine on which nothing runs; what its file system holds is arbitrary, stale sockets included.\<close>

definition idle_machine :: "machine \<Rightarrow> bool" where
  "idle_machine m \<longleftrightarrow> (\<forall>pid. ma_procs m pid = None)"

text \<open>
  C4: a serving daemon keeps its socket. Whatever processes are started, fail, end or are killed on a machine, in any interleaving of
  their system calls, a process that serves is the one listening under its socket's name, the socket is open to its owner only
  and lies in a directory closed to others; and every other process with a socket in that directory is not past the lock.
\<close>

theorem serving_daemon_keeps_its_socket:
  assumes "idle_machine m" "steps (\<lambda>m l m'. machine_step B m l m' \<and> launch_ok l) m m'" "ma_procs m' pid = Some (cfg, PhServing p)"
  shows "ho_listening (ma_host m') (bg_socket_path cfg) = Some pid \<and>
     ho_tree (ma_host m') (bg_socket_path cfg) = Some \<lparr>nd_kind = SocketFile, nd_mode = owner_rw\<rparr> \<and>
     private_dir (butlast (bg_socket_path cfg)) (ho_tree (ma_host m')) \<and>
     (\<forall>q cfg' ph. ma_procs m' q = Some (cfg', ph) \<longrightarrow> butlast (bg_socket_path cfg') = butlast (bg_socket_path cfg) \<longrightarrow> q \<noteq> pid \<longrightarrow>
        phase_lock ph = None)"
proof -
  have "machine_inv m" using assms(1) by (simp add: idle_machine_def machine_inv_def)
  from daemons.later [OF assms(2) this] have inv: "machine_inv m'" .
  then have s: "proc_inv cfg pid (PhServing p) (ma_host m')" using assms(3) by (simp add: machine_inv_def)
  have "phase_lock ph = None" if "ma_procs m' q = Some (cfg', ph)" "butlast (bg_socket_path cfg') = butlast (bg_socket_path cfg)" "q \<noteq> pid"
    for q cfg' ph
  proof (rule ccontr)
    assume "phase_lock ph \<noteq> None"
    moreover have "proc_inv cfg' q ph (ma_host m')" using inv that(1) by (simp add: machine_inv_def)
    ultimately have "pid = q" using lock_excludes [OF s, of cfg' q ph] that(2) by (simp add: phase_lock_def)
    then show False using that(3) by simp
  qed
  then show ?thesis using s by (auto simp: proc_inv_def phase_lock_def phase_listens_def)
qed

text \<open>\<open>try_bind\<close> is such a run of one process.\<close>

lemma try_bind_steps:
  assumes "ma_procs m pid = None" "config_ok cfg" "try_bind B cfg pid (ma_host m) = (ph, h)"
  shows "steps (\<lambda>m l m'. machine_step B m l m' \<and> launch_ok l) m \<lparr>ma_host = h, ma_procs = (ma_procs m)(pid \<mapsto> (cfg, ph))\<rparr>"
proof -
  have "(next_phase B cfg pid ^^ k) (PhStart, ma_host m) = (ph, h) \<Longrightarrow>
      steps (\<lambda>m l m'. machine_step B m l m' \<and> launch_ok l) m \<lparr>ma_host = h, ma_procs = (ma_procs m)(pid \<mapsto> (cfg, ph))\<rparr>" for k ph h
  proof (induction k arbitrary: ph h)
    case 0
    have "machine_step B m (Launch pid cfg) (m\<lparr>ma_procs := (ma_procs m)(pid \<mapsto> (cfg, PhStart))\<rparr>)" using assms(1) by (rule launch)
    moreover have "m\<lparr>ma_procs := (ma_procs m)(pid \<mapsto> (cfg, PhStart))\<rparr> = \<lparr>ma_host = h, ma_procs = (ma_procs m)(pid \<mapsto> (cfg, ph))\<rparr>"
      using 0 by simp
    ultimately have "machine_step B m (Launch pid cfg) \<lparr>ma_host = h, ma_procs = (ma_procs m)(pid \<mapsto> (cfg, ph))\<rparr> \<and> launch_ok (Launch pid cfg)"
      using assms(2) by (simp add: launch_ok_def)
    then show ?case by (rule steps.more [OF steps.none])
  next
    case (Suc k)
    obtain ph1 h1 where 1: "(next_phase B cfg pid ^^ k) (PhStart, ma_host m) = (ph1, h1)" by fastforce
    then have "next_phase B cfg pid (ph1, h1) = (ph, h)" using Suc.prems by simp
    then have "machine_step B \<lparr>ma_host = h1, ma_procs = (ma_procs m)(pid \<mapsto> (cfg, ph1))\<rparr> (Advance pid)
        \<lparr>ma_host = h, ma_procs = (ma_procs m)(pid \<mapsto> (cfg, ph))\<rparr>"
      using advance [of "\<lparr>ma_host = h1, ma_procs = (ma_procs m)(pid \<mapsto> (cfg, ph1))\<rparr>" pid cfg ph1 B ph h] by simp
    then have "machine_step B \<lparr>ma_host = h1, ma_procs = (ma_procs m)(pid \<mapsto> (cfg, ph1))\<rparr> (Advance pid)
        \<lparr>ma_host = h, ma_procs = (ma_procs m)(pid \<mapsto> (cfg, ph))\<rparr> \<and> launch_ok (Advance pid)" by (simp add: launch_ok_def)
    then show ?case by (rule steps.more [OF Suc.IH [OF 1]])
  qed
  then show ?thesis using assms(3) by (auto simp: try_bind_def)
qed

text \<open>A daemon started where a stale socket was left behind, and a second one that finds the lock held.\<close>

definition wit_bind_env :: bind_env where
  "wit_bind_env = \<lparr>be_umask = 0x12, be_io = (\<lambda>_ _. None), be_canonical = Inr, be_current_dir = Inr [], be_xdg_runtime_dir = Some [''run''],
     be_user = None, be_blake3_hex = (\<lambda>_. ''0123'')\<rparr>"

definition wit_bind_config :: bind_config where
  "wit_bind_config = \<lparr>bg_store_dir = (True, [''s'']), bg_socket_path = [''run'', ''daemon.sock'']\<rparr>"

definition wit_tree :: file_tree where
  "wit_tree = [[] \<mapsto> \<lparr>nd_kind = Directory, nd_mode = 0x1ED\<rparr>, [''run''] \<mapsto> \<lparr>nd_kind = Directory, nd_mode = owner_all\<rparr>,
     [''run'', ''daemon.sock''] \<mapsto> \<lparr>nd_kind = SocketFile, nd_mode = 0x1ED\<rparr>]"

definition wit_host :: host where
  "wit_host = \<lparr>ho_tree = wit_tree, ho_locks = Map.empty, ho_listening = Map.empty\<rparr>"

definition bound_host :: host where
  "bound_host = \<lparr>ho_tree = wit_tree([''run'', ''daemon.lock''] \<mapsto> \<lparr>nd_kind = RegularFile, nd_mode = owner_rw\<rparr>,
      [''run'', ''daemon.sock''] \<mapsto> \<lparr>nd_kind = SocketFile, nd_mode = owner_rw\<rparr>),
     ho_locks = [[''run'', ''daemon.lock''] \<mapsto> 1], ho_listening = [[''run'', ''daemon.sock''] \<mapsto> 1]\<rparr>"

lemma try_bind_phases: "try_bind B cfg pid h = (let n = next_phase B cfg pid in n (n (n (n (n (n (PhStart, h)))))))"
  by (simp add: try_bind_def numeral_eq_Suc Let_def)

lemmas bind_defs = open_phase_def lock_phase_def lock_path_of_def lock_path_for_store_def runtime_dir_for_store_def stable_store_path_def
  open_lock_file_def ensure_runtime_dir_def check_not_world_writable_def metadata_def prepare_socket_path_def remove_file_def bind_listener_def
  tighten_socket_permissions_def assert_socket_permissions_def

lemma wit_bound: "try_bind wit_bind_env wit_bind_config 1 wit_host = (PhServing [''run'', ''daemon.lock''], bound_host)"
  by (simp add: try_bind_phases bind_defs wit_bind_env_def wit_bind_config_def wit_host_def wit_tree_def bound_host_def fun_upd_twist)

theorem serving_daemon_keeps_its_socket_witness:
  "\<exists>m. idle_machine m \<and> ho_tree (ma_host m) [''run'', ''daemon.sock''] = Some \<lparr>nd_kind = SocketFile, nd_mode = 0x1ED\<rparr> \<and>
     (\<exists>m'. steps (\<lambda>m l m'. machine_step wit_bind_env m l m' \<and> launch_ok l) m m' \<and>
        ma_procs m' 1 = Some (wit_bind_config, PhServing [''run'', ''daemon.lock'']) \<and>
        ho_listening (ma_host m') [''run'', ''daemon.sock''] = Some 1 \<and>
        ho_tree (ma_host m') [''run'', ''daemon.sock''] = Some \<lparr>nd_kind = SocketFile, nd_mode = owner_rw\<rparr>)"
proof -
  let ?m = "\<lparr>ma_host = wit_host, ma_procs = Map.empty\<rparr>"
  let ?m' = "\<lparr>ma_host = bound_host, ma_procs = [1 \<mapsto> (wit_bind_config, PhServing [''run'', ''daemon.lock''])]\<rparr>"
  have st: "steps (\<lambda>m l m'. machine_step wit_bind_env m l m' \<and> launch_ok l) ?m ?m'"
    using try_bind_steps [of ?m 1 wit_bind_config wit_bind_env] wit_bound by (simp add: config_ok_def wit_bind_config_def)
  have i: "idle_machine ?m" by (simp add: idle_machine_def)
  from serving_daemon_keeps_its_socket [OF i st, of 1 wit_bind_config "[''run'', ''daemon.lock'']"] st i show ?thesis
    by (intro exI [of _ ?m] conjI exI [of _ ?m']) (simp_all add: wit_bind_config_def wit_host_def wit_tree_def)
qed

text \<open>A second daemon with the same socket is refused and changes nothing.\<close>

lemma second_daemon_refused: "try_bind wit_bind_env wit_bind_config 2 bound_host = (PhEnded LockHeld, bound_host)"
  by (simp add: try_bind_phases bind_defs release_def wit_bind_env_def wit_bind_config_def wit_tree_def bound_host_def fun_upd_twist fun_eq_iff)

text \<open>
  The lock lies beside the socket, not with the store: a second daemon for the same store, with a socket in another directory, serves
  it as well.
\<close>

lemma two_daemons_one_store:
  "fst (try_bind wit_bind_env (wit_bind_config\<lparr>bg_socket_path := [''run'', ''other'', ''daemon.sock'']\<rparr>) 2 bound_host) =
     PhServing [''run'', ''other'', ''daemon.lock'']"
  by (simp add: try_bind_phases bind_defs create_runtime_dir_def make_dir_def wit_bind_env_def wit_bind_config_def wit_tree_def bound_host_def)

end
