(* ===== verification/Connection.thy ===== *)
theory Connection
  imports Daemon Chunker
begin

text \<open>
  One connection of the daemon and its client: \<open>handle_connection\<close>, \<open>dispatch_request\<close>, \<open>read_envelope\<close> and \<open>write_response\<close> of
  \<open>server.rs\<close>, and \<open>DaemonClient\<close> of \<open>client.rs\<close>. The server reads bytes and writes bytes; what it sees of the shared
  state and of the index worker while it handles one request is a \<open>view\<close>, a different one for each request.
\<close>

section \<open>Reading and writing\<close>

definition early_eof :: "string option \<Rightarrow> string" where
  "early_eof e = (case e of None \<Rightarrow> ''early eof'' | Some e \<Rightarrow> e)"

function drain_oversized :: "reader \<Rightarrow> nat \<Rightarrow> (daemon_error + unit) \<times> reader" where
  "drain_oversized r left =
     (if left = 0 then (Inr (), r)
      else let n = min left 8192
      in case read_exact n r of
           (Inl e, r) \<Rightarrow> (Inl (Malformed (''drain oversized: '' @ early_eof e)), r)
         | (Inr _, r) \<Rightarrow> drain_oversized r (left - n))"
  by pat_completeness auto
termination
  by (relation "measure snd") auto

declare drain_oversized.simps [simp del]

definition server_read_envelope :: "request envelope bincode \<Rightarrow> reader \<Rightarrow> (daemon_error + request envelope) \<times> reader" where
  "server_read_envelope B r = (case read_exact 4 r of
     (Inl None, r) \<Rightarrow> (Inl (Malformed ''truncated length prefix''), r)
   | (Inl (Some e), r) \<Rightarrow> (Inl (Malformed (''read length: '' @ e)), r)
   | (Inr len_buf, r) \<Rightarrow>
       let len = le_nat len_buf
       in if MAX_REQUEST_BYTES < len
          then case drain_oversized r len of
                 (Inl e, r) \<Rightarrow> (Inl e, r)
               | (Inr _, r) \<Rightarrow> (Inl (RequestTooLarge len MAX_REQUEST_BYTES), r)
          else case read_exact len r of
                 (Inl e, r) \<Rightarrow> (Inl (Malformed (''truncated frame body: '' @ early_eof e)), r)
               | (Inr payload, r) \<Rightarrow> (decode_payload B payload, r))"

text \<open>The write half of a socket: the bytes written and whether the next write fails.\<close>

record writer =
  wr_bytes :: bytes
  wr_fails :: "nat \<Rightarrow> string option"

definition write_response :: "response envelope bincode \<Rightarrow> nat \<Rightarrow> response \<Rightarrow> writer \<Rightarrow> (daemon_error + unit) \<times> writer" where
  "write_response B request_id payload w = (case encode_frame B \<lparr>ev_request_id = request_id, ev_payload = payload\<rparr> of
     Inl e \<Rightarrow> (Inl e, w)
   | Inr bytes \<Rightarrow> (case wr_fails w (length (wr_bytes w)) of
         Some e \<Rightarrow> (Inl (Internal (''write: '' @ e)), w)
       | None \<Rightarrow> (Inr (), w\<lparr>wr_bytes := wr_bytes w @ bytes\<rparr>)))"

section \<open>Requests\<close>

record 'i view =
  vw_starting :: "'i serving_state"
  vw_stale :: "'i serving_state"
  vw_hello :: "'i serving_state"
  vw_dispatch :: "'i serving_state"
  vw_indexing :: bool
  vw_progress :: "(index_phase \<times> nat \<times> nat option) list"
  vw_final :: "daemon_error + index_report"

fun write_progress :: "response envelope bincode \<Rightarrow> nat \<Rightarrow> (index_phase \<times> nat \<times> nat option) list \<Rightarrow> writer \<Rightarrow>
    (daemon_error + unit) \<times> writer" where
  "write_progress B request_id [] w = (Inr (), w)"
| "write_progress B request_id ((phase, d, n) # ps) w = (case write_response B request_id (RsIndexProgress phase d n) w of
     (Inl e, w) \<Rightarrow> (Inl e, w) | (Inr _, w) \<Rightarrow> write_progress B request_id ps w)"

definition raise_err :: "(daemon_error + unit) \<times> writer \<Rightarrow> (daemon_error, unit) res \<times> writer" where
  "raise_err = (\<lambda>(m, w). ((case m of Inl e \<Rightarrow> Inl (Raise e) | Inr _ \<Rightarrow> Inr ()), w))"

definition index_connection :: "response envelope bincode \<Rightarrow> 'i view \<Rightarrow> nat \<Rightarrow> writer \<Rightarrow> (daemon_error, unit) res \<times> writer" where
  "index_connection B vw request_id w =
     (if vw_indexing vw then (Inl (Raise IndexInProgress), w)
      else case write_progress B request_id (vw_progress vw) w of
        (Inl e, w) \<Rightarrow> (Inl (Raise e), w)
      | (Inr _, w) \<Rightarrow> (case vw_final vw of
            Inl e \<Rightarrow> (Inl (Raise e), w)
          | Inr report \<Rightarrow> raise_err (write_response B request_id (index_report_response report) w)))"

definition dispatch_daemon_request :: "response envelope bincode \<Rightarrow> 'i daemon_env \<Rightarrow> 'i view \<Rightarrow> request \<Rightarrow> nat \<Rightarrow> writer \<Rightarrow>
    (daemon_error, unit) res \<times> writer" where
  "dispatch_daemon_request B D vw req request_id w = (case req of
     RqIndex _ _ \<Rightarrow> index_connection B vw request_id w
   | _ \<Rightarrow> (case dispatch_read D (vw_dispatch vw) req of
         Inl e \<Rightarrow> (Inl e, w)
       | Inr resp \<Rightarrow> raise_err (write_response B request_id resp w)))"

section \<open>Connection\<close>

datatype conn_next = Continue bool | Closed "daemon_error option" | ShutdownRequested | Died string

text \<open>Answering and going on; a failed write ends the connection with its error.\<close>

definition reply :: "response envelope bincode \<Rightarrow> nat \<Rightarrow> response \<Rightarrow> conn_next \<Rightarrow> writer \<Rightarrow> conn_next \<times> writer" where
  "reply B request_id resp next w = (case write_response B request_id resp w of
     (Inl e, w) \<Rightarrow> (Closed (Some e), w) | (Inr _, w) \<Rightarrow> (next, w))"

definition read_failed :: "response envelope bincode \<Rightarrow> bool \<Rightarrow> daemon_error \<Rightarrow> writer \<Rightarrow> conn_next \<times> writer" where
  "read_failed B hello_done e w = (case e of
     Malformed detail \<Rightarrow> if contains ''truncated'' detail then (Closed None, w)
                        else reply B 0 (RsError e) (Continue hello_done) w
   | RequestTooLarge _ _ \<Rightarrow> reply B 0 (RsError e) (Continue hello_done) w
   | _ \<Rightarrow> reply B 0 (RsError e) (Closed None) w)"

definition hello_state :: "'i serving_state \<Rightarrow> string \<times> nat" where
  "hello_state serving = (case serving of
     Ready r \<Rightarrow> (eb_model_id (re_embedder r), st_live (stats (re_store r)))
   | Indexing f \<Rightarrow> (fz_model_id f, fz_chunks_live f)
   | Starting \<Rightarrow> ([], 0)
   | Stale _ \<Rightarrow> ([], 0))"

definition is_hello :: "request \<Rightarrow> bool" where
  "is_hello req \<longleftrightarrow> (case req of RqHello _ _ \<Rightarrow> True | _ \<Rightarrow> False)"

definition before_hello :: "response envelope bincode \<Rightarrow> 'i daemon_env \<Rightarrow> 'i view \<Rightarrow> request envelope \<Rightarrow> writer \<Rightarrow> conn_next \<times> writer" where
  "before_hello B D vw env w = (case vw_stale vw of
     Stale reason \<Rightarrow> reply B (ev_request_id env) (RsError (StoreStale reason)) (Continue False) w
   | _ \<Rightarrow>
     if vw_starting vw = Starting \<and> \<not> is_hello (ev_payload env)
     then reply B (ev_request_id env)
            (if ev_payload env = RqStatus then RsStatus (daemon_status_of (vw_dispatch vw) (dn_idle D) (dn_uptime D)) else RsError DStarting)
            (Continue False) w
     else let (model_id, chunks) = hello_state (vw_hello vw)
     in case handle_hello env model_id chunks of
          Inr (_, resp) \<Rightarrow> reply B (ev_request_id env) resp (Continue True) w
        | Inl resp \<Rightarrow> reply B (ev_request_id env) resp (Closed None) w)"

definition after_hello :: "response envelope bincode \<Rightarrow> 'i daemon_env \<Rightarrow> 'i view \<Rightarrow> request envelope \<Rightarrow> writer \<Rightarrow> conn_next \<times> writer" where
  "after_hello B D vw env w =
     (let next = (if ev_payload env = RqShutdown then ShutdownRequested else Continue True)
      in case dispatch_daemon_request B D vw (ev_payload env) (ev_request_id env) w of
           (Inr _, w) \<Rightarrow> (next, w)
         | (Inl (Raise e), w) \<Rightarrow> reply B (ev_request_id env) (RsError e) next w
         | (Inl (Panic p), w) \<Rightarrow> (Died p, w))"

fun handle_connection :: "request envelope bincode \<Rightarrow> response envelope bincode \<Rightarrow> 'i daemon_env \<Rightarrow> 'i view list \<Rightarrow> bool \<Rightarrow>
    reader \<Rightarrow> writer \<Rightarrow> conn_next \<times> writer" where
  "handle_connection Bq Br D [] hello_done r w = (Continue hello_done, w)"
| "handle_connection Bq Br D (vw # vws) hello_done r w = (case server_read_envelope Bq r of (m, r) \<Rightarrow>
     case (case m of
         Inl e \<Rightarrow> read_failed Br hello_done e w
       | Inr env \<Rightarrow> if hello_done then after_hello Br D vw env w else before_hello Br D vw env w) of
       (Continue hello_done, w) \<Rightarrow> handle_connection Bq Br D vws hello_done r w
     | (next, w) \<Rightarrow> (next, w))"

end
