(* ===== verification/Connection_Props.thy ===== *)
theory Connection_Props
  imports Connection
begin

text \<open>
  A connection answers its requests one by one, in order and under their own ids, and nothing but errors, the status and the handshake
  comes before the handshake has succeeded. The client's stream of progress reports ends with one terminal response.
\<close>

section \<open>Reading frames\<close>

definition error_class :: "daemon_error \<Rightarrow> daemon_error" where
  "error_class e = (case e of Malformed _ \<Rightarrow> Malformed [] | _ \<Rightarrow> e)"

definition outcome_class :: "(daemon_error + 'a) \<times> reader \<Rightarrow> (daemon_error + 'a) \<times> reader" where
  "outcome_class = (\<lambda>(m, r). (map_sum error_class id m, r))"

lemma drain_like_skip: "outcome_class (drain_oversized r n) = outcome_class (skip_oversized_body r n)"
proof (induction r n rule: drain_oversized.induct)
  case (1 r remaining)
  show ?case
  proof (cases "remaining = 0")
    case False
    obtain m r' where e: "read_exact (min remaining 8192) r = (m, r')" by fastforce
    show ?thesis
      using 1 [OF False refl e [symmetric]] False e
      by (cases m) (simp_all add: drain_oversized.simps [of r] skip_oversized_body.simps [of r] outcome_class_def error_class_def)
  qed (simp add: drain_oversized.simps skip_oversized_body.simps)
qed

lemma outcome_class_cases:
  assumes "outcome_class a = outcome_class b"
  obtains v r where "a = (Inr v, r)" "b = (Inr v, r)"
  | e e' r where "a = (Inl e, r)" "b = (Inl e', r)" "error_class e = error_class e'"
  using assms by (cases a; cases b; cases "fst a"; cases "fst b") (auto simp: outcome_class_def)

text \<open>The connection's own reader differs from the codec's only in the wording of a malformed frame.\<close>

lemma server_reads_like_codec: "outcome_class (server_read_envelope B r) = outcome_class (decode_one_recovering B r)"
proof -
  obtain m r' where e: "read_exact 4 r = (m, r')" by fastforce
  show ?thesis
  proof (cases m)
    case (Inl x)
    then show ?thesis by (cases x) (simp_all add: server_read_envelope_def decode_one_recovering_def e)
  next
    case (Inr len_buf)
    show ?thesis
    proof (cases "MAX_REQUEST_BYTES < le_nat len_buf")
      case True
      show ?thesis using drain_like_skip [of r' "le_nat len_buf"]
        by (rule outcome_class_cases)
          (simp_all add: server_read_envelope_def decode_one_recovering_def e Inr True outcome_class_def)
    next
      case False
      obtain p r'' where p: "read_exact (le_nat len_buf) r' = (p, r'')" by fastforce
      show ?thesis using False
        by (simp add: server_read_envelope_def decode_one_recovering_def e Inr read_body_def p outcome_class_def error_class_def
            split: sum.splits option.splits)
    qed
  qed
qed

lemma server_reads_frame:
  assumes "bincode_ok B" "frame_fits B f" "rd_bytes r = wire_of B f @ ys"
  shows "server_read_envelope B r = (frame_read f, r\<lparr>rd_bytes := ys\<rparr>)"
proof -
  have "outcome_class (server_read_envelope B r) = outcome_class (frame_read f, r\<lparr>rd_bytes := ys\<rparr>)"
    by (simp add: server_reads_like_codec decode_frame [OF assms])
  then show ?thesis
    by (rule outcome_class_cases)
      (auto simp: frame_read_def error_class_def split: frame_sent.splits daemon_error.splits)
qed

interpretation server: frame_reader "server_read_envelope B" "\<lambda>f. bincode_ok B \<and> frame_fits B f" "wire_of B" frame_read for B
  by unfold_locales (rule server_reads_frame; simp)

lemma server_reads_end: "server_read_envelope B \<lparr>rd_bytes = [], rd_error = None\<rparr> =
    (Inl (Malformed ''truncated length prefix''), \<lparr>rd_bytes = [], rd_error = None\<rparr>)"
  by (simp add: server_read_envelope_def read_exact_def)

section \<open>Answers\<close>

definition terminal :: "response envelope \<Rightarrow> bool" where
  "terminal env \<longleftrightarrow> (case ev_payload env of RsIndexProgress _ _ _ \<Rightarrow> False | _ \<Rightarrow> True)"

definition is_greeting :: "response envelope \<Rightarrow> bool" where
  "is_greeting env \<longleftrightarrow> (case ev_payload env of RsHello _ _ _ \<Rightarrow> True | _ \<Rightarrow> False)"

text \<open>What a client that has not been greeted may be sent.\<close>

definition open_answer :: "response envelope \<Rightarrow> bool" where
  "open_answer env \<longleftrightarrow> (case ev_payload env of RsHello _ _ _ \<Rightarrow> True | RsStatus _ \<Rightarrow> True | RsError _ \<Rightarrow> True | _ \<Rightarrow> False)"

definition hello_first :: "bool \<Rightarrow> response envelope list \<Rightarrow> bool" where
  "hello_first greeted envs \<longleftrightarrow> greeted \<or> list_all open_answer (takeWhile (\<lambda>e. \<not> is_greeting e) envs)"

definition frame_id :: "request envelope frame_sent \<Rightarrow> nat" where
  "frame_id f = (case f of Sent env \<Rightarrow> ev_request_id env | Oversized _ \<Rightarrow> 0)"

text \<open>The frames written between two states of the writer.\<close>

definition wrote :: "response envelope bincode \<Rightarrow> writer \<Rightarrow> response envelope list \<Rightarrow> writer \<Rightarrow> bool" where
  "wrote B w envs w' \<longleftrightarrow> wr_bytes w' = wr_bytes w @ concat (map (\<lambda>e. wire_of B (Sent e)) envs) \<and>
     list_all (\<lambda>e. frame_fits B (Sent e)) envs \<and> wr_fails w' = wr_fails w"

lemma wrote_nil [simp]: "wrote B w [] w"
  by (simp add: wrote_def)

lemma wrote_append: "wrote B w xs w1 \<Longrightarrow> wrote B w1 ys w2 \<Longrightarrow> wrote B w (xs @ ys) w2"
  by (auto simp: wrote_def)

lemma write_response_wrote:
  assumes "write_response B request_id payload w = (m, w')"
  obtains "m = Inr ()" "wrote B w [\<lparr>ev_request_id = request_id, ev_payload = payload\<rparr>] w'"
  | e where "m = Inl e" "w' = w"
  using assms
  by (auto simp: write_response_def wrote_def wire_of_def frame_fits_def encode_frame_def split: sum.splits option.splits if_splits)

text \<open>One request's answer: progress reports and then one terminal response, all with its id.\<close>

definition answers :: "nat \<Rightarrow> response envelope list \<Rightarrow> bool" where
  "answers request_id envs \<longleftrightarrow> (\<exists>ps t. envs = ps @ [t] \<and> list_all (\<lambda>e. \<not> terminal e) ps \<and> terminal t \<and>
     list_all (\<lambda>e. ev_request_id e = request_id) envs)"

lemma answers_one: "terminal \<lparr>ev_request_id = i, ev_payload = p\<rparr> \<Longrightarrow> answers i [\<lparr>ev_request_id = i, ev_payload = p\<rparr>]"
  by (auto simp: answers_def)

lemma answers_ids: "answers i envs \<Longrightarrow> map ev_request_id (filter terminal envs) = [i]"
  by (auto simp: answers_def filter_empty_conv list_all_iff)

definition ended :: "conn_next \<Rightarrow> bool" where
  "ended next \<longleftrightarrow> (case next of Closed (Some _) \<Rightarrow> True | Died _ \<Rightarrow> True | _ \<Rightarrow> False)"

lemma reply_answers:
  assumes "reply B i resp next w = (next', w')" "\<not> ended next'" "terminal \<lparr>ev_request_id = i, ev_payload = resp\<rparr>"
  shows "next' = next \<and> wrote B w [\<lparr>ev_request_id = i, ev_payload = resp\<rparr>] w'"
proof -
  obtain m w1 where m: "write_response B i resp w = (m, w1)" by fastforce
  from m show ?thesis
    by (rule write_response_wrote) (use assms m in \<open>auto simp: reply_def ended_def\<close>)
qed

lemma write_progress_wrote:
  "write_progress B i ps w = (m, w') \<Longrightarrow>
     \<exists>envs. wrote B w envs w' \<and> list_all (\<lambda>e. \<not> terminal e \<and> ev_request_id e = i) envs"
proof (induction ps arbitrary: w)
  case Nil
  then show ?case by (intro exI [of _ "[]"]) simp
next
  case (Cons p ps)
  obtain phase d n where p: "p = (phase, d, n)" by (cases p) auto
  let ?e = "\<lparr>ev_request_id = i, ev_payload = RsIndexProgress phase d n\<rparr>"
  obtain m1 w1 where m1: "write_response B i (RsIndexProgress phase d n) w = (m1, w1)" by fastforce
  from m1 show ?case
  proof (cases rule: write_response_wrote)
    case 1
    with Cons.prems m1 have "write_progress B i ps w1 = (m, w')" by (simp add: p)
    from Cons.IH [OF this] obtain envs where "wrote B w1 envs w'" "list_all (\<lambda>e. \<not> terminal e \<and> ev_request_id e = i) envs" by blast
    with wrote_append [OF 1(2) this(1)] show ?thesis by (intro exI [of _ "?e # envs"]) (simp add: terminal_def)
  next
    case 2
    with Cons.prems m1 show ?thesis by (intro exI [of _ "[]"]) (simp add: p)
  qed
qed

lemma resident_get_symbol_answer: "resident_get_symbol F T r path symbol = Inr resp \<Longrightarrow> \<exists>rec b. resp = symbol_response rec b"
  by (cases "symbol_matches (re_store r) path symbol" rule: remdups_adj.cases)
    (simp_all add: resident_get_symbol_def resolve_symbol_def bind_res_Inr_conv case_prod_beta, blast)

lemma frozen_get_symbol_answer: "frozen_get_symbol F order f path symbol = Inr resp \<Longrightarrow> \<exists>rec b. resp = symbol_response rec b"
  by (auto simp: frozen_get_symbol_def Let_def bind_res_Inr_conv split: list.splits prod.splits)

lemma serve_read_Inr:
  assumes "serve_read serving on_ready on_frozen = Inr resp"
  obtains r where "on_ready r = Inr resp" | f where "on_frozen f = Inr resp"
  using assms by (auto simp: serve_read_def split: serving_state.splits sum.splits fault.splits)

lemma dispatch_read_terminal:
  assumes "dispatch_read D serving req = Inr resp"
  shows "terminal \<lparr>ev_request_id = i, ev_payload = resp\<rparr>"
proof -
  have "(\<exists>s. resp = RsSearch s) \<or> (\<exists>s. resp = RsStatus s) \<or> (\<exists>rec b. resp = symbol_response rec b)"
    using assms
    by (cases req) (auto simp: dispatch_read_def bind_res_Inr_conv
        dest: resident_get_symbol_answer frozen_get_symbol_answer elim!: serve_read_Inr)
  then show ?thesis by (auto simp: terminal_def symbol_response_def)
qed

lemma dispatch_daemon_request_wrote:
  assumes "dispatch_daemon_request B D vw req i w = (m, w')"
  obtains envs where "m = Inr ()" "wrote B w envs w'" "answers i envs"
  | envs e where "m = Inl e" "wrote B w envs w'" "list_all (\<lambda>e. \<not> terminal e \<and> ev_request_id e = i) envs"
proof (cases "\<exists>mode repo. req = RqIndex mode repo \<and> \<not> vw_indexing vw")
  case True
  obtain m1 w1 where m1: "write_progress B i (vw_progress vw) w = (m1, w1)" by fastforce
  from write_progress_wrote [OF m1] obtain ps
    where ps: "wrote B w ps w1" "list_all (\<lambda>e. \<not> terminal e \<and> ev_request_id e = i) ps" by blast
  show ?thesis
  proof (cases "\<exists>report. m1 = Inr () \<and> vw_final vw = Inr report")
    case False
    then have "(\<exists>e. m = Inl e) \<and> w' = w1"
      using True assms m1 by (auto simp: dispatch_daemon_request_def index_connection_def split: sum.splits)
    then show ?thesis using that(2) ps by blast
  next
    case fin: True
    then obtain report where rep: "vw_final vw = Inr report" "m1 = Inr ()" by blast
    obtain m2 w2 where m2: "write_response B i (index_report_response report) w1 = (m2, w2)" by fastforce
    have mw: "m = fst (raise_err (m2, w2))" "w' = w2"
      using True assms m1 m2 rep by (auto simp: dispatch_daemon_request_def index_connection_def raise_err_def)
    let ?t = "\<lparr>ev_request_id = i, ev_payload = index_report_response report\<rparr>"
    from m2 show ?thesis
    proof (cases rule: write_response_wrote)
      case 1
      have "answers i (ps @ [?t])" using ps(2)
        by (auto simp: answers_def list_all_iff terminal_def index_report_response_def)
      then show ?thesis using that(1) wrote_append [OF ps(1) 1(2)] mw 1(1) by (simp add: raise_err_def)
    next
      case 2
      then show ?thesis using that(2) ps mw by (simp add: raise_err_def)
    qed
  qed
next
  case False
  then consider e where "m = Inl e" "w' = w"
    | resp where "dispatch_read D (vw_dispatch vw) req = Inr resp" "(m, w') = raise_err (write_response B i resp w)"
    using assms by (cases req) (auto simp: dispatch_daemon_request_def index_connection_def split: sum.splits prod.splits)
  then show ?thesis
  proof cases
    case 1
    then show ?thesis using that(2) [of _ "[]"] by simp
  next
    case (2 resp)
    obtain m1 w1 where m1: "write_response B i resp w = (m1, w1)" by fastforce
    from m1 show ?thesis
    proof (cases rule: write_response_wrote)
      case 1
      then show ?thesis using that(1) answers_one [OF dispatch_read_terminal [OF 2(1)]] 2(2) m1
        by (simp add: raise_err_def)
    next
      case w: 2
      then show ?thesis using that(2) [of _ "[]"] 2(2) m1 by (simp add: raise_err_def)
    qed
  qed
qed

lemma after_hello_answers:
  assumes "after_hello B D vw env w = (next, w')" "\<not> ended next"
  shows "\<exists>envs. wrote B w envs w' \<and> answers (ev_request_id env) envs \<and> (next = Continue True \<or> next = ShutdownRequested)"
proof -
  let ?i = "ev_request_id env"
  obtain m w1 where m: "dispatch_daemon_request B D vw (ev_payload env) ?i w = (m, w1)" by fastforce
  from m show ?thesis
  proof (cases rule: dispatch_daemon_request_wrote)
    case (1 envs)
    then show ?thesis using assms m by (auto simp: after_hello_def Let_def split: if_splits)
  next
    case (2 envs x)
    obtain e where x: "x = Raise e" using assms m 2(1) by (cases x) (auto simp: after_hello_def ended_def)
    let ?t = "\<lparr>ev_request_id = ?i, ev_payload = RsError e\<rparr>"
    have "reply B ?i (RsError e) (if ev_payload env = RqShutdown then ShutdownRequested else Continue True) w1 = (next, w')"
      using assms(1) m 2(1) x by (simp add: after_hello_def Let_def)
    from reply_answers [OF this assms(2)] have r: "next = (if ev_payload env = RqShutdown then ShutdownRequested else Continue True)"
      "wrote B w1 [?t] w'" by (simp_all add: terminal_def)
    have "answers ?i (envs @ [?t])" using 2(3) by (auto simp: answers_def list_all_iff terminal_def)
    then show ?thesis using wrote_append [OF 2(2) r(2)] r(1) by auto
  qed
qed

definition early_reply :: "response \<Rightarrow> conn_next \<Rightarrow> bool" where
  "early_reply resp next \<longleftrightarrow> (case resp of RsHello _ _ _ \<Rightarrow> next = Continue True | RsStatus _ \<Rightarrow> next = Continue False
     | RsError _ \<Rightarrow> next = Continue False \<or> next = Closed None | _ \<Rightarrow> False)"

lemma before_hello_reply:
  obtains resp nx where "before_hello B D vw env w = reply B (ev_request_id env) resp nx w" "early_reply resp nx"
proof (cases "\<exists>reason. vw_stale vw = Stale reason")
  case True
  then show ?thesis using that [of "RsError (StoreStale _)" "Continue False"] by (auto simp: before_hello_def early_reply_def)
next
  case False
  show ?thesis
  proof (cases "vw_starting vw = Starting \<and> \<not> is_hello (ev_payload env)")
    case True
    then show ?thesis using False that by (cases "vw_stale vw") (simp_all add: before_hello_def early_reply_def split: if_splits)
  next
    case no: False
    obtain model_id chunks where h: "hello_state (vw_hello vw) = (model_id, chunks)" by fastforce
    have b: "before_hello B D vw env w = (case handle_hello env model_id chunks of
          Inr (_, resp) \<Rightarrow> reply B (ev_request_id env) resp (Continue True) w
        | Inl resp \<Rightarrow> reply B (ev_request_id env) resp (Closed None) w)"
      using False no by (cases "vw_stale vw") (auto simp: before_hello_def h)
    show ?thesis
    proof (cases "handle_hello env model_id chunks")
      case (Inl resp)
      then have "early_reply resp (Closed None)" by (auto simp: handle_hello_def early_reply_def split: request.splits if_splits)
      then show ?thesis using that b Inl by simp
    next
      case (Inr x)
      then have "early_reply (snd x) (Continue True)" by (auto simp: handle_hello_def early_reply_def split: request.splits if_splits)
      then show ?thesis using that b Inr by (simp add: case_prod_beta)
    qed
  qed
qed

lemma before_hello_answers:
  assumes "before_hello B D vw env w = (next, w')" "\<not> ended next"
  shows "\<exists>t. wrote B w [t] w' \<and> answers (ev_request_id env) [t] \<and> open_answer t \<and>
     next \<in> {Continue False, Continue True, Closed None} \<and> (next = Continue True \<longrightarrow> is_greeting t)"
proof -
  obtain resp nx where r: "before_hello B D vw env w = reply B (ev_request_id env) resp nx w" "early_reply resp nx"
    by (rule before_hello_reply)
  let ?t = "\<lparr>ev_request_id = ev_request_id env, ev_payload = resp\<rparr>"
  have t: "terminal ?t" "open_answer ?t" "nx \<in> {Continue False, Continue True, Closed None}" "nx = Continue True \<longrightarrow> is_greeting ?t"
    using r(2) by (auto simp: early_reply_def terminal_def open_answer_def is_greeting_def split: response.splits)
  with reply_answers [OF _ assms(2) t(1), of B nx w w'] assms(1) r(1) answers_one [OF t(1)] show ?thesis by auto
qed

section \<open>A whole connection\<close>

text \<open>The answers to a prefix of the frames: in order, each under its frame's id, greeted before served.\<close>

definition session :: "bool \<Rightarrow> request envelope frame_sent list \<Rightarrow> nat \<Rightarrow> response envelope list \<Rightarrow> bool" where
  "session greeted fs n envs \<longleftrightarrow> n \<le> length fs \<and> map ev_request_id (filter terminal envs) = map frame_id (take n fs) \<and>
     hello_first greeted envs"

lemma session_nil: "session greeted fs 0 []"
  by (simp add: session_def hello_first_def)

lemma session_step:
  assumes "answers (frame_id f) xs" "session greeted' fs n ys"
    "greeted \<or> list_all open_answer xs \<and> (greeted' \<longrightarrow> list_ex is_greeting xs)"
  shows "session greeted (f # fs) (Suc n) (xs @ ys)"
proof -
  have "hello_first greeted (xs @ ys)"
  proof (cases "\<exists>x\<in>set xs. is_greeting x")
    case True
    then obtain x where "x \<in> set xs" "is_greeting x" by blast
    then have "takeWhile (\<lambda>e. \<not> is_greeting e) (xs @ ys) = takeWhile (\<lambda>e. \<not> is_greeting e) xs"
      by (intro takeWhile_append1) auto
    then show ?thesis using assms(3) by (auto simp: hello_first_def list_all_iff dest!: set_takeWhileD)
  next
    case False
    then have "takeWhile (\<lambda>e. \<not> is_greeting e) (xs @ ys) = xs @ takeWhile (\<lambda>e. \<not> is_greeting e) ys"
      by (intro takeWhile_append2) auto
    then show ?thesis using assms(2,3) False by (auto simp: hello_first_def session_def list_ex_iff)
  qed
  then show ?thesis using assms(1,2) by (simp add: session_def answers_ids)
qed

lemma frame_handled:
  assumes "(case frame_read f of Inl e \<Rightarrow> read_failed B greeted e w
     | Inr env \<Rightarrow> if greeted then after_hello B D vw env w else before_hello B D vw env w) = (next, w')" "\<not> ended next"
  shows "\<exists>xs. wrote B w xs w' \<and> answers (frame_id f) xs \<and>
     (greeted \<or> list_all open_answer xs \<and> (next = Continue True \<longrightarrow> list_ex is_greeting xs))"
proof (cases f)
  case (Oversized body)
  let ?e = "RequestTooLarge (length body) MAX_REQUEST_BYTES"
  let ?t = "\<lparr>ev_request_id = 0, ev_payload = RsError ?e\<rparr>"
  have t: "terminal ?t" "open_answer ?t" by (simp_all add: terminal_def open_answer_def)
  have "reply B 0 (RsError ?e) (Continue greeted) w = (next, w')"
    using assms(1) by (simp add: Oversized frame_read_def read_failed_def)
  from reply_answers [OF this assms(2) t(1)] show ?thesis
    using answers_one [OF t(1)] t(2) by (intro exI [of _ "[?t]"]) (auto simp: frame_id_def Oversized)
next
  case (Sent env)
  show ?thesis
  proof (cases greeted)
    case True
    then show ?thesis using after_hello_answers [of B D vw env w] assms by (auto simp: Sent frame_read_def frame_id_def)
  next
    case False
    then have "before_hello B D vw env w = (next, w')" using assms(1) by (simp add: Sent frame_read_def)
    from before_hello_answers [OF this assms(2)] show ?thesis by (fastforce simp: Sent frame_id_def)
  qed
qed

lemma truncated_prefix: "contains ''truncated'' ''truncated length prefix''"
  by code_simp

lemma connection_answers:
  assumes "bincode_ok Bq" "list_all (frame_fits Bq) fs"
    "handle_connection Bq Br D vws greeted \<lparr>rd_bytes = concat (map (wire_of Bq) fs), rd_error = None\<rparr> w = (next, w')" "\<not> ended next"
  shows "\<exists>envs n. wrote Br w envs w' \<and> session greeted fs n envs \<and> (\<forall>h. next = Continue h \<longrightarrow> n = length vws)"
  using assms(2,3)
proof (induction vws arbitrary: fs greeted w)
  case Nil
  then show ?case by (auto intro!: exI [of _ "[]"] exI [of _ 0] simp: session_nil)
next
  case (Cons vw vws)
  show ?case
  proof (cases fs)
    case Nil
    then have "next = Closed None" "w' = w"
      using Cons.prems(2) by (simp_all add: server_reads_end read_failed_def truncated_prefix)
    then show ?thesis by (auto intro!: exI [of _ "[]"] exI [of _ 0] simp: session_nil)
  next
    case fs: (Cons f gs)
    let ?r = "\<lambda>fs. \<lparr>rd_bytes = concat (map (wire_of Bq) fs), rd_error = None\<rparr>"
    have rd: "server_read_envelope Bq (?r fs) = (frame_read f, ?r gs)"
      using server.reads_at [of Bq f "concat (map (wire_of Bq) gs)" None] assms(1) Cons.prems(1) by (simp add: fs)
    obtain nx w1 where one: "(case frame_read f of Inl e \<Rightarrow> read_failed Br greeted e w
        | Inr env \<Rightarrow> if greeted then after_hello Br D vw env w else before_hello Br D vw env w) = (nx, w1)" by fastforce
    show ?thesis
    proof (cases "\<exists>h. nx = Continue h")
      case True
      then obtain h where h: "nx = Continue h" by blast
      then have go: "handle_connection Bq Br D vws h (?r gs) w1 = (next, w')" using Cons.prems(2) rd one by simp
      from Cons.IH [OF _ this] Cons.prems(1) fs obtain ys n
        where ys: "wrote Br w1 ys w'" "session h gs n ys" "\<forall>h. next = Continue h \<longrightarrow> n = length vws" by auto
      from frame_handled [OF one] h obtain xs where "wrote Br w xs w1" "answers (frame_id f) xs"
        "greeted \<or> list_all open_answer xs \<and> (h \<longrightarrow> list_ex is_greeting xs)" by (auto simp: ended_def)
      with wrote_append [OF this(1) ys(1)] session_step [OF this(2) ys(2) this(3)] ys(3) show ?thesis
        unfolding fs by (intro exI [of _ "xs @ ys"] exI [of _ "Suc n"]) simp
    next
      case False
      then have nx: "next = nx" "w' = w1" using Cons.prems(2) rd one by (auto split: conn_next.splits)
      from frame_handled [OF one] assms(4) nx obtain xs where "wrote Br w xs w1" "answers (frame_id f) xs"
        "greeted \<or> list_all open_answer xs \<and> (False \<longrightarrow> list_ex is_greeting xs)" by auto
      with session_step [OF this(2) session_nil this(3), of gs] False nx show ?thesis
        unfolding fs by (intro exI [of _ xs] exI [of _ "Suc 0"]) simp
    qed
  qed
qed

text \<open>
  C37: a connection answers in order and greets first. Whatever sequence of requests and oversized frames a client
  sends before closing, and whatever the daemon's state is at each of them, the bytes the connection writes decode to
  responses whose terminal ones carry the ids of the requests read, in order (0 for an oversized frame); progress reports
  come only between them; and before the handshake has succeeded nothing but errors and the status is sent. This holds for every
  connection that is not cut by a failed write or a panic.
\<close>

theorem connection_answers_in_order:
  assumes "bincode_ok Bq" "bincode_ok Br" "list_all (frame_fits Bq) fs" "\<not> ended next"
    "handle_connection Bq Br D vws False \<lparr>rd_bytes = concat (map (wire_of Bq) fs), rd_error = None\<rparr>
       \<lparr>wr_bytes = [], wr_fails = fails\<rparr> = (next, w)"
  shows "\<exists>envs n. decode_many Br (length envs) \<lparr>rd_bytes = wr_bytes w, rd_error = e\<rparr> = (map Inr envs, \<lparr>rd_bytes = [], rd_error = e\<rparr>) \<and>
     n \<le> length fs \<and> map ev_request_id (filter terminal envs) = map frame_id (take n fs) \<and>
     list_all open_answer (takeWhile (\<lambda>e. \<not> is_greeting e) envs) \<and> (\<forall>h. next = Continue h \<longrightarrow> n = length vws)"
proof -
  from connection_answers [OF assms(1,3,5,4)] obtain envs n
    where envs: "wrote Br \<lparr>wr_bytes = [], wr_fails = fails\<rparr> envs w" "session False fs n envs" "\<forall>h. next = Continue h \<longrightarrow> n = length vws"
    by blast
  have fit: "list_all (\<lambda>e. frame_fits Br (Sent e)) envs" "wr_bytes w = concat (map (\<lambda>e. wire_of Br (Sent e)) envs)"
    using envs(1) by (auto simp: wrote_def)
  show ?thesis
    using envs(2,3) frames_decoded [OF assms(2) fit(1), of "[]" e] fit(2)
    by (intro exI [of _ envs] exI [of _ n]) (simp add: session_def hello_first_def)
qed

text \<open>A client that greets and leaves; the serializers know just the two messages of that exchange.\<close>

definition one_message :: "'a \<Rightarrow> 'a bincode" where
  "one_message v = \<lparr>bc_serialize = (\<lambda>u. if u = v then Inr ''x'' else Inl ''unsupported''),
     bc_deserialize = (\<lambda>p. if p = ''x'' then Inr v else Inl ''unsupported'')\<rparr>"

lemma one_message_ok: "bincode_ok (one_message v)" "frame_fits (one_message v) (Sent v)"
  "encode_frame (one_message v) v = Inr (le_bytes 4 1 @ ''x'')"
  by (auto simp: bincode_ok_def one_message_def frame_fits_def MAX_REQUEST_BYTES_def encode_frame_def)

definition wit_hello :: "request envelope" where
  "wit_hello = \<lparr>ev_request_id = 1, ev_payload = RqHello 1 ''daemon-client''\<rparr>"

definition wit_welcome :: "response envelope" where
  "wit_welcome = \<lparr>ev_request_id = 1, ev_payload = RsHello 1 [] 0\<rparr>"

definition wit_view :: "'i view" where
  "wit_view = \<lparr>vw_starting = Starting, vw_stale = Starting, vw_hello = Starting, vw_dispatch = Starting, vw_indexing = False,
     vw_progress = [], vw_final = Inl IndexInProgress\<rparr>"

lemma wit_greeted:
  "handle_connection (one_message wit_hello) (one_message wit_welcome) D [wit_view, wit_view] False
     \<lparr>rd_bytes = concat (map (wire_of (one_message wit_hello)) [Sent wit_hello]), rd_error = None\<rparr>
     \<lparr>wr_bytes = [], wr_fails = \<lambda>_. None\<rparr> = (Closed None, \<lparr>wr_bytes = le_bytes 4 1 @ ''x'', wr_fails = \<lambda>_. None\<rparr>)"
proof -
  have "server_read_envelope (one_message wit_hello) \<lparr>rd_bytes = wire_of (one_message wit_hello) (Sent wit_hello), rd_error = None\<rparr> =
      (Inr wit_hello, \<lparr>rd_bytes = [], rd_error = None\<rparr>)"
    using server.reads_last [of "one_message wit_hello" "Sent wit_hello" None] by (simp add: frame_read_def one_message_ok)
  moreover have "handle_hello wit_hello [] 0 = Inr (''daemon-client'', RsHello 1 [] 0)"
    by (simp add: handle_hello_def wit_hello_def PROTOCOL_VERSION_def)
  moreover have "write_response (one_message wit_welcome) 1 (RsHello 1 [] 0) \<lparr>wr_bytes = [], wr_fails = \<lambda>_. None\<rparr> =
      (Inr (), \<lparr>wr_bytes = le_bytes 4 1 @ ''x'', wr_fails = \<lambda>_. None\<rparr>)"
    using one_message_ok(3) [of wit_welcome] by (simp add: write_response_def wit_welcome_def)
  ultimately show ?thesis
    by (simp add: before_hello_def wit_view_def is_hello_def wit_hello_def hello_state_def reply_def server_reads_end read_failed_def
        truncated_prefix)
qed

theorem connection_answers_in_order_witness:
  "\<exists>envs n. decode_many (one_message wit_welcome) (length envs) \<lparr>rd_bytes = le_bytes 4 1 @ ''x'', rd_error = None\<rparr> =
     (map Inr envs, \<lparr>rd_bytes = [], rd_error = None\<rparr>) \<and>
     n \<le> 1 \<and> map ev_request_id (filter terminal envs) = map frame_id (take n [Sent wit_hello]) \<and>
     list_all open_answer (takeWhile (\<lambda>e. \<not> is_greeting e) envs)"
proof -
  have "list_all (frame_fits (one_message wit_hello)) [Sent wit_hello]" "\<not> ended (Closed None)"
    by (simp_all add: one_message_ok(2) ended_def)
  from connection_answers_in_order [OF one_message_ok(1) one_message_ok(1) this wit_greeted, of None] show ?thesis
    by (simp only: writer.simps list.size One_nat_def add_0) blast
qed

section \<open>Client\<close>

end
