(* ===== verification/Client.thy ===== *)
theory Client
  imports Connection_Props
begin

text \<open>
  The client of the daemon (\<open>crates/daemon/src/client.rs\<close>): a request and its answer, the stream of responses of an index request,
  the handshake, and connecting to a daemon that may have to be started first. A socket is the bytes to come and
  the bytes written. C38 puts client and connection together.
\<close>

section \<open>Requests\<close>

record daemon_client =
  cl_in :: reader
  cl_out :: writer
  cl_next_id :: nat

definition client_read_envelope :: "response envelope bincode \<Rightarrow> reader \<Rightarrow> (daemon_error + response envelope) \<times> reader" where
  "client_read_envelope B r = (case read_exact 4 r of
     (Inl e, r) \<Rightarrow> (Inl (Malformed (''read length: '' @ early_eof e)), r)
   | (Inr len_buf, r) \<Rightarrow>
       let len = le_nat len_buf
       in if MAX_REQUEST_BYTES < len then (Inl (RequestTooLarge len MAX_REQUEST_BYTES), r)
          else case read_exact len r of
                 (Inl e, r) \<Rightarrow> (Inl (Malformed (''read body: '' @ early_eof e)), r)
               | (Inr payload, r) \<Rightarrow> (decode_payload B payload, r))"

text \<open>The first half of a request: the id it gets, and its frame written.\<close>

definition client_send :: "request envelope bincode \<Rightarrow> request \<Rightarrow> daemon_client \<Rightarrow> (daemon_error + nat) \<times> daemon_client" where
  "client_send B req c =
     (let rid = cl_next_id c; c = c\<lparr>cl_next_id := rid + 1\<rparr>
      in case encode_frame B \<lparr>ev_request_id = rid, ev_payload = req\<rparr> of
           Inl e \<Rightarrow> (Inl e, c)
         | Inr bytes \<Rightarrow> (case wr_fails (cl_out c) (length (wr_bytes (cl_out c))) of
               Some e \<Rightarrow> (Inl (Internal (''write: '' @ e)), c)
             | None \<Rightarrow> (Inr rid, c\<lparr>cl_out := (cl_out c)\<lparr>wr_bytes := wr_bytes (cl_out c) @ bytes\<rparr>\<rparr>)))"

definition client_receive :: "response envelope bincode \<Rightarrow> nat \<Rightarrow> daemon_client \<Rightarrow> (daemon_error + response) \<times> daemon_client" where
  "client_receive B rid c = (case client_read_envelope B (cl_in c) of
     (Inl e, r) \<Rightarrow> (Inl e, c\<lparr>cl_in := r\<rparr>)
   | (Inr env, r) \<Rightarrow> ((if ev_request_id env \<noteq> rid
         then Inl (Malformed (''response id mismatch: sent '' @ show_nat rid @ '', got '' @ show_nat (ev_request_id env)))
         else case ev_payload env of RsError e \<Rightarrow> Inl e | other \<Rightarrow> Inr other), c\<lparr>cl_in := r\<rparr>))"

definition client_request :: "request envelope bincode \<Rightarrow> response envelope bincode \<Rightarrow> request \<Rightarrow> daemon_client \<Rightarrow>
    (daemon_error + response) \<times> daemon_client" where
  "client_request Bq Br req c = (case client_send Bq req c of
     (Inl e, c) \<Rightarrow> (Inl e, c) | (Inr rid, c) \<Rightarrow> client_receive Br rid c)"

definition client_connect :: "request envelope bincode \<Rightarrow> response envelope bincode \<Rightarrow> (response \<Rightarrow> string) \<Rightarrow> string \<Rightarrow>
    string + reader \<times> writer \<Rightarrow> daemon_error + daemon_client" where
  "client_connect Bq Br dbg socket_path stream = (case stream of
     Inl e \<Rightarrow> Inl (Internal (''connect '' @ socket_path @ '': '' @ e))
   | Inr (r, w) \<Rightarrow> (case client_request Bq Br (RqHello PROTOCOL_VERSION ''daemon-client'') \<lparr>cl_in = r, cl_out = w, cl_next_id = 1\<rparr> of
         (Inl e, _) \<Rightarrow> Inl e
       | (Inr resp, c) \<Rightarrow> (case resp of
             RsHello _ _ _ \<Rightarrow> Inr c
           | RsError e \<Rightarrow> Inl e
           | other \<Rightarrow> Inl (Malformed (''unexpected hello response: '' @ dbg other)))))"

section \<open>Streaming\<close>

definition stream_payload :: "nat \<Rightarrow> daemon_error + response envelope \<Rightarrow> response" where
  "stream_payload rid m = (case m of
     Inr response \<Rightarrow> if ev_request_id response = rid then ev_payload response
       else RsError (Malformed (''streaming response id mismatch: expected '' @ show_nat rid @ '', got '' @ show_nat (ev_request_id response)))
   | Inl e \<Rightarrow> RsError e)"

definition stream_terminal :: "response \<Rightarrow> bool" where
  "stream_terminal payload \<longleftrightarrow> (case payload of RsIndexDone _ \<Rightarrow> True | RsError _ \<Rightarrow> True | _ \<Rightarrow> False)"

lemma read_exact_shrinks: "read_exact n r = (Inr xs, r') \<Longrightarrow> length (rd_bytes r') + n = length (rd_bytes r)"
  by (auto simp: read_exact_def split: if_splits)

lemma client_read_shrinks: "client_read_envelope B r = (Inr env, r') \<Longrightarrow> length (rd_bytes r') < length (rd_bytes r)"
  by (auto simp: client_read_envelope_def Let_def split: prod.splits sum.splits if_splits dest!: read_exact_shrinks)

function stream_responses :: "response envelope bincode \<Rightarrow> nat \<Rightarrow> reader \<Rightarrow> response list \<times> reader" where
  "stream_responses B rid r = (case client_read_envelope B r of (m, r') \<Rightarrow>
     let payload = stream_payload rid m
     in if stream_terminal payload then ([payload], r')
        else case stream_responses B rid r' of (ps, r) \<Rightarrow> (payload # ps, r))"
  by pat_completeness auto
termination
proof (relation "measure (\<lambda>(B, rid, r). length (rd_bytes r))")
  fix B rid r m r' x
  assume read: "(m, r') = client_read_envelope B r" and x: "x = stream_payload rid m" and go: "\<not> stream_terminal x"
  from x go obtain env where "m = Inr env" by (cases m) (auto simp: stream_payload_def stream_terminal_def)
  with client_read_shrinks [of B r env r'] read show "((B, rid, r'), (B, rid, r)) \<in> measure (\<lambda>(B, rid, r). length (rd_bytes r))" by simp
qed simp

declare stream_responses.simps [simp del]

definition request_streaming :: "request envelope bincode \<Rightarrow> response envelope bincode \<Rightarrow> request \<Rightarrow> daemon_client \<Rightarrow>
    (daemon_error + response list) \<times> daemon_client" where
  "request_streaming Bq Br req c = (case client_send Bq req c of
     (Inl e, c) \<Rightarrow> (Inl e, c)
   | (Inr rid, c) \<Rightarrow> (case stream_responses Br rid (cl_in c) of (ps, r) \<Rightarrow> (Inr ps, c\<lparr>cl_in := r\<rparr>)))"

section \<open>Connecting\<close>

datatype connect_outcome = Connected | Failed daemon_error | Waiting

text \<open>
  The retry loop: each attempt is whether the socket could be reached and whether the deadline had passed afterwards;
  \<open>spawn\<close> is what starting the daemon returns. The number counts the daemons started.
\<close>

fun connect_or_spawn :: "(bool \<times> bool) list \<Rightarrow> string + unit \<Rightarrow> bool \<Rightarrow> connect_outcome \<times> nat" where
  "connect_or_spawn [] spawn spawned = (Waiting, 0)"
| "connect_or_spawn ((reached, elapsed) # attempts) spawn spawned =
     (if reached then (Connected, 0)
      else case (if spawned then Inr () else spawn) of
        Inl e \<Rightarrow> (Failed (Internal (''spawn daemon: '' @ e)), 0)
      | Inr _ \<Rightarrow>
          let n = (if spawned then 0 else 1)
          in if elapsed then (Failed (Internal ''timed out waiting for daemon''), n)
             else case connect_or_spawn attempts spawn True of (out, k) \<Rightarrow> (out, n + k))"

section \<open>Client and connection together\<close>

lemma client_reads_frame:
  assumes "bincode_ok B" "frame_fits B (Sent v)" "rd_bytes r = wire_of B (Sent v) @ ys"
  shows "client_read_envelope B r = (Inr v, r\<lparr>rd_bytes := ys\<rparr>)"
proof -
  obtain p where p: "bc_serialize B v = Inr p" "length p \<le> MAX_REQUEST_BYTES"
    using assms(2) by (auto simp: frame_fits_def split: sum.splits)
  have n: "length p < 2 ^ 32" using p(2) by (simp add: MAX_REQUEST_BYTES_def)
  then have w: "rd_bytes r = le_bytes 4 (length p) @ p @ ys" using assms(3) p by (simp add: wire_of_def encode_frame_def)
  have "bc_deserialize B p = Inr v" using assms(1) p(1) by (simp add: bincode_ok_def)
  then show ?thesis using p(2) n
    by (simp add: client_read_envelope_def read_exact_append [OF _ w] read_exact_append [of p _ _ ys] decode_payload_def)
qed

interpretation client: frame_reader "client_read_envelope B" "\<lambda>v. bincode_ok B \<and> frame_fits B (Sent v)" "\<lambda>v. wire_of B (Sent v)" Inr for B
  by unfold_locales (rule client_reads_frame; simp)

lemma stream_step:
  assumes "bincode_ok B" "frame_fits B (Sent \<lparr>ev_request_id = rid, ev_payload = payload\<rparr>)"
  shows "stream_responses B rid \<lparr>rd_bytes = wire_of B (Sent \<lparr>ev_request_id = rid, ev_payload = payload\<rparr>) @ ys, rd_error = e\<rparr> =
     (if stream_terminal payload then ([payload], \<lparr>rd_bytes = ys, rd_error = e\<rparr>)
      else case stream_responses B rid \<lparr>rd_bytes = ys, rd_error = e\<rparr> of (ps, r) \<Rightarrow> (payload # ps, r))"
  using client.reads_at [of B _ ys e] assms
  by (simp add: stream_responses.simps [of B rid "\<lparr>rd_bytes = _ @ ys, rd_error = e\<rparr>"] stream_payload_def)

lemma stream_run:
  assumes "bincode_ok B" "list_all (\<lambda>p. frame_fits B (Sent \<lparr>ev_request_id = rid, ev_payload = p\<rparr>) \<and> \<not> stream_terminal p) ps"
    "frame_fits B (Sent \<lparr>ev_request_id = rid, ev_payload = t\<rparr>)" "stream_terminal t"
  shows "stream_responses B rid
      \<lparr>rd_bytes = concat (map (\<lambda>p. wire_of B (Sent \<lparr>ev_request_id = rid, ev_payload = p\<rparr>)) (ps @ [t])) @ rest, rd_error = e\<rparr> =
     (ps @ [t], \<lparr>rd_bytes = rest, rd_error = e\<rparr>)"
  using assms(2)
proof (induction ps)
  case Nil
  then show ?case using stream_step [OF assms(1,3), of rest e] assms(4) by simp
next
  case (Cons p ps)
  then show ?case using stream_step [OF assms(1), of rid p _ e] by simp
qed

definition sent_ok :: "response envelope bincode \<Rightarrow> nat \<Rightarrow> response \<Rightarrow> bool" where
  "sent_ok B rid p \<longleftrightarrow> frame_fits B (Sent \<lparr>ev_request_id = rid, ev_payload = p\<rparr>)"

definition frame_of :: "response envelope bincode \<Rightarrow> nat \<Rightarrow> response \<Rightarrow> bytes" where
  "frame_of B rid p = wire_of B (Sent \<lparr>ev_request_id = rid, ev_payload = p\<rparr>)"

lemma write_ok:
  "sent_ok B rid p \<Longrightarrow> wr_fails w = (\<lambda>_. None) \<Longrightarrow>
   write_response B rid p w = (Inr (), w\<lparr>wr_bytes := wr_bytes w @ frame_of B rid p\<rparr>)"
  by (auto simp: sent_ok_def frame_of_def frame_fits_def wire_of_def write_response_def encode_frame_def split: sum.splits)

definition progress_response :: "index_phase \<times> nat \<times> nat option \<Rightarrow> response" where
  "progress_response = (\<lambda>(phase, d, n). RsIndexProgress phase d n)"

lemma write_progress_ok:
  "list_all (\<lambda>p. sent_ok B rid (progress_response p)) ps \<Longrightarrow> wr_fails w = (\<lambda>_. None) \<Longrightarrow>
   write_progress B rid ps w = (Inr (), w\<lparr>wr_bytes := wr_bytes w @ concat (map (\<lambda>p. frame_of B rid (progress_response p)) ps)\<rparr>)"
  by (induction ps arbitrary: w) (auto simp: progress_response_def write_ok)

text \<open>What an index request is answered with: the progress reports and the final response.\<close>

definition index_answers :: "'i view \<Rightarrow> response list" where
  "index_answers vw = (if vw_indexing vw then [RsError IndexInProgress]
     else map progress_response (vw_progress vw) @ [case vw_final vw of Inl e \<Rightarrow> RsError e | Inr report \<Rightarrow> RsIndexDone (report_wire report)])"

lemma index_served:
  assumes "list_all (sent_ok B rid) (index_answers vw)" "wr_fails w = (\<lambda>_. None)"
  shows "after_hello B D vw \<lparr>ev_request_id = rid, ev_payload = RqIndex mode repo\<rparr> w =
     (Continue True, w\<lparr>wr_bytes := wr_bytes w @ concat (map (frame_of B rid) (index_answers vw))\<rparr>)"
  using assms
  by (cases "vw_final vw") (auto simp: after_hello_def dispatch_daemon_request_def index_connection_def index_answers_def reply_def write_ok
      write_progress_ok raise_err_def index_report_response_def list.pred_map comp_def)

lemma client_sends:
  assumes "client_send B req c = (Inr rid, c')"
  shows "rid = cl_next_id c \<and> cl_in c' = cl_in c \<and> frame_fits B (Sent \<lparr>ev_request_id = rid, ev_payload = req\<rparr>) \<and>
     wr_bytes (cl_out c') = wr_bytes (cl_out c) @ wire_of B (Sent \<lparr>ev_request_id = rid, ev_payload = req\<rparr>)"
  using assms
  by (auto simp: client_send_def Let_def frame_fits_def wire_of_def encode_frame_def split: sum.splits option.splits if_splits)

text \<open>
  C38: an index request is followed to its end. A client sends an index request over a fresh greeted connection; the daemon's
  connection handles the bytes sent; the client's stream over the bytes that come back is exactly the
  progress reports in their order and then the report of the run, its error, or the refusal because another run
  is in progress, and the client is left where the next response begins.
\<close>

theorem index_stream_end_to_end:
  assumes "bincode_ok Bq" "bincode_ok Br" "client_send Bq (RqIndex mode repo) c = (Inr rid, c')" "wr_bytes (cl_out c) = []"
    "list_all (sent_ok Br rid) (index_answers vw)"
    "handle_connection Bq Br D [vw] True \<lparr>rd_bytes = wr_bytes (cl_out c'), rd_error = None\<rparr> \<lparr>wr_bytes = [], wr_fails = \<lambda>_. None\<rparr> = (next, w)"
  shows "next = Continue True \<and>
     stream_responses Br rid \<lparr>rd_bytes = wr_bytes w @ rest, rd_error = e\<rparr> = (index_answers vw, \<lparr>rd_bytes = rest, rd_error = e\<rparr>)"
proof -
  let ?env = "\<lparr>ev_request_id = rid, ev_payload = RqIndex mode repo\<rparr>"
  have sent: "frame_fits Bq (Sent ?env)" "wr_bytes (cl_out c') = wire_of Bq (Sent ?env)"
    using client_sends [OF assms(3)] assms(4) by auto
  have "server_read_envelope Bq \<lparr>rd_bytes = wr_bytes (cl_out c'), rd_error = None\<rparr> = (Inr ?env, \<lparr>rd_bytes = [], rd_error = None\<rparr>)"
    using server.reads_last [of Bq "Sent ?env" None] assms(1) sent by (simp add: frame_read_def)
  then have w: "next = Continue True" "wr_bytes w = concat (map (frame_of Br rid) (index_answers vw))"
    using assms(6) index_served [OF assms(5), of "\<lparr>wr_bytes = [], wr_fails = \<lambda>_. None\<rparr>" D mode repo] by auto
  obtain ps t where pt: "index_answers vw = ps @ [t]" "list_all (\<lambda>p. \<not> stream_terminal p) ps" "stream_terminal t"
    by (cases "vw_indexing vw"; cases "vw_final vw")
      (auto simp: index_answers_def stream_terminal_def progress_response_def list_all_iff case_prod_beta)
  with stream_run [OF assms(2), of rid ps t rest e] assms(5) w show ?thesis
    by (auto simp: sent_ok_def frame_of_def [abs_def] list_all_iff)
qed

text \<open>
  A client whose request is refused because a run is in progress.
\<close>

definition wit_index_request :: "request envelope" where
  "wit_index_request = \<lparr>ev_request_id = 2, ev_payload = RqIndex Full ''/r''\<rparr>"

definition wit_refusal :: "response envelope" where
  "wit_refusal = \<lparr>ev_request_id = 2, ev_payload = RsError IndexInProgress\<rparr>"

definition wit_client :: daemon_client where
  "wit_client = \<lparr>cl_in = \<lparr>rd_bytes = [], rd_error = None\<rparr>, cl_out = \<lparr>wr_bytes = [], wr_fails = \<lambda>_. None\<rparr>, cl_next_id = 2\<rparr>"

theorem index_stream_end_to_end_witness:
  "\<exists>c'. client_send (one_message wit_index_request) (RqIndex Full ''/r'') wit_client = (Inr 2, c') \<and>
     stream_responses (one_message wit_refusal) 2 \<lparr>rd_bytes = (le_bytes 4 1 @ ''x'') @ ''rest'', rd_error = None\<rparr> =
       ([RsError IndexInProgress], \<lparr>rd_bytes = ''rest'', rd_error = None\<rparr>)"
proof -
  let ?vw = "wit_view\<lparr>vw_indexing := True\<rparr> :: (document list \<times> document list) view"
  let ?c = "wit_client\<lparr>cl_out := \<lparr>wr_bytes = le_bytes 4 1 @ ''x'', wr_fails = \<lambda>_. None\<rparr>, cl_next_id := 3\<rparr>"
  have enc: "encode_frame (one_message wit_index_request) \<lparr>ev_request_id = 2, ev_payload = RqIndex Full ''/r''\<rparr> = Inr (le_bytes 4 1 @ ''x'')"
    using one_message_ok(3) [of wit_index_request] by (simp add: wit_index_request_def)
  then have c: "client_send (one_message wit_index_request) (RqIndex Full ''/r'') wit_client = (Inr 2, ?c)"
    by (simp add: client_send_def wit_client_def)
  have a: "index_answers ?vw = [RsError IndexInProgress]" by (simp add: index_answers_def)
  have ok: "sent_ok (one_message wit_refusal) 2 (RsError IndexInProgress)"
    using one_message_ok(2) [of wit_refusal] by (simp add: sent_ok_def wit_refusal_def)
  have f: "frame_of (one_message wit_refusal) 2 (RsError IndexInProgress) = le_bytes 4 1 @ ''x''"
    using one_message_ok(3) [of wit_refusal] by (simp add: frame_of_def wire_of_def wit_refusal_def)
  have rd: "server_read_envelope (one_message wit_index_request) \<lparr>rd_bytes = wr_bytes (cl_out ?c), rd_error = None\<rparr> =
      (Inr wit_index_request, \<lparr>rd_bytes = [], rd_error = None\<rparr>)"
    using server_reads_frame [OF one_message_ok(1,2), of _ wit_index_request "[]"] enc by (simp add: frame_read_def wire_of_def wit_index_request_def)
  have h: "handle_connection (one_message wit_index_request) (one_message wit_refusal) D [?vw] True \<lparr>rd_bytes = wr_bytes (cl_out ?c), rd_error = None\<rparr>
      \<lparr>wr_bytes = [], wr_fails = \<lambda>_. None\<rparr> = (Continue True, \<lparr>wr_bytes = le_bytes 4 1 @ ''x'', wr_fails = \<lambda>_. None\<rparr>)" for D
    using index_served [of "one_message wit_refusal" 2 ?vw "\<lparr>wr_bytes = [], wr_fails = \<lambda>_. None\<rparr>" D Full "''/r''"] rd ok
    by (simp add: a f wit_index_request_def)
  from index_stream_end_to_end [OF one_message_ok(1) one_message_ok(1) c _ _ h, of "''rest''" None] c ok show ?thesis
    by (simp add: a wit_client_def)
qed

end
