(* ===== verification/Mcp.thy ===== *)
theory Mcp
  imports Client "HOL-Library.List_Lexorder"
begin

text \<open>
  The bridge to the Model Context Protocol (\<open>crates/mcp-client\<close>): checked tool parameters (\<open>params.rs\<close>), the tools and the daemon
  connection they share (\<open>server.rs\<close>), the tool descriptions (\<open>tools.rs\<close>) and the command line (\<open>main.rs\<close>). The JSON and TOML libraries, the
  protocol library's progress channel, process creation and the clock are arguments.
\<close>

section \<open>Parameters\<close>

definition TOP_K_MAX :: nat where "TOP_K_MAX = 20"
definition QUERY_MAX_CHARS :: nat where "QUERY_MAX_CHARS = 1000"
definition CODE_MAX_CHARS :: nat where "CODE_MAX_CHARS = 20000"
definition DEFAULT_TOP_K :: nat where "DEFAULT_TOP_K = 5"

record search_code_params =
  sc_query :: string
  sc_top_k :: nat

record find_similar_code_params =
  fs_code :: string
  fs_top_k :: nat

record get_symbol_params =
  gs_file :: string
  gs_symbol :: string

record index_repository_params =
  ir_path :: string
  ir_full :: bool

definition validate_top_k :: "nat \<Rightarrow> string + unit" where
  "validate_top_k top_k = (if \<not> (1 \<le> top_k \<and> top_k \<le> TOP_K_MAX)
     then Inl (''top_k out of range: must be 1..='' @ show_nat TOP_K_MAX @ '' (got '' @ show_nat top_k @ '')'') else Inr ())"

definition validate_search_code :: "search_code_params \<Rightarrow> string + unit" where
  "validate_search_code p =
     (if sc_query p = [] then Inl ''query must be non-empty''
      else if QUERY_MAX_CHARS < length (chars (sc_query p)) then Inl (''query exceeds QUERY_MAX_CHARS bound of '' @ show_nat QUERY_MAX_CHARS)
      else validate_top_k (sc_top_k p))"

definition validate_find_similar_code :: "find_similar_code_params \<Rightarrow> string + unit" where
  "validate_find_similar_code p =
     (if fs_code p = [] then Inl ''code must be non-empty''
      else if CODE_MAX_CHARS < length (chars (fs_code p)) then Inl (''code exceeds CODE_MAX_CHARS bound of '' @ show_nat CODE_MAX_CHARS)
      else validate_top_k (fs_top_k p))"

definition validate_get_symbol :: "get_symbol_params \<Rightarrow> string + unit" where
  "validate_get_symbol p =
     (if gs_file p = [] then Inl ''file must be non-empty'' else if gs_symbol p = [] then Inl ''symbol must be non-empty'' else Inr ())"

definition validate_index_repository :: "index_repository_params \<Rightarrow> string + unit" where
  "validate_index_repository p = (if ir_path p = [] then Inl ''path must be non-empty'' else Inr ())"

section \<open>The connection to the daemon\<close>

record mcp_config =
  mf_store_dir :: string
  mf_repo_dir :: string
  mf_model_dir :: string
  mf_daemon_binary :: string
  mf_connect_deadline_ms :: nat
  mf_allow_spawn :: bool
  mf_socket_path :: "string option"

record mcp_server =
  ms_config :: mcp_config
  ms_client :: "daemon_client option"

definition mcp_server_with_config :: "mcp_config \<Rightarrow> mcp_server" where
  "mcp_server_with_config config = \<lparr>ms_config = config, ms_client = None\<rparr>"

definition mcp_server_new :: "string \<Rightarrow> mcp_server" where
  "mcp_server_new store_dir = mcp_server_with_config \<lparr>mf_store_dir = store_dir, mf_repo_dir = ''.'', mf_model_dir = ''.'',
     mf_daemon_binary = ''sift-daemon'', mf_connect_deadline_ms = 60000, mf_allow_spawn = True, mf_socket_path = None\<rparr>"

text \<open>
  What a server meets outside: the serializers; the socket path derived from the store; what opening the socket gives at each
  attempt, with the two readings of whether the deadline has passed that may follow it; for a daemon started on demand, whether
  the socket could be reached at each attempt, what starting the process and the connection that follows give; whether the
  deadline of a request has passed at its \<open>i\<close>-th reading; the JSON texts; whether the \<open>i\<close>-th progress notification fails.
\<close>

record mcp_env =
  me_requests :: "request envelope bincode"
  me_responses :: "response envelope bincode"
  me_dbg :: "response \<Rightarrow> string"
  me_socket :: "daemon_error + string"
  me_attempts :: "((string + reader \<times> writer) \<times> bool \<times> bool) list"
  me_reached :: "(bool \<times> bool) list"
  me_spawn :: "string + unit"
  me_stream :: "string + reader \<times> writer"
  me_expired :: "nat \<Rightarrow> bool"
  me_json_search :: "search_response \<Rightarrow> string + string"
  me_json_symbol :: "string \<times> string \<times> string \<times> string \<times> (nat \<times> nat) \<times> string \<Rightarrow> string + string"
  me_json_report :: "index_report_wire \<Rightarrow> string + string"
  me_notify :: "nat \<Rightarrow> string option"

text \<open>\<open>None\<close> is a loop that has not come to an end with the attempts listed.\<close>

definition connect_spawning :: "mcp_env \<Rightarrow> (daemon_error + daemon_client) option" where
  "connect_spawning E = (case me_socket E of
     Inl e \<Rightarrow> Some (Inl e)
   | Inr socket \<Rightarrow> (case fst (connect_or_spawn (me_reached E) (me_spawn E) False) of
         Connected \<Rightarrow> Some (client_connect (me_requests E) (me_responses E) (me_dbg E) socket (me_stream E))
       | Failed e \<Rightarrow> Some (Inl e)
       | Waiting \<Rightarrow> None))"

fun connect_existing :: "mcp_env \<Rightarrow> string \<Rightarrow> ((string + reader \<times> writer) \<times> bool \<times> bool) list \<Rightarrow> (daemon_error + daemon_client) option" where
  "connect_existing E socket [] = None"
| "connect_existing E socket ((stream, elapsed, elapsed_then) # attempts) =
     (case client_connect (me_requests E) (me_responses E) (me_dbg E) socket stream of
        Inr c \<Rightarrow> Some (Inr c)
      | Inl e \<Rightarrow>
          if e = DStarting then connect_existing E socket attempts
          else if elapsed then Some (Inl e)
          else if elapsed_then then Some (Inl (Internal (''daemon unreachable at '' @ socket @
              '' and spawning is disabled; start sift-daemon or enable spawn'')))
          else connect_existing E socket attempts)"

definition ensure_client :: "mcp_env \<Rightarrow> mcp_server \<Rightarrow> (daemon_error + unit) option \<times> mcp_server" where
  "ensure_client E sv = (case ms_client sv of
     Some c \<Rightarrow> (Some (Inr ()), sv)
   | None \<Rightarrow>
       (case (if mf_allow_spawn (ms_config sv) then connect_spawning E
              else case (case mf_socket_path (ms_config sv) of Some p \<Rightarrow> Inr p | None \<Rightarrow> me_socket E) of
                     Inl e \<Rightarrow> Some (Inl e) | Inr socket \<Rightarrow> connect_existing E socket (me_attempts E)) of
          None \<Rightarrow> (None, sv)
        | Some (Inl e) \<Rightarrow> (Some (Inl e), sv)
        | Some (Inr c) \<Rightarrow> (Some (Inr ()), sv\<lparr>ms_client := Some c\<rparr>)))"

lemma decode_payload_error: "decode_payload B p = Inl e \<Longrightarrow> e \<noteq> DStarting"
  by (auto simp: decode_payload_def split: sum.splits)

lemma client_read_error: "client_read_envelope B r = (Inl e, r') \<Longrightarrow> e \<noteq> DStarting"
  by (auto simp: client_read_envelope_def Let_def split: prod.splits sum.splits if_splits dest: decode_payload_error)

lemma client_send_error: "client_send B req c = (Inl e, c') \<Longrightarrow> e \<noteq> DStarting"
  by (auto simp: client_send_def encode_frame_def Let_def split: sum.splits option.splits if_splits)

lemma starting_consumes:
  assumes "client_request Bq Br req c = (Inl DStarting, c')"
  shows "length (rd_bytes (cl_in c')) < length (rd_bytes (cl_in c))"
  using assms client_read_shrinks [of Br "cl_in c"]
  by (auto simp: client_request_def client_receive_def dest: client_send_error client_read_error client_sends
      split: prod.splits sum.splits response.splits if_splits)

text \<open>
  A request is sent again while the daemon answers that it is starting and the deadline has not passed. Each such answer takes
  its frame off the socket, so the loop ends with the bytes to come.
\<close>

function retry_request :: "mcp_env \<Rightarrow> request \<Rightarrow> nat \<Rightarrow> daemon_client \<Rightarrow> (daemon_error + response) \<times> daemon_client" where
  "retry_request E req i c =
     (let out = client_request (me_requests E) (me_responses E) req c
      in if fst out = Inl DStarting \<and> \<not> me_expired E i then retry_request E req (i + 1) (snd out) else out)"
  by pat_completeness auto
termination
  by (relation "measure (\<lambda>(E, req, i, c). length (rd_bytes (cl_in c)))")
    (auto intro!: starting_consumes simp: prod_eq_iff)

declare retry_request.simps [simp del]

definition with_client_request :: "mcp_env \<Rightarrow> request \<Rightarrow> mcp_server \<Rightarrow> (daemon_error, response) res option \<times> mcp_server" where
  "with_client_request E req sv = (case ensure_client E sv of
     (None, sv) \<Rightarrow> (None, sv)
   | (Some (Inl e), sv) \<Rightarrow> (Some (Inl (Raise e)), sv)
   | (Some (Inr _), sv) \<Rightarrow> (case ms_client sv of
         None \<Rightarrow> (Some (Inl (Panic ''client after ensure'')), sv)
       | Some c \<Rightarrow> (case retry_request E req 0 c of
             (Inl e, c) \<Rightarrow> (Some (Inl (Raise e)), sv\<lparr>ms_client := Some c\<rparr>)
           | (Inr resp, c) \<Rightarrow> (Some (Inr resp), sv\<lparr>ms_client := Some c\<rparr>))))"

section \<open>Tools\<close>

datatype call_tool_result = ToolSuccess string | ToolError string

fun format_daemon_error :: "daemon_error \<Rightarrow> string" where
  "format_daemon_error DStarting = ''Daemon is still starting (loading models). Retry shortly.''"
| "format_daemon_error IndexInProgress = ''An index is already in progress. Retry shortly after it completes.''"
| "format_daemon_error (SymbolNotFound in_file symb) = ''Symbol not found: `'' @ symb @ ''` in `'' @ in_file @
     ''`. Check the qualified name (e.g. Type::method) and that the file is indexed; call index_repository if the repo changed.''"
| "format_daemon_error (SymbolAmbiguous in_file symb cands) = ''Symbol `'' @ symb @ ''` in `'' @ in_file @ ''` is ambiguous. Candidates: '' @
     join_with '', '' cands @ ''. Pass the qualified name from the list.''"
| "format_daemon_error (StoreStale reason) = ''Store is stale ('' @ reason @ ''). Call index_repository to rebuild against the current repository.''"
| "format_daemon_error (DGpuUnavailable detail) = ''GPU unavailable: '' @ detail @
     ''. The daemon needs a working CUDA device, or use a CPU/mock build for tests.''"
| "format_daemon_error (ProtocolVersion dv cv) = ''Protocol version mismatch (daemon='' @ show_nat dv @ '', client='' @
     show_nat cv @ ''). Upgrade sift-daemon and mcp-client together.''"
| "format_daemon_error (RequestTooLarge n limit) = ''Request too large ('' @ show_nat n @ '' bytes; limit '' @ show_nat limit @
     ''). Shrink the payload.''"
| "format_daemon_error (Malformed detail) = ''Malformed daemon response: '' @ detail @ ''.''"
| "format_daemon_error (Internal detail) = ''Daemon error: '' @ detail @
     ''. Ensure sift-daemon can start (check --store/--repo/--model) and the socket is reachable.''"

text \<open>
  A tool returns a result for the agent, or the protocol's own error (\<open>Raise\<close>, a text that could not be rendered).
  The two searches and the symbol lookup differ in their request and in the answer they accept.
\<close>

type_synonym tool_outcome = "(string, call_tool_result) res option"

definition rendered_result :: "string + string \<Rightarrow> (string, call_tool_result) res" where
  "rendered_result json = (case json of Inl e \<Rightarrow> Inl (Raise e) | Inr t \<Rightarrow> Inr (ToolSuccess t))"

definition answer_tool :: "mcp_env \<Rightarrow> (response \<Rightarrow> (string + string) option) \<Rightarrow> (daemon_error, response) res option \<times> mcp_server \<Rightarrow>
    tool_outcome \<times> mcp_server" where
  "answer_tool E render = (\<lambda>(result, sv). (case result of
     None \<Rightarrow> None
   | Some (Inl (Raise e)) \<Rightarrow> Some (Inr (ToolError (format_daemon_error e)))
   | Some (Inl (Panic w)) \<Rightarrow> Some (Inl (Panic w))
   | Some (Inr resp) \<Rightarrow> (case render resp of
         Some json \<Rightarrow> Some (rendered_result json)
       | None \<Rightarrow> Some (Inr (ToolError (''unexpected daemon response: '' @ me_dbg E resp)))), sv))"

definition render_search :: "mcp_env \<Rightarrow> response \<Rightarrow> (string + string) option" where
  "render_search E resp = (case resp of RsSearch r \<Rightarrow> Some (me_json_search E r) | _ \<Rightarrow> None)"

definition render_symbol :: "mcp_env \<Rightarrow> response \<Rightarrow> (string + string) option" where
  "render_symbol E resp = (case resp of
     RsSymbol in_file symb language signature ls body \<Rightarrow> Some (me_json_symbol E (in_file, symb, language, signature, ls, body)) | _ \<Rightarrow> None)"

definition search_code :: "mcp_env \<Rightarrow> search_code_params \<Rightarrow> mcp_server \<Rightarrow> tool_outcome \<times> mcp_server" where
  "search_code E p sv = (case validate_search_code p of
     Inl e \<Rightarrow> (Some (Inr (ToolError e)), sv)
   | Inr _ \<Rightarrow> answer_tool E (render_search E) (with_client_request E (RqSearch (sc_query p) (sc_top_k p)) sv))"

definition find_similar_code :: "mcp_env \<Rightarrow> find_similar_code_params \<Rightarrow> mcp_server \<Rightarrow> tool_outcome \<times> mcp_server" where
  "find_similar_code E p sv = (case validate_find_similar_code p of
     Inl e \<Rightarrow> (Some (Inr (ToolError e)), sv)
   | Inr _ \<Rightarrow> answer_tool E (render_search E) (with_client_request E (RqSearchSimilar (fs_code p) (fs_top_k p)) sv))"

definition get_symbol_tool :: "mcp_env \<Rightarrow> get_symbol_params \<Rightarrow> mcp_server \<Rightarrow> tool_outcome \<times> mcp_server" where
  "get_symbol_tool E p sv = (case validate_get_symbol p of
     Inl e \<Rightarrow> (Some (Inr (ToolError e)), sv)
   | Inr _ \<Rightarrow> answer_tool E (render_symbol E) (with_client_request E (RqGetSymbol (gs_file p) (gs_symbol p)) sv))"

section \<open>Indexing\<close>

record progress_note =
  pn_progress :: f64
  pn_total :: "f64 option"
  pn_message :: string

fun phase_dbg :: "index_phase \<Rightarrow> string" where
  "phase_dbg Walking = ''Walking''"
| "phase_dbg Parsing = ''Parsing''"
| "phase_dbg Embedding = ''Embedding''"
| "phase_dbg Storing = ''Storing''"
| "phase_dbg Compacting = ''Compacting''"

definition progress_note_of :: "index_phase \<Rightarrow> nat \<Rightarrow> nat option \<Rightarrow> progress_note" where
  "progress_note_of phase d n = \<lparr>pn_progress = f64_of_nat d, pn_total = map_option f64_of_nat n, pn_message = phase_dbg phase @ '' '' @ show_nat d\<rparr>"

text \<open>
  The loop over the stream, which is read frame by frame: leaving it early leaves the frames that follow unread. The number is that of
  the notifications sent so far, which are listed with the result. The stream ends after the report or an error, so that a stream
  that ends without either is not a case.
\<close>

function index_frames :: "mcp_env \<Rightarrow> nat \<Rightarrow> nat \<Rightarrow> reader \<Rightarrow> (string, call_tool_result) res \<times> progress_note list \<times> reader" where
  "index_frames E rid i r = (case client_read_envelope (me_responses E) r of (m, r') \<Rightarrow>
     (case stream_payload rid m of
        RsIndexProgress phase d n \<Rightarrow>
          (case me_notify E i of
             Some e \<Rightarrow> (Inr (ToolError (''failed to notify progress: '' @ e)), [], r')
           | None \<Rightarrow> (case index_frames E rid (i + 1) r' of (out, notes, r) \<Rightarrow> (out, progress_note_of phase d n # notes, r)))
      | RsIndexDone report \<Rightarrow> (rendered_result (me_json_report E report), [], r')
      | RsError e \<Rightarrow> (Inr (ToolError (format_daemon_error e)), [], r')
      | other \<Rightarrow> (Inr (ToolError (''unexpected index frame: '' @ me_dbg E other)), [], r')))"
  by pat_completeness auto
termination
proof (relation "measure (\<lambda>(E, rid, i, r). length (rd_bytes r))")
  fix E rid i r m r' phase d n
  assume read: "(m, r') = client_read_envelope (me_responses E) r" and p: "stream_payload rid m = RsIndexProgress phase d n"
  from p obtain env where "m = Inr env" by (cases m) (auto simp: stream_payload_def)
  with client_read_shrinks [of "me_responses E" r env r'] read
  show "((E, rid, i + 1, r'), (E, rid, i, r)) \<in> measure (\<lambda>(E, rid, i, r). length (rd_bytes r))" by simp
qed simp

declare index_frames.simps [simp del]

definition index_repository :: "mcp_env \<Rightarrow> index_repository_params \<Rightarrow> mcp_server \<Rightarrow> tool_outcome \<times> progress_note list \<times> mcp_server" where
  "index_repository E p sv = (case validate_index_repository p of
     Inl e \<Rightarrow> (Some (Inr (ToolError e)), [], sv)
   | Inr _ \<Rightarrow> (case ensure_client E sv of
         (None, sv) \<Rightarrow> (None, [], sv)
       | (Some (Inl e), sv) \<Rightarrow> (Some (Inr (ToolError (format_daemon_error e))), [], sv)
       | (Some (Inr _), sv) \<Rightarrow> (case ms_client sv of
             None \<Rightarrow> (Some (Inl (Panic ''client'')), [], sv)
           | Some c \<Rightarrow> (case client_send (me_requests E) (RqIndex (if ir_full p then Full else Update) (ir_path p)) c of
                 (Inl e, c) \<Rightarrow> (Some (Inr (ToolError (format_daemon_error e))), [], sv\<lparr>ms_client := Some c\<rparr>)
               | (Inr rid, c) \<Rightarrow> (case index_frames E rid 0 (cl_in c) of
                     (out, notes, r) \<Rightarrow> (Some out, notes, sv\<lparr>ms_client := Some (c\<lparr>cl_in := r\<rparr>)\<rparr>))))))"

section \<open>Descriptions\<close>

text \<open>The parsed table of \<open>descriptions.toml\<close>; a missing or mistyped field is a panic that names it.\<close>

datatype toml_value = TomlString string | TomlInteger int | TomlArray "toml_value list" | TomlTable "(string \<times> toml_value) list"

record tool_description =
  td_name :: string
  td_summary :: string
  td_prefer_over :: string
  td_examples :: "string list"

definition toml_panic :: "string \<Rightarrow> (unit, 'a) res" where
  "toml_panic what = Inl (Panic (''descriptions.toml: '' @ what))"

definition toml_str :: "string \<Rightarrow> toml_value option \<Rightarrow> (unit, string) res" where
  "toml_str what v = (case v of Some (TomlString s) \<Rightarrow> Inr s | _ \<Rightarrow> toml_panic what)"

definition load_description :: "string \<times> toml_value \<Rightarrow> (unit, tool_description) res" where
  "load_description = (\<lambda>(key, v). case v of
     TomlTable t \<Rightarrow>
       bind_res (toml_str (key @ ''.summary'') (map_of t ''summary'')) (\<lambda>summary.
       bind_res (toml_str (key @ ''.prefer_over'') (map_of t ''prefer_over'')) (\<lambda>prefer_over.
       case map_of t ''examples'' of
         Some (TomlArray vs) \<Rightarrow>
           bind_res (map_res (\<lambda>v. toml_str (key @ ''.examples entry'') (Some v)) vs) (\<lambda>examples.
           Inr \<lparr>td_name = key, td_summary = summary, td_prefer_over = prefer_over, td_examples = examples\<rparr>)
       | _ \<Rightarrow> toml_panic (key @ ''.examples'')))
   | _ \<Rightarrow> toml_panic (key @ '' must be a table''))"

definition load_descriptions :: "(string \<times> toml_value) list \<Rightarrow> (unit, tool_description list) res" where
  "load_descriptions tbl =
     bind_res (map_res load_description (filter (\<lambda>kv. fst kv \<noteq> ''version'') tbl)) (\<lambda>ds.
     Inr (sort_key (\<lambda>d. map (of_char :: char \<Rightarrow> nat) (td_name d)) ds))"

definition render_description :: "tool_description \<Rightarrow> string" where
  "render_description d = td_summary d @ [newline, newline] @ td_prefer_over d @ [newline, newline] @ ''Examples:'' @ [newline] @
     concat (map (\<lambda>ex. ''- '' @ ex @ [newline]) (td_examples d))"

definition rendered :: "tool_description list \<Rightarrow> string \<Rightarrow> string" where
  "rendered ds name = (case find (\<lambda>d. td_name d = name) ds of None \<Rightarrow> [] | Some d \<Rightarrow> render_description d)"

section \<open>The command line\<close>

datatype main_outcome = PrintDescriptions | Usage | UnknownArg string | MissingValue | Serve mcp_config

definition main_config :: "string option \<Rightarrow> string option \<Rightarrow> string option \<Rightarrow> string option \<Rightarrow> mcp_config" where
  "main_config store repo model binary =
     \<lparr>mf_store_dir = (case store of Some p \<Rightarrow> p | None \<Rightarrow> ''.sift-store''), mf_repo_dir = (case repo of Some p \<Rightarrow> p | None \<Rightarrow> ''.''),
      mf_model_dir = (case model of Some p \<Rightarrow> p | None \<Rightarrow> ''.''), mf_daemon_binary = (case binary of Some p \<Rightarrow> p | None \<Rightarrow> ''sift-daemon''),
      mf_connect_deadline_ms = 60000, mf_allow_spawn = True, mf_socket_path = None\<rparr>"

text \<open>An option that is the last argument indexes past the end of the arguments, a panic.\<close>

fun parse_args :: "string list \<Rightarrow> string option \<Rightarrow> string option \<Rightarrow> string option \<Rightarrow> string option \<Rightarrow> main_outcome" where
  "parse_args [] store repo model binary = Serve (main_config store repo model binary)"
| "parse_args (a # args) store repo model binary =
     (if a \<in> {''--store'', ''--repo'', ''--model'', ''--daemon-binary''}
      then case args of
             [] \<Rightarrow> MissingValue
           | v # args \<Rightarrow>
               if a = ''--store'' then parse_args args (Some v) repo model binary
               else if a = ''--repo'' then parse_args args store (Some v) model binary
               else if a = ''--model'' then parse_args args store repo (Some v) binary
               else parse_args args store repo model (Some v)
      else if a = ''-h'' \<or> a = ''--help'' then Usage
      else UnknownArg a)"

definition mcp_main :: "string list \<Rightarrow> main_outcome" where
  "mcp_main args = (if ''--print-tool-descriptions'' \<in> set args then PrintDescriptions else parse_args args None None None None)"

end
