(* ===== verification/Mcp_Props.thy ===== *)
theory Mcp_Props
  imports Mcp
begin

text \<open>
  What an agent sees of the daemon: a call with parameters out of bounds reaches no one, a call made while the daemon starts is answered
  once it is ready, and the connection stays at a frame boundary. Two behaviours that are not meant are shown as they are.
\<close>

section \<open>Parameters\<close>

lemma utf8_step_max: "utf8_step bs = Some k \<Longrightarrow> k \<le> 4"
  by (auto simp: utf8_step_def split: list.splits if_splits)

lemma chars_short: "c \<in> set (chars bs) \<Longrightarrow> length c \<le> 4"
proof (induction bs rule: chars.induct)
  case (1 bs)
  show ?case using 1 utf8_step_max [of bs]
    by (cases "utf8_step bs") (auto simp: chars.simps [of bs])
qed

lemma chars_bytes: "valid_utf8 s \<Longrightarrow> length s \<le> 4 * length (chars s)"
proof -
  assume "valid_utf8 s"
  then have "length s = sum_list (map length (chars s))" by (metis concat_chars length_concat)
  also have "\<dots> \<le> sum_list (map (\<lambda>_. 4) (chars s))" by (rule sum_list_mono) (rule chars_short)
  finally show ?thesis by (simp add: sum_list_triv mult.commute)
qed

text \<open>Parameters out of bounds: an error for the agent, and neither connection nor state is touched.\<close>

lemma search_code_rejects:
  "validate_search_code p = Inl e \<Longrightarrow> search_code E p sv = (Some (Inr (ToolError e)), sv)"
  by (simp add: search_code_def)

section \<open>One connection\<close>

lemma client_request_answered:
  assumes "bincode_ok Br" "frame_fits Bq (Sent \<lparr>ev_request_id = cl_next_id c, ev_payload = req\<rparr>)" "wr_fails (cl_out c) = (\<lambda>_. None)"
    "sent_ok Br (cl_next_id c) resp" "rd_bytes (cl_in c) = frame_of Br (cl_next_id c) resp @ rest"
  shows "client_request Bq Br req c = ((case resp of RsError e \<Rightarrow> Inl e | _ \<Rightarrow> Inr resp),
     \<lparr>cl_in = (cl_in c)\<lparr>rd_bytes := rest\<rparr>,
      cl_out = (cl_out c)\<lparr>wr_bytes := wr_bytes (cl_out c) @ wire_of Bq (Sent \<lparr>ev_request_id = cl_next_id c, ev_payload = req\<rparr>)\<rparr>,
      cl_next_id = cl_next_id c + 1\<rparr>)"
proof -
  have r: "client_read_envelope Br (cl_in c) = (Inr \<lparr>ev_request_id = cl_next_id c, ev_payload = resp\<rparr>, (cl_in c)\<lparr>rd_bytes := rest\<rparr>)"
    using client_reads_frame [OF assms(1), of "\<lparr>ev_request_id = cl_next_id c, ev_payload = resp\<rparr>" "cl_in c" rest] assms(4,5)
    by (simp add: sent_ok_def frame_of_def)
  show ?thesis using assms(2,3) r
    by (auto simp: client_request_def client_send_def client_receive_def encode_frame_def frame_fits_def wire_of_def Let_def
        split: sum.splits response.splits)
qed

definition answered_client :: "request envelope bincode \<Rightarrow> request \<Rightarrow> nat \<Rightarrow> bytes \<Rightarrow> daemon_client \<Rightarrow> daemon_client" where
  "answered_client Bq req n rest c =
     \<lparr>cl_in = (cl_in c)\<lparr>rd_bytes := rest\<rparr>,
      cl_out = (cl_out c)\<lparr>wr_bytes := wr_bytes (cl_out c) @
        concat (map (\<lambda>i. wire_of Bq (Sent \<lparr>ev_request_id = cl_next_id c + i, ev_payload = req\<rparr>)) [0..<n])\<rparr>,
      cl_next_id = cl_next_id c + n\<rparr>"

lemma upt_Suc_shift: "[0..<Suc n] = 0 # map Suc [0..<n]"
  by (simp add: upt_conv_Cons map_Suc_upt del: upt_Suc)

lemma answered_client_Suc: "answered_client B req n rest (answered_client B req 1 rest' c) = answered_client B req (Suc n) rest c"
  by (simp add: answered_client_def upt_Suc_shift comp_def del: upt_Suc)

lemma retry_request_answered:
  assumes "bincode_ok (me_responses E)"
    "\<forall>i \<le> n. frame_fits (me_requests E) (Sent \<lparr>ev_request_id = cl_next_id c + i, ev_payload = req\<rparr>)"
    "\<forall>i < n. sent_ok (me_responses E) (cl_next_id c + i) (RsError DStarting) \<and> \<not> me_expired E (k + i)"
    "sent_ok (me_responses E) (cl_next_id c + n) resp" "resp = RsError DStarting \<longrightarrow> me_expired E (k + n)" "wr_fails (cl_out c) = (\<lambda>_. None)"
    "rd_bytes (cl_in c) = concat (map (\<lambda>i. frame_of (me_responses E) (cl_next_id c + i) (RsError DStarting)) [0..<n]) @
       frame_of (me_responses E) (cl_next_id c + n) resp @ rest"
  shows "retry_request E req k c = ((case resp of RsError e \<Rightarrow> Inl e | _ \<Rightarrow> Inr resp), answered_client (me_requests E) req (n + 1) rest c)"
  using assms(2-)
proof (induction n arbitrary: k c)
  case 0
  then show ?case using client_request_answered [OF assms(1), of "me_requests E" c req resp rest] assms(5)
    by (subst retry_request.simps) (auto simp: answered_client_def Let_def split: response.splits)
next
  case (Suc n)
  let ?f = "\<lambda>i p. frame_of (me_responses E) (cl_next_id c + i) p"
  let ?more = "concat (map (\<lambda>i. ?f (Suc i) (RsError DStarting)) [0..<n]) @ ?f (Suc n) resp @ rest"
  have b: "rd_bytes (cl_in c) = ?f 0 (RsError DStarting) @ ?more" using Suc.prems(6) by (simp add: upt_Suc_shift comp_def del: upt_Suc)
  let ?c = "answered_client (me_requests E) req 1 ?more c"
  have s: "client_request (me_requests E) (me_responses E) req c = (Inl DStarting, ?c)"
    using client_request_answered [OF assms(1), of "me_requests E" c req "RsError DStarting" ?more] Suc.prems(1) [rule_format, of 0] Suc.prems(2) [rule_format, of 0] Suc.prems(5) b
    by (simp add: answered_client_def)
  have "retry_request E req (k + 1) ?c = ((case resp of RsError e \<Rightarrow> Inl e | _ \<Rightarrow> Inr resp), answered_client (me_requests E) req (n + 1) rest ?c)"
    by (rule Suc.IH) (use Suc.prems in \<open>auto simp: answered_client_def\<close>)
  then have "retry_request E req (k + 1) ?c = ((case resp of RsError e \<Rightarrow> Inl e | _ \<Rightarrow> Inr resp), answered_client (me_requests E) req (Suc n + 1) rest c)"
    by (simp only: answered_client_Suc Suc_eq_plus1 [symmetric])
  moreover have "\<not> me_expired E k" using Suc.prems(2) by (metis add_0_right zero_less_Suc)
  ultimately show ?case using s by (subst retry_request.simps) simp
qed

section \<open>Calls\<close>

text \<open>
  The size of a search request in the serializer's documented fixed-width format: an 8-byte id, a 4-byte variant, the query with its 8-byte
  length, and an 8-byte count.
\<close>

definition search_requests_sized :: "request envelope bincode \<Rightarrow> bool" where
  "search_requests_sized B \<longleftrightarrow> (\<forall>rid q k. rid < 2 ^ 64 \<longrightarrow> k < 2 ^ 64 \<longrightarrow>
     (\<exists>p. bc_serialize B \<lparr>ev_request_id = rid, ev_payload = RqSearch q k\<rparr> = Inr p \<and> length p = 28 + length q))"

lemma valid_search_fits:
  assumes "validate_search_code p = Inr ()" "valid_utf8 (sc_query p)" "search_requests_sized B" "rid < 2 ^ 64"
  shows "frame_fits B (Sent \<lparr>ev_request_id = rid, ev_payload = RqSearch (sc_query p) (sc_top_k p)\<rparr>)"
proof -
  have "length (chars (sc_query p)) \<le> 1000" "sc_top_k p < 2 ^ 64"
    using assms(1) by (auto simp: validate_search_code_def validate_top_k_def QUERY_MAX_CHARS_def TOP_K_MAX_def split: if_splits)
  moreover from this have "length (sc_query p) \<le> 4000" using chars_bytes [OF assms(2)] by simp
  moreover obtain bs where "bc_serialize B \<lparr>ev_request_id = rid, ev_payload = RqSearch (sc_query p) (sc_top_k p)\<rparr> = Inr bs"
    "length bs = 28 + length (sc_query p)"
    using assms(3,4) \<open>sc_top_k p < 2 ^ 64\<close> unfolding search_requests_sized_def by blast
  ultimately show ?thesis by (simp add: frame_fits_def MAX_REQUEST_BYTES_def)
qed

definition search_outcome :: "mcp_env \<Rightarrow> response \<Rightarrow> (string, call_tool_result) res" where
  "search_outcome E resp = (case resp of
     RsSearch r \<Rightarrow> rendered_result (me_json_search E r)
   | RsError e \<Rightarrow> Inr (ToolError (format_daemon_error e))
   | _ \<Rightarrow> Inr (ToolError (''unexpected daemon response: '' @ me_dbg E resp)))"

text \<open>
  C3: a search with parameters within their bounds is answered once the daemon is ready. The request always fits a frame; it is sent
  again, with a new id each time, while the daemon answers that it is starting and the deadline has not passed; the agent sees the
  rendering of the first other answer, or of the last one when the deadline has passed; and the connection is left at the
  frame after that answer.
\<close>

theorem search_code_waits_until_ready:
  assumes "validate_search_code p = Inr ()" "valid_utf8 (sc_query p)" "bincode_ok (me_responses E)" "search_requests_sized (me_requests E)"
    "ms_client sv = Some c" "wr_fails (cl_out c) = (\<lambda>_. None)" "cl_next_id c + n < 2 ^ 64"
    "\<forall>i < n. sent_ok (me_responses E) (cl_next_id c + i) (RsError DStarting) \<and> \<not> me_expired E i"
    "sent_ok (me_responses E) (cl_next_id c + n) resp" "resp = RsError DStarting \<longrightarrow> me_expired E n"
    "rd_bytes (cl_in c) = concat (map (\<lambda>i. frame_of (me_responses E) (cl_next_id c + i) (RsError DStarting)) [0..<n]) @
       frame_of (me_responses E) (cl_next_id c + n) resp @ rest"
  shows "search_code E p sv = (Some (search_outcome E resp),
     sv\<lparr>ms_client := Some (answered_client (me_requests E) (RqSearch (sc_query p) (sc_top_k p)) (n + 1) rest c)\<rparr>)"
proof -
  have "\<forall>i \<le> n. frame_fits (me_requests E) (Sent \<lparr>ev_request_id = cl_next_id c + i, ev_payload = RqSearch (sc_query p) (sc_top_k p)\<rparr>)"
    using valid_search_fits [OF assms(1,2,4)] assms(7) by simp
  then have "retry_request E (RqSearch (sc_query p) (sc_top_k p)) 0 c = ((case resp of RsError e \<Rightarrow> Inl e | _ \<Rightarrow> Inr resp),
      answered_client (me_requests E) (RqSearch (sc_query p) (sc_top_k p)) (n + 1) rest c)"
    by (rule retry_request_answered [OF assms(3)]) (use assms in simp_all)
  then show ?thesis using assms(1,5)
    by (cases resp) (simp_all add: search_code_def with_client_request_def ensure_client_def answer_tool_def render_search_def search_outcome_def)
qed

text \<open>A daemon that says once that it is starting and then answers.\<close>

definition two_messages :: "'a \<Rightarrow> 'a \<Rightarrow> 'a bincode" where
  "two_messages v w = \<lparr>bc_serialize = (\<lambda>u. if u = v then Inr ''x'' else if u = w then Inr ''y'' else Inl ''unsupported''),
     bc_deserialize = (\<lambda>p. if p = ''x'' then Inr v else if p = ''y'' then Inr w else Inl ''unsupported'')\<rparr>"

lemma two_messages_ok: "bincode_ok (two_messages v w)" "frame_fits (two_messages v w) (Sent v)" "frame_fits (two_messages v w) (Sent w)"
  by (auto simp: bincode_ok_def two_messages_def frame_fits_def MAX_REQUEST_BYTES_def)

definition sized_requests :: "request envelope bincode" where
  "sized_requests = \<lparr>bc_serialize = (\<lambda>env. case ev_payload env of RqSearch q k \<Rightarrow> Inr (replicate 28 (CHR 0x00) @ q) | _ \<Rightarrow> Inl ''unsupported''),
     bc_deserialize = (\<lambda>p. Inl ''unsupported'')\<rparr>"

definition wit_answer :: search_response where
  "wit_answer = \<lparr>rs_results = [], rs_diagnostics = \<lparr>dg_lexical_ok = True, dg_dense_ok = True, dg_lexical_error = None, dg_dense_error = None,
     dg_stage_millis = wit_timings\<rparr>\<rparr>"

definition wit_responses :: "response envelope bincode" where
  "wit_responses = two_messages \<lparr>ev_request_id = 2, ev_payload = RsError DStarting\<rparr> \<lparr>ev_request_id = 3, ev_payload = RsSearch wit_answer\<rparr>"

definition wit_mcp_env :: mcp_env where
  "wit_mcp_env = \<lparr>me_requests = sized_requests, me_responses = wit_responses, me_dbg = (\<lambda>_. []), me_socket = Inr ''s'', me_attempts = [], me_reached = [],
     me_spawn = Inr (), me_stream = Inl ''no'', me_expired = (\<lambda>_. False), me_json_search = (\<lambda>_. Inr ''{}''), me_json_symbol = (\<lambda>_. Inr ''{}''),
     me_json_report = (\<lambda>_. Inr ''{}''), me_notify = (\<lambda>_. None)\<rparr>"

definition wit_mcp_client :: daemon_client where
  "wit_mcp_client = \<lparr>cl_in = \<lparr>rd_bytes = frame_of wit_responses 2 (RsError DStarting) @ frame_of wit_responses 3 (RsSearch wit_answer) @ ''rest'', rd_error = None\<rparr>,
     cl_out = \<lparr>wr_bytes = [], wr_fails = \<lambda>_. None\<rparr>, cl_next_id = 2\<rparr>"

theorem search_code_waits_until_ready_witness:
  "search_code wit_mcp_env \<lparr>sc_query = ''q'', sc_top_k = 5\<rparr> ((mcp_server_new ''st'')\<lparr>ms_client := Some wit_mcp_client\<rparr>) =
     (Some (Inr (ToolSuccess ''{}'')), (mcp_server_new ''st'')\<lparr>ms_client := Some (answered_client sized_requests (RqSearch ''q'' 5) 2 ''rest'' wit_mcp_client)\<rparr>)"
proof -
  let ?p = "\<lparr>sc_query = ''q'', sc_top_k = 5\<rparr>" let ?sv = "(mcp_server_new ''st'')\<lparr>ms_client := Some wit_mcp_client\<rparr>"
  have v: "validate_search_code ?p = Inr ()" "valid_utf8 (sc_query ?p)" by code_simp+
  have ok: "bincode_ok (me_responses wit_mcp_env)" "search_requests_sized (me_requests wit_mcp_env)"
    "sent_ok wit_responses 2 (RsError DStarting)" "sent_ok wit_responses 3 (RsSearch wit_answer)"
    by (simp_all add: wit_mcp_env_def wit_responses_def two_messages_ok sent_ok_def search_requests_sized_def sized_requests_def)
  have "search_code wit_mcp_env ?p ?sv = (Some (search_outcome wit_mcp_env (RsSearch wit_answer)),
      ?sv\<lparr>ms_client := Some (answered_client (me_requests wit_mcp_env) (RqSearch (sc_query ?p) (sc_top_k ?p)) (1 + 1) ''rest'' wit_mcp_client)\<rparr>)"
    by (rule search_code_waits_until_ready [OF v ok(1,2)]) (use ok(3,4) in \<open>simp_all add: wit_mcp_client_def wit_mcp_env_def flip: numeral_2_eq_2\<close>)
  then show ?thesis by (simp add: search_outcome_def rendered_result_def wit_mcp_env_def numeral_2_eq_2)
qed

section \<open>Behaviours that are not meant\<close>

text \<open>
  A daemon that answered every greeting with \<open>Starting\<close> would be waited for without end: the arm for \<open>Starting\<close> precedes the arms that
  look at the deadline. The daemon of this repository greets while it starts, so its clients do not meet this.
\<close>

lemma starting_daemon_never_times_out:
  assumes "ms_client sv = None" "\<not> mf_allow_spawn (ms_config sv)" "mf_socket_path (ms_config sv) = Some socket"
    "\<forall>(stream, readings) \<in> set (me_attempts E). client_connect (me_requests E) (me_responses E) (me_dbg E) socket stream = Inl DStarting"
  shows "ensure_client E sv = (None, sv)"
proof -
  have "\<forall>(stream, readings) \<in> set attempts. client_connect (me_requests E) (me_responses E) (me_dbg E) socket stream = Inl DStarting \<Longrightarrow>
      connect_existing E socket attempts = None" for attempts
    by (induction attempts) auto
  then have "connect_existing E socket (me_attempts E) = None" using assms(4) by blast
  then show ?thesis using assms(1-3) by (simp add: ensure_client_def)
qed

text \<open>
  An index call that stops at a failed progress notification leaves the rest of the stream on the connection, which is kept:
  the next request reads a frame of the abandoned stream and fails.
\<close>

lemma abandoned_stream_breaks_next_request:
  assumes "bincode_ok (me_responses E)" "ms_client sv = Some c" "ir_path p \<noteq> []" "me_notify E 0 = Some e"
    "client_send (me_requests E) (RqIndex (if ir_full p then Full else Update) (ir_path p)) c = (Inr rid, c')"
    "client_send (me_requests E) req (c'\<lparr>cl_in := (cl_in c)\<lparr>rd_bytes := frame_of (me_responses E) rid later @ rest\<rparr>\<rparr>) = (Inr rid', c'')"
    "rd_bytes (cl_in c) = frame_of (me_responses E) rid (RsIndexProgress phase d n) @ frame_of (me_responses E) rid later @ rest"
    "sent_ok (me_responses E) rid (RsIndexProgress phase d n)" "sent_ok (me_responses E) rid later" "rid' \<noteq> rid"
  shows "\<exists>sv'. index_repository E p sv = (Some (Inr (ToolError (''failed to notify progress: '' @ e))), [], sv') \<and>
     fst (with_client_request E req sv') =
       Some (Inl (Raise (Malformed (''response id mismatch: sent '' @ show_nat rid' @ '', got '' @ show_nat rid))))"
proof -
  let ?B = "me_responses E" let ?r = "(cl_in c)\<lparr>rd_bytes := frame_of ?B rid later @ rest\<rparr>"
  have in1: "cl_in c' = cl_in c" "cl_in c'' = ?r" using client_sends [OF assms(5)] client_sends [OF assms(6)] by simp_all
  have "client_read_envelope ?B (cl_in c) = (Inr \<lparr>ev_request_id = rid, ev_payload = RsIndexProgress phase d n\<rparr>, ?r)"
    using client_reads_frame [OF assms(1) assms(8) [unfolded sent_ok_def], of "cl_in c"] assms(7) by (simp add: frame_of_def)
  then have "index_frames E rid 0 (cl_in c') = (Inr (ToolError (''failed to notify progress: '' @ e)), [], ?r)"
    using assms(4) in1 by (simp add: index_frames.simps stream_payload_def)
  then have i: "index_repository E p sv = (Some (Inr (ToolError (''failed to notify progress: '' @ e))), [], sv\<lparr>ms_client := Some (c'\<lparr>cl_in := ?r\<rparr>)\<rparr>)"
    using assms(2,3,5) by (simp add: index_repository_def validate_index_repository_def ensure_client_def)
  have "client_read_envelope ?B ?r = (Inr \<lparr>ev_request_id = rid, ev_payload = later\<rparr>, ?r\<lparr>rd_bytes := rest\<rparr>)"
    using client_reads_frame [OF assms(1) assms(9) [unfolded sent_ok_def], of ?r rest] by (simp add: frame_of_def)
  then have "client_request (me_requests E) ?B req (c'\<lparr>cl_in := ?r\<rparr>) = (Inl (Malformed (''response id mismatch: sent '' @ show_nat rid' @
      '', got '' @ show_nat rid)), c''\<lparr>cl_in := ?r\<lparr>rd_bytes := rest\<rparr>\<rparr>)"
    using assms(6,10) in1 by (simp add: client_request_def client_receive_def)
  then have "retry_request E req 0 (c'\<lparr>cl_in := ?r\<rparr>) = (Inl (Malformed (''response id mismatch: sent '' @ show_nat rid' @
      '', got '' @ show_nat rid)), c''\<lparr>cl_in := ?r\<lparr>rd_bytes := rest\<rparr>\<rparr>)"
    by (subst retry_request.simps) simp
  then show ?thesis using i by (simp add: with_client_request_def ensure_client_def)
qed

end
