(* ===== verification/Inference.thy ===== *)
theory Inference
  imports Search Chunker
begin

text \<open>
  The embedding back end (\<open>crates/inference\<close>): batching (\<open>embedder.rs\<close>), tokenization with padding and masks (\<open>tokenize.rs\<close>),
  pooling and normalization (\<open>pooling.rs\<close>), the ONNX embedder that composes them (\<open>onnx.rs\<close>) and the deterministic mock
  (\<open>mock.rs\<close>). The tokenizer library and the ONNX session are parameters.
\<close>

section \<open>Arithmetic\<close>

function isqrt :: "int \<Rightarrow> int" where
  "isqrt n = (if n \<le> 0 then 0 else let r = 2 * isqrt (n div 4) in if (r + 1) * (r + 1) \<le> n then r + 1 else r)"
  by pat_completeness auto
termination
  by (relation "measure nat") auto

declare isqrt.simps [simp del]

text \<open>
  The correctly rounded square root. A finite single is a multiple of \<open>2 ^ -149\<close>, so scaled by \<open>2 ^ 400\<close> it is an integer whose
  integer root has far more bits than the result; half a unit is added to an inexact root so that it never looks like a tie.
\<close>

definition f32_sqrt :: "f32 \<Rightarrow> f32" where
  "f32_sqrt a =
     (let b = uint a
      in if fp_is_nan F32 b then word_of_int (fp_nan F32)
         else if fp_mag_bits F32 b = 0 then a
         else if fp_neg F32 b then word_of_int (fp_nan F32)
         else if fp_is_inf F32 b then a
         else let n = \<lfloor>fp_mag F32 b * 2 ^ 400\<rfloor>; r = isqrt n
         in word_of_int (fp_round F32 (of_int (2 * r + (if r * r = n then 0 else 1)) / 2 ^ 201)))"

text \<open>\<open>f16::from_f32\<close>: to nearest even; a NaN keeps the top bits of its payload and becomes quiet.\<close>

definition f16_from_f32 :: "f32 \<Rightarrow> f16" where
  "f16_from_f32 a =
     (let b = uint a; s = fp_neg F32 b
      in word_of_int
           (if fp_is_nan F32 b
            then let t = fp_frac F32 b div 2 ^ 13 in fp_pack F16 s (fp_inf F16 + (if t div 512 mod 2 = 1 then t else t + 512))
            else if fp_is_inf F32 b then fp_pack F16 s (fp_inf F16)
            else fp_pack F16 s (fp_round F16 (fp_mag F32 b))))"

definition f32_is_zero :: "f32 \<Rightarrow> bool" where
  "f32_is_zero a \<longleftrightarrow> fp_mag_bits F32 (uint a) = 0"

section \<open>Batches\<close>

text \<open>\<open>chunks\<close>: pieces of the given size, the last one possibly shorter.\<close>

function list_chunks :: "nat \<Rightarrow> 'a list \<Rightarrow> 'a list list" where
  "list_chunks n xs = (if n = 0 \<or> xs = [] then [] else take n xs # list_chunks n (drop n xs))"
  by pat_completeness auto
termination
  by (relation "measure (\<lambda>(n, xs). length xs)") auto

declare list_chunks.simps [simp del]

definition embed_with_batch_limit :: "string list \<Rightarrow> role \<Rightarrow> nat \<Rightarrow> (string list \<Rightarrow> role \<Rightarrow> (infer_error, embedding list) res) \<Rightarrow>
    (infer_error, embedding list) res" where
  "embed_with_batch_limit texts rl max_batch embed_batch =
     (if max_batch = 0 then Inl (Panic ''max_batch must be positive'')
      else bind_res (map_res (\<lambda>c. embed_batch c rl) (list_chunks max_batch texts)) (\<lambda>ess. Inr (concat ess)))"

section \<open>Metadata\<close>

datatype pooling = LastToken | Mean | Cls

datatype normalize = L2 | NoNormalize

record model_metadata =
  md_model_id :: string
  md_dims :: nat
  md_max_sequence_length :: nat
  md_pooling :: pooling
  md_normalize :: normalize
  md_query_prefix :: "string option"
  md_document_prefix :: "string option"
  md_onnx_sha256 :: string
  md_tokenizer_sha256 :: string

section \<open>Tokens\<close>

record tokenizer =
  tk_encode :: "string \<Rightarrow> string + nat list"
  tk_encode_truncated :: "nat \<Rightarrow> string \<Rightarrow> string + nat list"
  tk_padding :: "nat option"
  tk_token_to_id :: "string \<Rightarrow> nat option"

record encoded_input =
  ei_input_ids :: "nat list"
  ei_attention_mask :: "nat list"
  ei_truncated :: bool

definition tokenizer_error :: "string + 'a \<Rightarrow> (infer_error, 'a) res" where
  "tokenizer_error m = (case m of Inl e \<Rightarrow> Inl (Raise (Tokenizer e)) | Inr a \<Rightarrow> Inr a)"

definition apply_prefix :: "model_metadata \<Rightarrow> string \<Rightarrow> role \<Rightarrow> string" where
  "apply_prefix md t rl = (case (case rl of Query \<Rightarrow> md_query_prefix md | Document \<Rightarrow> md_document_prefix md) of
     Some prefix \<Rightarrow> prefix @ t | None \<Rightarrow> t)"

definition encode_unpadded :: "tokenizer \<Rightarrow> model_metadata \<Rightarrow> string \<Rightarrow> role \<Rightarrow> (infer_error, nat list \<times> bool) res" where
  "encode_unpadded tk md t rl =
     (let prefixed = apply_prefix md t rl; max_len = md_max_sequence_length md
      in bind_res (tokenizer_error (tk_encode tk prefixed)) (\<lambda>full_ids.
         if max_len < length full_ids
         then bind_res (tokenizer_error (tk_encode_truncated tk max_len prefixed)) (\<lambda>ids. Inr (ids, True))
         else Inr (full_ids, False)))"

definition pad_token_id :: "tokenizer \<Rightarrow> nat" where
  "pad_token_id tk = (case tk_padding tk of
     Some pad_id \<Rightarrow> pad_id
   | None \<Rightarrow> (case tk_token_to_id tk ''<|endoftext|>'' of
         Some i \<Rightarrow> i
       | None \<Rightarrow> (case tk_token_to_id tk ''[PAD]'' of Some i \<Rightarrow> i | None \<Rightarrow> 0)))"

definition pad_input :: "bool \<Rightarrow> nat \<Rightarrow> nat \<Rightarrow> nat \<Rightarrow> nat list \<times> bool \<Rightarrow> encoded_input" where
  "pad_input left_pad pad_id max_len max_in_batch = (\<lambda>(ids, truncated).
     let seq_len = min (length ids) max_len; pad = max_in_batch - seq_len
     in if left_pad
        then \<lparr>ei_input_ids = replicate pad pad_id @ take seq_len ids, ei_attention_mask = replicate pad 0 @ replicate seq_len 1,
              ei_truncated = truncated\<rparr>
        else \<lparr>ei_input_ids = take seq_len ids @ replicate pad pad_id, ei_attention_mask = replicate seq_len 1 @ replicate pad 0,
              ei_truncated = truncated\<rparr>)"

definition encode_batch_padded :: "tokenizer \<Rightarrow> model_metadata \<Rightarrow> string list \<Rightarrow> role \<Rightarrow> (infer_error, encoded_input list) res" where
  "encode_batch_padded tk md texts rl =
     (let max_len = md_max_sequence_length md; left_pad = (md_pooling md = LastToken)
      in bind_res (map_res (\<lambda>t. encode_unpadded tk md t rl) texts) (\<lambda>encoded.
         let max_in_batch = foldl (\<lambda>m (ids, _). max m (min (length ids) max_len)) 0 encoded
         in Inr (map (pad_input left_pad (pad_token_id tk) max_len max_in_batch) encoded)))"

section \<open>Pooling\<close>

definition elem_at :: "'a list \<Rightarrow> nat \<Rightarrow> (infer_error, 'a) res" where
  "elem_at xs i = (if i < length xs then Inr (xs ! i) else Inl (Panic ''index out of bounds''))"

definition row_slice :: "'a list \<Rightarrow> nat \<Rightarrow> nat \<Rightarrow> (infer_error, 'a list) res" where
  "row_slice xs base n = (if base + n \<le> length xs then Inr (take n (drop base xs)) else Inl (Panic ''range end index''))"

definition add_token :: "f32 list \<Rightarrow> nat \<Rightarrow> f32 list \<Rightarrow> (infer_error, f32 list) res" where
  "add_token hidden base row_out = map_res (\<lambda>d. bind_res (elem_at hidden (base + d)) (\<lambda>v. Inr (f32_add (row_out ! d) v))) [0..<length row_out]"

text \<open>The sum of the token vectors at the given positions of row \<open>b\<close>, those with a zero mask left out when \<open>masked\<close>.\<close>

fun sum_tokens :: "bool \<Rightarrow> f32 list \<Rightarrow> nat list \<Rightarrow> nat \<Rightarrow> nat \<Rightarrow> nat \<Rightarrow> nat list \<Rightarrow> f32 list \<Rightarrow> nat \<Rightarrow> (infer_error, f32 list \<times> nat) res" where
  "sum_tokens masked hidden msk b seq dims [] row_out cnt = Inr (row_out, cnt)"
| "sum_tokens masked hidden msk b seq dims (s # ss) row_out cnt =
     bind_res (if masked then elem_at msk (b * seq + s) else Inr 1) (\<lambda>m.
     if m = 0 then sum_tokens masked hidden msk b seq dims ss row_out cnt
     else bind_res (add_token hidden ((b * seq + s) * dims) row_out) (\<lambda>row_out.
       sum_tokens masked hidden msk b seq dims ss row_out (cnt + 1)))"

definition scale_row :: "nat \<Rightarrow> f32 list \<Rightarrow> f32 list" where
  "scale_row cnt row_out = map (\<lambda>v. f32_mul v (f32_div f32_one (f32_of_nat cnt))) row_out"

definition pool_mean :: "f32 list \<Rightarrow> nat list \<Rightarrow> nat \<Rightarrow> nat \<Rightarrow> nat \<Rightarrow> (infer_error, f32 list) res" where
  "pool_mean hidden msk b seq dims =
     bind_res (sum_tokens True hidden msk b seq dims [0..<seq] (replicate dims f32_zero) 0) (\<lambda>(row_out, cnt).
     if 0 < cnt then Inr (scale_row cnt row_out)
     else bind_res (sum_tokens False hidden msk b seq dims [0..<seq] row_out 0) (\<lambda>(row_out, _).
       Inr (if 0 < seq then scale_row seq row_out else row_out)))"

fun last_unmasked :: "nat list \<Rightarrow> nat \<Rightarrow> nat \<Rightarrow> nat list \<Rightarrow> nat option \<Rightarrow> (infer_error, nat option) res" where
  "last_unmasked msk b seq [] i = Inr i"
| "last_unmasked msk b seq (s # ss) i = bind_res (elem_at msk (b * seq + s)) (\<lambda>m.
     last_unmasked msk b seq ss (if m \<noteq> 0 then Some s else i))"

definition pool_row :: "pooling \<Rightarrow> f32 list \<Rightarrow> nat list \<Rightarrow> nat \<Rightarrow> nat \<Rightarrow> nat \<Rightarrow> (infer_error, f32 list) res" where
  "pool_row strategy hidden msk b seq dims = (case strategy of
     Mean \<Rightarrow> pool_mean hidden msk b seq dims
   | LastToken \<Rightarrow> bind_res (last_unmasked msk b seq [0..<seq] None) (\<lambda>idx.
       let s = (case idx of Some s \<Rightarrow> s | None \<Rightarrow> seq - 1)
       in row_slice hidden ((b * seq + s) * dims) dims)
   | Cls \<Rightarrow> row_slice hidden (b * seq * dims) dims)"

definition pool :: "f32 list \<Rightarrow> nat list \<Rightarrow> nat \<Rightarrow> nat \<Rightarrow> nat \<Rightarrow> pooling \<Rightarrow> (infer_error, f32 list) res" where
  "pool hidden msk batch seq dims strategy =
     bind_res (map_res (\<lambda>b. pool_row strategy hidden msk b seq dims) [0..<batch]) (\<lambda>out. Inr (concat out))"

definition l2_row :: "f32 list \<Rightarrow> f32 list" where
  "l2_row row_vec =
     (let sum_sq = foldl (\<lambda>acc v. f32_add acc (f32_mul v v)) f32_zero row_vec
      in if f32_is_zero sum_sq then row_vec
         else let inv = f32_div f32_one (f32_sqrt sum_sq) in map (\<lambda>v. f32_mul v inv) row_vec)"

definition l2_normalize_rows :: "f32 list \<Rightarrow> nat \<Rightarrow> (infer_error, f32 list) res" where
  "l2_normalize_rows vectors dims =
     (if dims = 0 then Inl (Panic ''assertion failed: dims > 0'')
      else if length vectors mod dims \<noteq> 0 then Inl (Panic ''assertion failed'')
      else Inr (concat (map (\<lambda>r. l2_row (take dims (drop (r * dims) vectors))) [0..<length vectors div dims])))"

section \<open>ONNX embedder\<close>

text \<open>A session run takes the shape, the token ids and the mask, and returns a shape and the hidden states.\<close>

record onnx_session =
  os_run :: "nat \<Rightarrow> nat \<Rightarrow> nat list \<Rightarrow> nat list \<Rightarrow> string + nat list \<times> f16 list"

definition run_error :: "nat \<Rightarrow> string \<Rightarrow> infer_error" where
  "run_error requested e =
     (let msg = to_ascii_lowercase e
      in if contains ''alloc'' msg \<or> contains ''memory'' msg \<or> contains ''oom'' msg then Allocation requested else Runtime e)"

definition onnx_embed_batch :: "tokenizer \<Rightarrow> model_metadata \<Rightarrow> onnx_session \<Rightarrow> (nat list \<Rightarrow> string) \<Rightarrow> string list \<Rightarrow> role \<Rightarrow>
    (infer_error, embedding list) res" where
  "onnx_embed_batch tk md session dbg texts rl =
     (if texts = [] then Inr []
      else bind_res (encode_batch_padded tk md texts rl) (\<lambda>encoded.
      let batch = length encoded; seq = length (ei_input_ids (hd encoded)); dims = md_dims md;
          ids = concat (map ei_input_ids encoded); msk = concat (map ei_attention_mask encoded)
      in case os_run session batch seq ids msk of
           Inl e \<Rightarrow> Inl (Raise (run_error (batch * seq * dims * 2) e))
         | Inr (shape, hidden_f16) \<Rightarrow>
           if length shape \<noteq> 3 \<or> shape ! 0 \<noteq> batch \<or> shape ! 2 \<noteq> dims
           then Inl (Raise (Runtime (''unexpected hidden shape '' @ dbg shape @ '', expected ['' @ show_nat batch @ '', ?, '' @ show_nat dims @ '']'')))
           else if shape ! 1 \<noteq> seq
           then Inl (Raise (Runtime (''sequence length mismatch: encoded '' @ show_nat seq @ '' vs hidden '' @ show_nat (shape ! 1))))
           else bind_res (pool (map f16_to_f32 hidden_f16) msk batch seq dims (md_pooling md)) (\<lambda>pooled.
           bind_res (if md_normalize md = L2 then l2_normalize_rows pooled dims else Inr pooled) (\<lambda>pooled.
           map_res (\<lambda>(i, enc). bind_res (row_slice pooled (i * dims) dims) (\<lambda>r.
             Inr \<lparr>em_vector = map f16_from_f32 r, em_truncated = ei_truncated enc\<rparr>)) (enumerate 0 encoded)))))"

definition onnx_embedder :: "tokenizer \<Rightarrow> model_metadata \<Rightarrow> onnx_session \<Rightarrow> (nat list \<Rightarrow> string) \<Rightarrow> nat \<Rightarrow> embedder" where
  "onnx_embedder tk md session dbg max_batch = \<lparr>eb_model_id = md_model_id md, eb_dims = md_dims md,
     eb_embed = (\<lambda>texts rl. embed_with_batch_limit texts rl (max 1 max_batch) (onnx_embed_batch tk md session dbg))\<rparr>"

section \<open>Mock embedder\<close>

text \<open>\<open>state >> 32\<close> is below \<open>2 ^ 32\<close>; the subtraction of one is the addition of minus one.\<close>

fun mock_floats :: "nat \<Rightarrow> nat \<Rightarrow> 64 word \<Rightarrow> string \<Rightarrow> f32 list \<Rightarrow> f32 list" where
  "mock_floats dims i st [] floats = floats"
| "mock_floats dims i st (b # bs) floats =
     (let st = st * 0x9E3779B97F4A7C15 + of_nat (of_char b) + of_nat i;
          idx = unat st mod dims;
          v = f32_add (f32_mul (f32_div (f32_of_nat (unat st div 2 ^ 32)) (f32_of_nat (2 ^ 32 - 1))) 0x40000000) 0xBF800000
      in mock_floats dims (i + 1) st bs (floats[idx := f32_add (floats ! idx) v]))"

definition vector_for :: "nat \<Rightarrow> 64 word \<Rightarrow> string \<Rightarrow> (infer_error, f16 list) res" where
  "vector_for dims seed t =
     (if dims = 0 \<and> t \<noteq> [] then Inl (Panic ''attempt to calculate the remainder with a divisor of zero'')
      else let floats = mock_floats dims 0 seed t (replicate dims f32_zero)
      in if list_all f32_is_zero floats \<and> dims = 0 then Inl (Panic ''index out of bounds'')
         else bind_res (l2_normalize_rows (if list_all f32_is_zero floats then floats[0 := f32_one] else floats) dims) (\<lambda>fs.
           Inr (map f16_from_f32 fs)))"

definition mock_embedder :: "nat \<Rightarrow> string \<Rightarrow> nat \<Rightarrow> embedder" where
  "mock_embedder dims model_id max_batch = \<lparr>eb_model_id = model_id, eb_dims = dims,
     eb_embed = (\<lambda>texts rl. embed_with_batch_limit texts rl max_batch (\<lambda>c _.
       map_res (\<lambda>t. bind_res (vector_for dims 0xC0FFEE t) (\<lambda>v. Inr \<lparr>em_vector = v, em_truncated = False\<rparr>)) c))\<rparr>"

end
