(* ===== verification/Inference_Props.thy ===== *)
theory Inference_Props
  imports Inference Pipeline_Sync
begin

text \<open>
  Batching and padding do not change embeddings. The layout lemmas read the flat buffers of a batch as rows of token vectors; on rows,
  pooling is a function of the unmasked vectors, so that the padding of a batch and its other texts drop out.
\<close>

section \<open>Batches\<close>

lemma list_chunks_step: "0 < n \<Longrightarrow> xs \<noteq> [] \<Longrightarrow> list_chunks n xs = take n xs # list_chunks n (drop n xs)"
  by (simp add: list_chunks.simps [of n xs])

lemma list_chunks_concat: "0 < n \<Longrightarrow> concat (list_chunks n xs) = xs"
  by (induction n xs rule: list_chunks.induct) (simp add: list_chunks.simps)

lemma list_chunks_sub: "c \<in> set (list_chunks n xs) \<Longrightarrow> set c \<subseteq> set xs \<and> c \<noteq> []"
proof (induction n xs rule: list_chunks.induct)
  case (1 n xs)
  then show ?case
    by (subst (asm) (2) list_chunks.simps) (auto split: if_splits dest: in_set_takeD in_set_dropD)
qed

lemma embed_batches:
  assumes "0 < n" "\<And>c. c \<noteq> [] \<Longrightarrow> set c \<subseteq> set texts \<Longrightarrow> g c rl = Inr (map E c)"
  shows "embed_with_batch_limit texts rl n g = Inr (map E texts)"
proof -
  have "map_res (\<lambda>c. g c rl) (list_chunks n texts) = Inr (map (map E) (list_chunks n texts))"
    by (rule map_res_Inr) (use list_chunks_sub assms(2) in blast)
  then show ?thesis using assms(1) by (simp add: embed_with_batch_limit_def map_concat [symmetric] list_chunks_concat)
qed

section \<open>Layout\<close>

lemma length_concat_uniform: "list_all (\<lambda>x. length x = n) xss \<Longrightarrow> length (concat xss) = length xss * n"
  by (induction xss) auto

lemma nth_concat_uniform:
  "list_all (\<lambda>x. length x = n) xss \<Longrightarrow> i < length xss \<Longrightarrow> j < n \<Longrightarrow> concat xss ! (i * n + j) = xss ! i ! j"
proof (induction xss arbitrary: i)
  case (Cons x xss)
  then show ?case by (cases i) (auto simp: nth_append algebra_simps)
qed simp

lemma slice_concat_uniform:
  "list_all (\<lambda>x. length x = n) xss \<Longrightarrow> i < length xss \<Longrightarrow> take n (drop (i * n) (concat xss)) = xss ! i"
proof (induction xss arbitrary: i)
  case (Cons x xss)
  then show ?case by (cases i) (auto simp: drop_append)
qed simp

lemma index_bound: "i < (m :: nat) \<Longrightarrow> j < n \<Longrightarrow> i * n + j < m * n"
  by (metis add.commute add_lessD1 less_le_trans mult.commute mult_le_mono2 mult_Suc_right nat_add_left_cancel_less Suc_leI)

lemma elem_at_uniform:
  "list_all (\<lambda>x. length x = n) xss \<Longrightarrow> i < length xss \<Longrightarrow> j < n \<Longrightarrow> elem_at (concat xss) (i * n + j) = Inr (xss ! i ! j)"
  by (simp add: elem_at_def length_concat_uniform nth_concat_uniform index_bound)

lemma row_slice_uniform:
  assumes "list_all (\<lambda>x. length x = n) xss" "i < length xss"
  shows "row_slice (concat xss) (i * n) n = Inr (xss ! i)"
proof -
  have "i * n + n \<le> length xss * n" using assms(2) by (metis add.commute mult_Suc mult_le_mono1 Suc_leI)
  then show ?thesis using assms by (simp add: row_slice_def length_concat_uniform slice_concat_uniform)
qed

definition vec_add :: "f32 list \<Rightarrow> f32 list \<Rightarrow> f32 list" where
  "vec_add u v = map2 f32_add u v"

lemma length_vec_add [simp]: "length (vec_add u v) = min (length u) (length v)"
  by (simp add: vec_add_def)

lemma add_token_uniform:
  assumes "list_all (\<lambda>x. length x = length u) V" "k < length V"
  shows "add_token (concat V) (k * length u) u = Inr (vec_add u (V ! k))"
proof -
  have "map_res (\<lambda>d. bind_res (elem_at (concat V) (k * length u + d)) (\<lambda>v. Inr (f32_add (u ! d) v))) [0..<length u] =
      Inr (map (\<lambda>d. f32_add (u ! d) (V ! k ! d)) [0..<length u])"
    by (rule map_res_Inr) (simp add: elem_at_uniform [OF assms])
  moreover have "map (\<lambda>d. f32_add (u ! d) (V ! k ! d)) [0..<length u] = vec_add u (V ! k)"
    using assms by (intro nth_equalityI) (auto simp: vec_add_def list_all_length)
  ultimately show ?thesis by (simp add: add_token_def)
qed

section \<open>Pooling a row\<close>

definition unmasked :: "nat list \<Rightarrow> 'a list \<Rightarrow> 'a list" where
  "unmasked ms xs = map snd (filter (\<lambda>p. fst p \<noteq> 0) (zip ms xs))"

lemma unmasked_map: "unmasked ms (map g xs) = map g (unmasked ms xs)"
  by (simp add: unmasked_def zip_map2 filter_map comp_def case_prod_beta)

lemma unmasked_positions:
  "length ms = n \<Longrightarrow> length xs = n \<Longrightarrow> unmasked ms xs = map ((!) xs) (filter (\<lambda>s. ms ! s \<noteq> 0) [0..<n])"
proof -
  assume n: "length ms = n" "length xs = n"
  then have "zip ms xs = map (\<lambda>s. (ms ! s, xs ! s)) [0..<n]" by (intro nth_equalityI) auto
  then show ?thesis by (simp add: unmasked_def filter_map comp_def)
qed

lemma unmasked_padded:
  assumes "length xs = n"
  shows "unmasked (replicate n 1 @ replicate k 0) (xs @ ys) = xs" "length ys = k \<Longrightarrow> unmasked (replicate k 0 @ replicate n 1) (ys @ xs) = xs"
proof -
  have one: "unmasked (replicate (length us) (Suc 0)) us = us" for us :: "'a list"
    by (induction us) (simp_all add: unmasked_def)
  have none: "unmasked (replicate j 0) us = []" for us :: "'a list" and j
    by (auto simp: unmasked_def filter_empty_conv dest!: set_zip_leftD)
  have app: "unmasked (as @ bs) (us @ vs) = unmasked as us @ unmasked bs vs" if "length as = length us" for as bs and us vs :: "'a list"
    using that by (simp add: unmasked_def)
  show "unmasked (replicate n 1 @ replicate k 0) (xs @ ys) = xs" using assms one [of xs] by (simp add: app none)
  show "length ys = k \<Longrightarrow> unmasked (replicate k 0 @ replicate n 1) (ys @ xs) = xs" using assms one [of xs] by (simp add: app none)
qed

lemma sum_tokens_uniform:
  assumes M: "list_all (\<lambda>x. length x = seq) M" "b < length M"
    and V: "list_all (\<lambda>x. length x = dims) V" "length V = length M * seq"
  shows "set ss \<subseteq> {..<seq} \<Longrightarrow> length u = dims \<Longrightarrow> sum_tokens True (concat V) (concat M) b seq dims ss u cnt =
     (let ps = filter (\<lambda>s. M ! b ! s \<noteq> 0) ss in Inr (foldl vec_add u (map (\<lambda>s. V ! (b * seq + s)) ps), cnt + length ps))"
proof (induction ss arbitrary: u cnt)
  case (Cons s ss)
  then have s: "s < seq" by simp
  then have k: "b * seq + s < length V" using M(2) V(2) by (simp add: index_bound)
  have "length (V ! (b * seq + s)) = dims" using V(1) k by (simp add: list_all_length)
  then show ?case
    using Cons s add_token_uniform [of u V "b * seq + s"] V(1) k by (simp add: elem_at_uniform [OF M s] Let_def)
qed simp

lemma last_unmasked_uniform:
  assumes M: "list_all (\<lambda>x. length x = seq) M" "b < length M"
  shows "set ss \<subseteq> {..<seq} \<Longrightarrow> last_unmasked (concat M) b seq ss i =
     Inr (let ps = filter (\<lambda>s. M ! b ! s \<noteq> 0) ss in if ps = [] then i else Some (last ps))"
  by (induction ss arbitrary: i) (auto simp: elem_at_uniform [OF M] Let_def)

text \<open>What the real tokens of a text are pooled to.\<close>

definition pooled :: "pooling \<Rightarrow> nat \<Rightarrow> f32 list list \<Rightarrow> f32 list" where
  "pooled strategy dims toks = (case strategy of
     Mean \<Rightarrow> scale_row (length toks) (foldl vec_add (replicate dims f32_zero) toks)
   | LastToken \<Rightarrow> last toks
   | Cls \<Rightarrow> hd toks)"

lemma pool_row_uniform:
  assumes M: "list_all (\<lambda>x. length x = seq) M" "b < length M"
    and H: "length H = length M" "list_all (\<lambda>h. length h = seq) H" "list_all (list_all (\<lambda>v. length v = dims)) H"
    and toks: "unmasked (M ! b) (H ! b) = toks" "toks \<noteq> []" "strategy = Cls \<Longrightarrow> hd (H ! b) = hd toks"
  shows "pool_row strategy (concat (concat H)) (concat M) b seq dims = Inr (pooled strategy dims toks)"
proof -
  have V: "list_all (\<lambda>x. length x = dims) (concat H)" "length (concat H) = length M * seq"
    using H(3) length_concat_uniform [OF H(2)] H(1) by (auto simp: list_all_iff)
  have b: "length (M ! b) = seq" "length (H ! b) = seq" "b < length H" using M H by (auto simp: list_all_length)
  define ps where "ps = filter (\<lambda>s. 0 < M ! b ! s) [0..<seq]"
  have nth: "concat H ! (b * seq + s) = H ! b ! s" if "s < seq" for s
    using nth_concat_uniform [OF H(2) b(3) that] .
  have "map (\<lambda>s. concat H ! (b * seq + s)) ps = map ((!) (H ! b)) ps" using nth by (simp add: ps_def)
  then have rs: "map (\<lambda>s. concat H ! (b * seq + s)) ps = toks" "length ps = length toks"
    using toks(1) unmasked_positions [OF b(1,2)] by (auto simp: ps_def)
  then have "ps \<noteq> []" using toks(2) by auto
  then have ls: "last ps < seq" using last_in_set [of ps] by (auto simp: ps_def)
  have lr: "concat H ! (b * seq + last ps) = last toks" using rs(1) \<open>ps \<noteq> []\<close> by (metis last_map)
  have seq: "0 < seq" using ls by simp
  show ?thesis
  proof (cases strategy)
    case Mean
    then show ?thesis
      using sum_tokens_uniform [OF M V, of "[0..<seq]" "replicate dims f32_zero" 0] rs toks(2)
      by (simp add: pool_row_def pool_mean_def pooled_def Let_def atLeast0LessThan flip: ps_def)
  next
    case LastToken
    have k: "b * seq + last ps < length (concat H)" using M(2) ls V(2) by (simp add: index_bound)
    show ?thesis
      using LastToken last_unmasked_uniform [OF M, of "[0..<seq]" None] \<open>ps \<noteq> []\<close> row_slice_uniform [OF V(1) k] lr
      by (simp add: pool_row_def pooled_def Let_def atLeast0LessThan flip: ps_def)
  next
    case Cls
    have k: "b * seq < length (concat H)" using index_bound [OF M(2) seq] V(2) by simp
    have "concat H ! (b * seq) = hd toks" using nth [OF seq] toks(3) [OF Cls] b(2) seq hd_conv_nth [of "H ! b"] by fastforce
    then show ?thesis using Cls row_slice_uniform [OF V(1) k] by (simp add: pool_row_def pooled_def)
  qed
qed

section \<open>A batch\<close>

text \<open>
  What is relied on of the model: given the ids and masks of some rows, it returns hidden states of the right shape, and the states at
  the unmasked positions of a row are a function \<open>f\<close> of the unmasked ids of that row.
\<close>

definition session_masks :: "onnx_session \<Rightarrow> nat \<Rightarrow> (nat list \<Rightarrow> f16 list list) \<Rightarrow> bool" where
  "session_masks S dims f \<longleftrightarrow> (\<forall>rows seq. rows \<noteq> [] \<longrightarrow> list_all (\<lambda>(ids, ms). length ids = seq \<and> length ms = seq) rows \<longrightarrow>
     (\<exists>H. os_run S (length rows) seq (concat (map fst rows)) (concat (map snd rows)) = Inr ([length rows, seq, dims], concat (concat H)) \<and>
        length H = length rows \<and> list_all (\<lambda>h. length h = seq \<and> list_all (\<lambda>v. length v = dims) h) H \<and>
        (\<forall>b < length rows. unmasked (snd (rows ! b)) (H ! b) = f (unmasked (snd (rows ! b)) (fst (rows ! b))))))"

definition encodes :: "tokenizer \<Rightarrow> model_metadata \<Rightarrow> role \<Rightarrow> string \<Rightarrow> bool" where
  "encodes tk md rl t \<longleftrightarrow> (\<exists>ids tr. encode_unpadded tk md t rl = Inr (ids, tr) \<and> ids \<noteq> [] \<and> length ids \<le> md_max_sequence_length md)"

definition normalized :: "model_metadata \<Rightarrow> f32 list \<Rightarrow> f32 list" where
  "normalized md v = (if md_normalize md = L2 then l2_row v else v)"

definition token_ids :: "tokenizer \<Rightarrow> model_metadata \<Rightarrow> role \<Rightarrow> string \<Rightarrow> nat list \<times> bool" where
  "token_ids tk md rl t = projr (encode_unpadded tk md t rl)"

definition text_embedding :: "tokenizer \<Rightarrow> model_metadata \<Rightarrow> (nat list \<Rightarrow> f16 list list) \<Rightarrow> role \<Rightarrow> string \<Rightarrow> embedding" where
  "text_embedding tk md f rl t = (case token_ids tk md rl t of (ids, tr) \<Rightarrow>
     \<lparr>em_vector = map f16_from_f32 (normalized md (pooled (md_pooling md) (md_dims md) (map (map f16_to_f32) (f ids)))),
      em_truncated = tr\<rparr>)"

lemma encodesD:
  assumes "encodes tk md rl t"
  shows "encode_unpadded tk md t rl = Inr (token_ids tk md rl t)" "fst (token_ids tk md rl t) \<noteq> []"
    "length (fst (token_ids tk md rl t)) \<le> md_max_sequence_length md"
  using assms by (auto simp: encodes_def token_ids_def)

lemma foldl_max_bound:
  "m \<le> foldl (\<lambda>m (ids, _). max m (min (length ids) k)) m xs \<and>
   (\<forall>x \<in> set xs. min (length (fst x)) k \<le> foldl (\<lambda>m (ids, _). max m (min (length ids) k)) m xs)"
proof (induction xs arbitrary: m)
  case (Cons x xs)
  show ?case using Cons [of "max m (min (length (fst x)) k)"] by (cases x) auto
qed simp

text \<open>A padded input: all rows have the length of the batch, the unmasked ids are the ids, and on the right they come first.\<close>

lemma pad_input_masks:
  assumes "length ids \<le> k" "length ids \<le> n" "x = pad_input lp pad k n (ids, tr)"
  shows "length (ei_input_ids x) = n" "length (ei_attention_mask x) = n" "ei_truncated x = tr"
    "unmasked (ei_attention_mask x) (ei_input_ids x) = ids"
    "\<not> lp \<Longrightarrow> length h = n \<Longrightarrow> ids \<noteq> [] \<Longrightarrow> hd (unmasked (ei_attention_mask x) h) = hd h"
proof -
  show "length (ei_input_ids x) = n" "length (ei_attention_mask x) = n" "ei_truncated x = tr"
    using assms by (auto simp: pad_input_def Let_def)
  show "unmasked (ei_attention_mask x) (ei_input_ids x) = ids"
    using assms unmasked_padded(1) [of ids "length ids" "n - length ids" "replicate (n - length ids) pad"]
      unmasked_padded(2) [of ids "length ids" "replicate (n - length ids) pad" "n - length ids"]
    by (simp add: pad_input_def Let_def)
  show "hd (unmasked (ei_attention_mask x) h) = hd h" if "\<not> lp" "length h = n" "ids \<noteq> []"
  proof -
    have "unmasked (replicate (length ids) 1 @ replicate (n - length ids) 0) (take (length ids) h @ drop (length ids) h) = take (length ids) h"
      using unmasked_padded(1) [of "take (length ids) h" "length ids" "n - length ids" "drop (length ids) h"] assms(2) that(2) by simp
    then show ?thesis using assms that by (simp add: pad_input_def Let_def hd_take)
  qed
qed

lemma pool_batch:
  assumes M: "list_all (\<lambda>x. length x = seq) M"
    and H: "length H = length M" "list_all (\<lambda>h. length h = seq) H" "list_all (list_all (\<lambda>v. length v = dims)) H"
    and toks: "\<And>b. b < length M \<Longrightarrow> unmasked (M ! b) (H ! b) = g b \<and> g b \<noteq> [] \<and> (strategy = Cls \<longrightarrow> hd (H ! b) = hd (g b))"
  shows "pool (concat (concat H)) (concat M) (length M) seq dims strategy = Inr (concat (map (\<lambda>b. pooled strategy dims (g b)) [0..<length M]))"
proof -
  have "map_res (\<lambda>b. pool_row strategy (concat (concat H)) (concat M) b seq dims) [0..<length M] =
      Inr (map (\<lambda>b. pooled strategy dims (g b)) [0..<length M])"
    by (rule map_res_Inr) (use pool_row_uniform [OF M _ H] toks in auto)
  then show ?thesis by (simp add: pool_def)
qed

lemma foldl_vec_add_length: "length u = d \<Longrightarrow> list_all (\<lambda>v. length v = d) vs \<Longrightarrow> length (foldl vec_add u vs) = d"
  by (induction vs arbitrary: u) auto

lemma length_pooled: "list_all (\<lambda>v. length v = dims) vs \<Longrightarrow> vs \<noteq> [] \<Longrightarrow> length (pooled strategy dims vs) = dims"
  by (cases strategy) (auto simp: pooled_def scale_row_def foldl_vec_add_length list_all_iff)

lemma length_l2_row [simp]: "length (l2_row v) = length v"
  by (simp add: l2_row_def Let_def)

lemma l2_rows:
  assumes "list_all (\<lambda>v. length v = dims) vs" "0 < dims"
  shows "l2_normalize_rows (concat vs) dims = Inr (concat (map l2_row vs))"
proof -
  have "map (\<lambda>r. l2_row (take dims (drop (r * dims) (concat vs)))) [0..<length vs] = map l2_row vs"
    using slice_concat_uniform [OF assms(1)] by (intro nth_equalityI) auto
  then show ?thesis using assms(2) length_concat_uniform [OF assms(1)] by (simp add: l2_normalize_rows_def)
qed

lemma normalize_rows:
  assumes "list_all (\<lambda>v. length v = md_dims md) vs" "0 < md_dims md"
  shows "(if md_normalize md = L2 then l2_normalize_rows (concat vs) (md_dims md) else Inr (concat vs)) =
    Inr (concat (map (normalized md) vs))"
  using l2_rows [OF assms] by (simp add: normalized_def [abs_def])

lemma map_res_enumerate_map:
  assumes "\<And>i. i < length xs \<Longrightarrow> f (i, h (xs ! i)) = Inr (g (xs ! i))"
  shows "map_res f (enumerate 0 (map h xs)) = Inr (map g xs)"
proof -
  have "map_res f (enumerate 0 (map h xs)) = Inr (map (\<lambda>p. g (xs ! fst p)) (enumerate 0 (map h xs)))"
    by (rule map_res_Inr) (auto simp: in_set_enumerate_eq assms)
  moreover have "map (\<lambda>p. g (xs ! fst p)) (enumerate 0 (map h xs)) = map g xs"
    by (intro nth_equalityI) (auto simp: nth_enumerate_eq)
  ultimately show ?thesis by simp
qed

text \<open>One input of a batch whose longest input has \<open>n\<close> tokens.\<close>

definition padded_text :: "tokenizer \<Rightarrow> model_metadata \<Rightarrow> nat \<Rightarrow> nat list \<times> bool \<Rightarrow> encoded_input" where
  "padded_text tk md n = pad_input (md_pooling md = LastToken) (pad_token_id tk) (md_max_sequence_length md) n"

lemma padded_text_masks:
  assumes "encodes tk md rl t" "length (fst (token_ids tk md rl t)) \<le> n" "x = padded_text tk md n (token_ids tk md rl t)"
  shows "length (ei_input_ids x) = n" "length (ei_attention_mask x) = n" "ei_truncated x = snd (token_ids tk md rl t)"
    "unmasked (ei_attention_mask x) (ei_input_ids x) = fst (token_ids tk md rl t)"
    "md_pooling md \<noteq> LastToken \<Longrightarrow> length h = n \<Longrightarrow> hd (unmasked (ei_attention_mask x) h) = hd h"
proof -
  have x: "x = pad_input (md_pooling md = LastToken) (pad_token_id tk) (md_max_sequence_length md) n
      (fst (token_ids tk md rl t), snd (token_ids tk md rl t))" using assms(3) by (simp add: padded_text_def)
  note m = pad_input_masks [OF encodesD(3) [OF assms(1)] assms(2) x]
  show "length (ei_input_ids x) = n" "length (ei_attention_mask x) = n" "ei_truncated x = snd (token_ids tk md rl t)"
    "unmasked (ei_attention_mask x) (ei_input_ids x) = fst (token_ids tk md rl t)" by (rule m)+
  show "hd (unmasked (ei_attention_mask x) h) = hd h" if "md_pooling md \<noteq> LastToken" "length h = n"
    using m(5) [OF that(1,2)] encodesD(2) [OF assms(1)] by simp
qed

lemma length_unmasked: "length xs = length ms \<Longrightarrow> length (unmasked ms xs) = length (filter (\<lambda>m. m \<noteq> 0) ms)"
  by (induction xs ms rule: list_induct2) (auto simp: unmasked_def)

lemma set_unmasked: "set (unmasked ms xs) \<subseteq> set xs"
  by (auto simp: unmasked_def dest: set_zip_rightD)

lemma encode_batch:
  assumes "list_all (encodes tk md rl) texts"
  obtains n where "\<forall>t \<in> set texts. length (fst (token_ids tk md rl t)) \<le> n"
    "encode_batch_padded tk md texts rl = Inr (map (\<lambda>t. padded_text tk md n (token_ids tk md rl t)) texts)"
proof -
  let ?k = "md_max_sequence_length md" and ?ts = "map (token_ids tk md rl) texts"
  define n where "n = foldl (\<lambda>m (ids, _). max m (min (length ids) ?k)) 0 ?ts"
  have "map_res (\<lambda>t. encode_unpadded tk md t rl) texts = Inr ?ts"
    by (rule map_res_Inr) (use assms(1) encodesD(1) in \<open>auto simp: list_all_iff\<close>)
  then have enc: "encode_batch_padded tk md texts rl =
      Inr (map (\<lambda>t. padded_text tk md n (token_ids tk md rl t)) texts)"
    by (simp add: encode_batch_padded_def padded_text_def Let_def comp_def flip: n_def)
  have le: "length (fst (token_ids tk md rl t)) \<le> n" if "t \<in> set texts" for t
    using that foldl_max_bound [of 0 ?k ?ts] encodesD(3) [of tk md rl t] assms(1) by (auto simp: n_def list_all_iff)
  then show ?thesis using that enc by blast
qed

text \<open>What the session returns for a batch: rows of token vectors whose unmasked ones are the text's own.\<close>

lemma batch_hidden:
  assumes "session_masks S dims f" "list_all (encodes tk md rl) texts" "texts \<noteq> []"
    "\<And>t. t \<in> set texts \<Longrightarrow> length (fst (token_ids tk md rl t)) \<le> n"
  obtains H where "os_run S (length texts) n (concat (map (\<lambda>t. ei_input_ids (padded_text tk md n (token_ids tk md rl t))) texts))
      (concat (map (\<lambda>t. ei_attention_mask (padded_text tk md n (token_ids tk md rl t))) texts)) = Inr ([length texts, n, dims], concat (concat H))"
    "length H = length texts" "list_all (\<lambda>h. length h = n) H" "list_all (list_all (\<lambda>v. length v = dims)) H"
    "\<And>b. b < length texts \<Longrightarrow> unmasked (ei_attention_mask (padded_text tk md n (token_ids tk md rl (texts ! b)))) (H ! b) =
      f (fst (token_ids tk md rl (texts ! b)))"
proof -
  define P where "P t = padded_text tk md n (token_ids tk md rl t)" for t
  have P: "length (ei_input_ids (P t)) = n" "length (ei_attention_mask (P t)) = n"
    "unmasked (ei_attention_mask (P t)) (ei_input_ids (P t)) = fst (token_ids tk md rl t)" if "t \<in> set texts" for t
    using that padded_text_masks(1,2,4) [of tk md rl t n "P t"] assms(2,4) by (auto simp: P_def list_all_iff)
  let ?rows = "map (\<lambda>t. (ei_input_ids (P t), ei_attention_mask (P t))) texts"
  have rows: "?rows \<noteq> []" "list_all (\<lambda>(ids, ms). length ids = n \<and> length ms = n) ?rows" using assms(3) P by (auto simp: list_all_iff)
  obtain H where "os_run S (length ?rows) n (concat (map fst ?rows)) (concat (map snd ?rows)) = Inr ([length ?rows, n, dims], concat (concat H))"
    and H: "length H = length ?rows" "list_all (\<lambda>h. length h = n \<and> list_all (\<lambda>v. length v = dims) h) H"
    and fH: "\<forall>b < length ?rows. unmasked (snd (?rows ! b)) (H ! b) = f (unmasked (snd (?rows ! b)) (fst (?rows ! b)))"
    using assms(1) [unfolded session_masks_def, rule_format, OF rows] by blast
  moreover have "unmasked (ei_attention_mask (P (texts ! b))) (H ! b) = f (fst (token_ids tk md rl (texts ! b)))" if "b < length texts" for b
    using fH that P(3) [of "texts ! b"] by simp
  ultimately show ?thesis using that [of H] by (simp add: P_def comp_def list_all_iff)
qed

lemma text_tokens:
  assumes "session_masks S dims f" "encodes tk md rl t"
  shows "f (fst (token_ids tk md rl t)) \<noteq> [] \<and> list_all (\<lambda>v. length v = dims) (f (fst (token_ids tk md rl t)))"
proof -
  let ?ids = "fst (token_ids tk md rl t)"
  let ?x = "padded_text tk md (length ?ids) (token_ids tk md rl t)"
  obtain H where H: "length H = length [t]" "list_all (\<lambda>h. length h = length ?ids) H" "list_all (list_all (\<lambda>v. length v = dims)) H"
    "\<And>b. b < length [t] \<Longrightarrow> unmasked (ei_attention_mask (padded_text tk md (length ?ids) (token_ids tk md rl ([t] ! b)))) (H ! b) = f (fst (token_ids tk md rl ([t] ! b)))"
    by (rule batch_hidden [OF assms(1), of tk md rl "[t]" "length ?ids"]) (use assms(2) in auto)
  have x: "length (ei_attention_mask ?x) = length ?ids" "unmasked (ei_attention_mask ?x) (ei_input_ids ?x) = ?ids" "length (ei_input_ids ?x) = length ?ids"
    using padded_text_masks(1,2,4) [OF assms(2) order_refl refl] by simp_all
  have h: "unmasked (ei_attention_mask ?x) (H ! 0) = f ?ids" "length (H ! 0) = length ?ids" "H ! 0 \<in> set H"
    using H by (auto simp: list_all_length)
  have "length (f ?ids) = length ?ids"
    using length_unmasked [of "H ! 0" "ei_attention_mask ?x"] length_unmasked [of "ei_input_ids ?x" "ei_attention_mask ?x"] h x by simp
  moreover have "list_all (\<lambda>v. length v = dims) (f ?ids)"
    using H(3) h set_unmasked [of "ei_attention_mask ?x" "H ! 0"] by (fastforce simp: list_all_iff)
  ultimately show ?thesis using encodesD(2) [OF assms(2)] by force
qed

section \<open>Embeddings\<close>

definition text_vectors :: "tokenizer \<Rightarrow> model_metadata \<Rightarrow> (nat list \<Rightarrow> f16 list list) \<Rightarrow> role \<Rightarrow> string \<Rightarrow> f32 list list" where
  "text_vectors tk md f rl t = map (map f16_to_f32) (f (fst (token_ids tk md rl t)))"

lemma text_vectors_ok:
  assumes "session_masks S dims f" "encodes tk md rl t"
  shows "text_vectors tk md f rl t \<noteq> []" "list_all (\<lambda>v. length v = dims) (text_vectors tk md f rl t)"
  using text_tokens [OF assms] by (auto simp: text_vectors_def list_all_iff)

lemma text_embedding_alt:
  "text_embedding tk md f rl t = \<lparr>em_vector = map f16_from_f32 (normalized md (pooled (md_pooling md) (md_dims md) (text_vectors tk md f rl t))),
     em_truncated = snd (token_ids tk md rl t)\<rparr>"
  by (simp add: text_embedding_def text_vectors_def case_prod_beta)

lemma pool_texts:
  assumes S: "session_masks S dims f" and enc: "list_all (encodes tk md rl) texts" and ne: "texts \<noteq> []"
    and n: "\<forall>t \<in> set texts. length (fst (token_ids tk md rl t)) \<le> n" and P: "P = (\<lambda>t. padded_text tk md n (token_ids tk md rl t))"
  obtains hid where
    "os_run S (length texts) n (concat (map (\<lambda>t. ei_input_ids (P t)) texts)) (concat (map (\<lambda>t. ei_attention_mask (P t)) texts)) =
       Inr ([length texts, n, dims], hid)"
    "pool (map f16_to_f32 hid) (concat (map (\<lambda>t. ei_attention_mask (P t)) texts)) (length texts) n dims (md_pooling md) =
       Inr (concat (map (\<lambda>t. pooled (md_pooling md) dims (text_vectors tk md f rl t)) texts))"
proof -
  let ?M = "map (\<lambda>t. ei_attention_mask (P t)) texts"
  obtain H where run: "os_run S (length texts) n (concat (map (\<lambda>t. ei_input_ids (P t)) texts)) (concat ?M) = Inr ([length texts, n, dims], concat (concat H))"
    and H: "length H = length texts" "list_all (\<lambda>h. length h = n) H" "list_all (list_all (\<lambda>v. length v = dims)) H"
    and un: "\<And>b. b < length texts \<Longrightarrow> unmasked (ei_attention_mask (P (texts ! b))) (H ! b) = f (fst (token_ids tk md rl (texts ! b)))"
    using batch_hidden [OF S enc ne] n unfolding P by blast
  let ?H = "map (map (map f16_to_f32)) H" and ?g = "text_vectors tk md f rl"
  have toks: "unmasked (?M ! b) (?H ! b) = ?g (texts ! b) \<and> ?g (texts ! b) \<noteq> [] \<and> (md_pooling md = Cls \<longrightarrow> hd (?H ! b) = hd (?g (texts ! b)))"
    if "b < length ?M" for b
  proof -
    have b: "b < length texts" "texts ! b \<in> set texts" "length (?H ! b) = n" using that H by (auto simp: list_all_length)
    have e: "encodes tk md rl (texts ! b)" "length (fst (token_ids tk md rl (texts ! b))) \<le> n" using enc n b(2) by (auto simp: list_all_iff)
    have u: "unmasked (?M ! b) (?H ! b) = ?g (texts ! b)" using un [OF b(1)] b(1) H(1) by (simp add: unmasked_map text_vectors_def)
    then show ?thesis
      using padded_text_masks(5) [OF e, of "P (texts ! b)" "?H ! b"] text_vectors_ok(1) [OF S e(1)] b(1,3) by (auto simp: P)
  qed
  have m: "list_all (\<lambda>x. length x = n) ?M"
    using enc n padded_text_masks(2) by (auto simp: list_all_iff P)
  have "pool (concat (concat ?H)) (concat ?M) (length ?M) n dims (md_pooling md) =
      Inr (concat (map (\<lambda>b. pooled (md_pooling md) dims (?g (texts ! b))) [0..<length ?M]))"
    by (rule pool_batch [OF m _ _ _ toks]) (use H in \<open>auto simp: list_all_iff\<close>)
  moreover have "map (\<lambda>b. pooled (md_pooling md) dims (?g (texts ! b))) [0..<length ?M] = map (\<lambda>t. pooled (md_pooling md) dims (?g t)) texts"
    by (intro nth_equalityI) auto
  ultimately show ?thesis using that [OF run] by (simp add: map_concat)
qed

lemma embed_batch_per_text:
  assumes S: "session_masks S (md_dims md) f" and d: "0 < md_dims md"
    and enc: "list_all (encodes tk md rl) texts" and ne: "texts \<noteq> []"
  shows "onnx_embed_batch tk md S dbg texts rl = Inr (map (text_embedding tk md f rl) texts)"
proof -
  let ?d = "md_dims md" and ?g = "text_vectors tk md f rl"
  obtain n where n: "\<forall>t \<in> set texts. length (fst (token_ids tk md rl t)) \<le> n"
    and ebp: "encode_batch_padded tk md texts rl = Inr (map (\<lambda>t. padded_text tk md n (token_ids tk md rl t)) texts)"
    by (rule encode_batch [OF enc])
  define P where "P = (\<lambda>t. padded_text tk md n (token_ids tk md rl t))"
  obtain hid where run: "os_run S (length texts) n (concat (map (\<lambda>t. ei_input_ids (P t)) texts)) (concat (map (\<lambda>t. ei_attention_mask (P t)) texts)) =
       Inr ([length texts, n, ?d], hid)"
    and pool: "pool (map f16_to_f32 hid) (concat (map (\<lambda>t. ei_attention_mask (P t)) texts)) (length texts) n ?d (md_pooling md) =
       Inr (concat (map (\<lambda>t. pooled (md_pooling md) ?d (?g t)) texts))"
    by (rule pool_texts [OF S enc ne n P_def])
  have P: "length (ei_input_ids (P t)) = n" "ei_truncated (P t) = snd (token_ids tk md rl t)" if "t \<in> set texts" for t
    using that padded_text_masks(1,3) [of tk md rl t n] enc n by (auto simp: list_all_iff P_def)
  let ?ps = "map (\<lambda>t. pooled (md_pooling md) ?d (?g t)) texts"
  have rows: "list_all (\<lambda>v. length v = ?d) ?ps"
    using enc text_vectors_ok [OF S] length_pooled by (auto simp: list_all_iff)
  then have rows': "list_all (\<lambda>v. length v = ?d) (map (normalized md) ?ps)" by (auto simp: list_all_iff normalized_def)
  have fin: "map_res (\<lambda>(i, enc). bind_res (row_slice (concat (map (normalized md) ?ps)) (i * ?d) ?d) (\<lambda>r.
      Inr \<lparr>em_vector = map f16_from_f32 r, em_truncated = ei_truncated enc\<rparr>)) (enumerate 0 (map P texts)) =
      Inr (map (text_embedding tk md f rl) texts)"
    by (rule map_res_enumerate_map) (use row_slice_uniform [OF rows'] P(2) in \<open>simp add: text_embedding_alt\<close>)
  have seq: "length (ei_input_ids (hd (map P texts))) = n" using ne P(1) by (cases texts) auto
  show ?thesis
    using ne ebp [folded P_def] run pool normalize_rows [OF rows d] fin seq
    by (simp add: onnx_embed_batch_def Let_def comp_def)
qed

lemma embed_per_text:
  assumes "session_masks S (md_dims md) f" "0 < md_dims md" "list_all (encodes tk md rl) texts"
  shows "eb_embed (onnx_embedder tk md S dbg max_batch) texts rl = Inr (map (text_embedding tk md f rl) texts)"
proof -
  have "embed_with_batch_limit texts rl (max 1 max_batch) (onnx_embed_batch tk md S dbg) = Inr (map (text_embedding tk md f rl) texts)"
  proof (rule embed_batches)
    fix c assume c: "c \<noteq> []" "set c \<subseteq> set texts"
    then have "list_all (encodes tk md rl) c" using assms(3) by (auto simp: list_all_iff)
    then show "onnx_embed_batch tk md S dbg c rl = Inr (map (text_embedding tk md f rl) c)"
      using embed_batch_per_text [OF assms(1,2)] c(1) by blast
  qed simp
  then show ?thesis by (simp add: onnx_embedder_def)
qed

lemma length_text_embedding:
  assumes "session_masks S (md_dims md) f" "encodes tk md rl t"
  shows "length (em_vector (text_embedding tk md f rl t)) = md_dims md"
  using text_vectors_ok [OF assms] length_pooled by (simp add: text_embedding_alt normalized_def)


text \<open>A tokenizer with one token per byte, and a model whose state at a position is its token id.\<close>

definition wit_tokenizer :: tokenizer where
  "wit_tokenizer = \<lparr>tk_encode = (\<lambda>t. Inr (1 # map of_char t)), tk_encode_truncated = (\<lambda>k t. Inr (take k (1 # map of_char t))),
     tk_padding = None, tk_token_to_id = (\<lambda>_. None)\<rparr>"

definition wit_metadata :: model_metadata where
  "wit_metadata = \<lparr>md_model_id = ''m'', md_dims = 2, md_max_sequence_length = 8, md_pooling = Mean, md_normalize = L2,
     md_query_prefix = Some ''q: '', md_document_prefix = None, md_onnx_sha256 = [], md_tokenizer_sha256 = []\<rparr>"

definition wit_session :: onnx_session where
  "wit_session = \<lparr>os_run = (\<lambda>batch seq ids msk. Inr ([batch, seq, 2], concat (map (\<lambda>i. [of_nat i, 0x3C00]) ids)))\<rparr>"

lemma wit_session_masks: "session_masks wit_session 2 (map (\<lambda>i. [of_nat i, 0x3C00]))"
  unfolding session_masks_def
proof (intro allI impI)
  fix rows :: "(nat list \<times> nat list) list" and seq
  assume "rows \<noteq> []" and rows: "list_all (\<lambda>(ids, ms). length ids = seq \<and> length ms = seq) rows"
  let ?H = "map (\<lambda>r. map (\<lambda>i. [of_nat i, 0x3C00]) (fst r)) rows :: f16 list list list"
  have "concat (concat ?H) = concat (map (\<lambda>i. [of_nat i, 0x3C00]) (concat (map fst rows)))" by (simp add: map_concat comp_def)
  then show "\<exists>H. os_run wit_session (length rows) seq (concat (map fst rows)) (concat (map snd rows)) = Inr ([length rows, seq, 2], concat (concat H)) \<and>
      length H = length rows \<and> list_all (\<lambda>h. length h = seq \<and> list_all (\<lambda>v. length v = 2) h) H \<and>
      (\<forall>b < length rows. unmasked (snd (rows ! b)) (H ! b) = map (\<lambda>i. [of_nat i, 0x3C00]) (unmasked (snd (rows ! b)) (fst (rows ! b))))"
    using rows by (intro exI [of _ ?H]) (auto simp: wit_session_def list_all_iff unmasked_map)
qed


section \<open>The contract of the pipeline\<close>

text \<open>What is relied on of the tokenizer library: an encoding is never empty, and a truncated one fits.\<close>

definition tokenizer_ok :: "tokenizer \<Rightarrow> model_metadata \<Rightarrow> bool" where
  "tokenizer_ok tk md \<longleftrightarrow> (\<forall>t ids. tk_encode tk t = Inr ids \<longrightarrow> ids \<noteq> []) \<and>
     (\<forall>t ids. tk_encode_truncated tk (md_max_sequence_length md) t = Inr ids \<longrightarrow> ids \<noteq> [] \<and> length ids \<le> md_max_sequence_length md)"

lemma encodes_or_raises:
  assumes "tokenizer_ok tk md"
  shows "encodes tk md rl t \<or> (\<exists>e. encode_unpadded tk md t rl = Inl (Raise e))"
  using assms by (auto simp: tokenizer_ok_def encodes_def encode_unpadded_def tokenizer_error_def Let_def split: sum.splits)

lemma map_res_raises:
  assumes "\<forall>x \<in> set xs. (\<exists>y. f x = Inr y) \<or> (\<exists>e. f x = Inl (Raise e))" "x \<in> set xs" "f x = Inl (Raise e)"
  shows "\<exists>e'. map_res f xs = Inl (Raise e')"
  using assms
proof (induction xs)
  case (Cons y ys)
  show ?case
  proof (cases "f y")
    case (Inr a)
    then have "x \<in> set ys" using Cons.prems(2,3) by auto
    then show ?thesis using Cons Inr by (auto simp: bind_res_def)
  next
    case (Inl b)
    then show ?thesis using Cons.prems(1) by (auto simp: bind_res_def)
  qed
qed simp

lemma embed_batch_ok:
  assumes "session_masks S (md_dims md) f" "0 < md_dims md" "tokenizer_ok tk md"
  shows "onnx_embed_batch tk md S dbg c rl = Inr (map (text_embedding tk md f rl) c) \<and> list_all (encodes tk md rl) c \<or>
    (\<exists>e. onnx_embed_batch tk md S dbg c rl = Inl (Raise e))"
proof (cases "list_all (encodes tk md rl) c")
  case True
  show ?thesis
  proof (cases "c = []")
    case False
    then show ?thesis using embed_batch_per_text [OF assms(1,2) True] True by blast
  qed (simp add: onnx_embed_batch_def)
next
  case False
  then obtain t where t: "t \<in> set c" "\<not> encodes tk md rl t" by (auto simp: list_all_iff)
  have each: "\<forall>x \<in> set c. (\<exists>y. encode_unpadded tk md x rl = Inr y) \<or> (\<exists>e. encode_unpadded tk md x rl = Inl (Raise e))"
    using encodes_or_raises [OF assms(3)] encodesD(1) by blast
  obtain e where "encode_unpadded tk md t rl = Inl (Raise e)" using encodes_or_raises [OF assms(3)] t(2) by blast
  from map_res_raises [where f = "\<lambda>t. encode_unpadded tk md t rl", OF each t(1) this]
  obtain e' where "map_res (\<lambda>t. encode_unpadded tk md t rl) c = Inl (Raise e')" by blast
  then have "onnx_embed_batch tk md S dbg c rl = Inl (Raise e')"
    using t(1) by (auto simp: onnx_embed_batch_def encode_batch_padded_def Let_def)
  then show ?thesis by blast
qed

text \<open>The ONNX embedder satisfies what the indexing pipeline and the frozen view rely on.\<close>

lemma onnx_embedder_ok:
  assumes "session_masks S (md_dims md) f" "0 < md_dims md" "md_dims md < 2 ^ 32" "tokenizer_ok tk md"
  shows "embedder_ok (onnx_embedder tk md S dbg max_batch)"
  unfolding embedder_ok_def
proof (intro allI)
  fix texts rl
  let ?E = "eb_embed (onnx_embedder tk md S dbg max_batch) texts rl"
  show "case ?E of Inr es \<Rightarrow> length es = length texts \<and> (\<forall>e \<in> set es. length (em_vector e) < 2 ^ 32)
    | Inl (Raise e) \<Rightarrow> True | Inl (Panic w) \<Rightarrow> False"
  proof (cases "list_all (encodes tk md rl) texts")
    case True
    then show ?thesis
      using embed_per_text [OF assms(1,2) True] length_text_embedding [OF assms(1)] assms(3) by (auto simp: list_all_iff)
  next
    case False
    let ?cs = "list_chunks (max 1 max_batch) texts"
    obtain t where t: "t \<in> set texts" "\<not> encodes tk md rl t" using False by (auto simp: list_all_iff)
    then have "t \<in> set (concat ?cs)" by (simp add: list_chunks_concat)
    then obtain c where c: "c \<in> set ?cs" "t \<in> set c" by auto
    then obtain e where "onnx_embed_batch tk md S dbg c rl = Inl (Raise e)"
      using embed_batch_ok [OF assms(1,2,4), of dbg c rl] t(2) by (auto simp: list_all_iff)
    moreover have "\<forall>c \<in> set ?cs. (\<exists>y. onnx_embed_batch tk md S dbg c rl = Inr y) \<or> (\<exists>e. onnx_embed_batch tk md S dbg c rl = Inl (Raise e))"
      using embed_batch_ok [OF assms(1,2,4)] by blast
    ultimately obtain e' where "map_res (\<lambda>c. onnx_embed_batch tk md S dbg c rl) ?cs = Inl (Raise e')"
      using map_res_raises [where f = "\<lambda>c. onnx_embed_batch tk md S dbg c rl", OF _ c(1)] by blast
    then show ?thesis by (simp add: onnx_embedder_def embed_with_batch_limit_def)
  qed
qed

end
