(* ===== verification/Artifacts.thy ===== *)
theory Artifacts
  imports Inference
begin

text \<open>
  Loading a model (\<open>artifacts.rs\<close>, \<open>ModelMetadata::from_json\<close> in \<open>metadata.rs\<close>, \<open>OnnxEmbedder::load\<close> in \<open>onnx.rs\<close>).
  A model directory is the map of its files to their contents, or to the error of
  reading them; SHA-256, JSON parsing, the tokenizer and session libraries are arguments.
\<close>

section \<open>Metadata\<close>

datatype json = JNull | JBool bool | JNumber string | JString string | JArray "json list" | JObject "(string \<times> json) list"

datatype metadata_error = MissingField string | UnknownPooling string | InvalidJson string

fun metadata_to_string :: "metadata_error \<Rightarrow> string" where
  "metadata_to_string (MissingField f) = ''missing or invalid field: '' @ f"
| "metadata_to_string (UnknownPooling p) = ''unknown pooling strategy: '' @ p"
| "metadata_to_string (InvalidJson e) = ''invalid metadata JSON: '' @ e"

definition json_get :: "string \<Rightarrow> json \<Rightarrow> json option" where
  "json_get key v = (case v of JObject kvs \<Rightarrow> map_of kvs key | _ \<Rightarrow> None)"

text \<open>\<open>from_str\<close> parses the text, \<open>from_value\<close> is the derived deserialization of the record.\<close>

definition metadata_from_json :: "(string \<Rightarrow> string + json) \<Rightarrow> (json \<Rightarrow> string + model_metadata) \<Rightarrow> string \<Rightarrow> metadata_error + model_metadata" where
  "metadata_from_json from_str from_value text = (case from_str text of
     Inl e \<Rightarrow> Inl (InvalidJson e)
   | Inr v \<Rightarrow>
       let deserialize = (case from_value v of
             Inl msg \<Rightarrow> Inl (if contains ''missing field'' msg then MissingField ''required field'' else InvalidJson msg)
           | Inr md \<Rightarrow> Inr md)
       in case json_get ''pooling'' v of
            None \<Rightarrow> deserialize
          | Some (JString p) \<Rightarrow> if p \<in> {''last_token'', ''mean'', ''cls''} then deserialize else Inl (UnknownPooling p)
          | Some _ \<Rightarrow> Inl (InvalidJson ''pooling must be a string''))"

section \<open>Artifacts\<close>

definition ONNX_NAME :: string where "ONNX_NAME = ''model.onnx''"
definition ONNX_DATA_NAME :: string where "ONNX_DATA_NAME = ''model.onnx.data''"
definition METADATA_NAME :: string where "METADATA_NAME = ''metadata.json''"
definition TOKENIZER_NAME :: string where "TOKENIZER_NAME = ''tokenizer.json''"

definition TOKENIZER_HASH_CANDIDATES :: "string list" where
  "TOKENIZER_HASH_CANDIDATES = [''tokenizer.json'', ''tokenizer_config.json'', ''special_tokens_map.json'', ''vocab.txt'', ''vocab.json'',
     ''merges.txt'', ''added_tokens.json'', ''tokenizer.model'']"

type_synonym model_files = "string \<Rightarrow> (string + bytes) option"

text \<open>Byte strings in the order of file names.\<close>

fun byte_less :: "string \<Rightarrow> string \<Rightarrow> bool" where
  "byte_less s [] = False"
| "byte_less [] (b # bs) = True"
| "byte_less (a # as) (b # bs) = ((of_char a :: nat) < of_char b \<or> a = b \<and> byte_less as bs)"

fun insert_name :: "string \<Rightarrow> string list \<Rightarrow> string list" where
  "insert_name n [] = [n]"
| "insert_name n (m # ms) = (if byte_less m n then m # insert_name n ms else n # m # ms)"

definition sort_names :: "string list \<Rightarrow> string list" where
  "sort_names ns = foldr insert_name ns []"

text \<open>What is hashed: for each file in order its name, a zero byte and its content.\<close>

fun digest_input :: "model_files \<Rightarrow> string list \<Rightarrow> (infer_error, bytes) res" where
  "digest_input files [] = Inr []"
| "digest_input files (n # ns) = (case files n of
     None \<Rightarrow> Inl (Raise (Runtime ''No such file or directory (os error 2)''))
   | Some (Inl e) \<Rightarrow> Inl (Raise (Runtime e))
   | Some (Inr content) \<Rightarrow> bind_res (digest_input files ns) (\<lambda>more. Inr (n @ [CHR 0x00] @ content @ more)))"

definition sha256_paths :: "(bytes \<Rightarrow> string) \<Rightarrow> model_files \<Rightarrow> string list \<Rightarrow> (infer_error, string) res" where
  "sha256_paths sha files names = bind_res (digest_input files (sort_names names)) (\<lambda>bs. Inr (sha bs))"

definition has_file :: "model_files \<Rightarrow> string \<Rightarrow> bool" where
  "has_file files n \<longleftrightarrow> files n \<noteq> None"

definition onnx_parts :: "model_files \<Rightarrow> string list" where
  "onnx_parts files = ONNX_NAME # (if has_file files ONNX_DATA_NAME then [ONNX_DATA_NAME] else [])"

definition check_hash :: "string \<Rightarrow> string \<Rightarrow> (infer_error, unit) res" where
  "check_hash expected got = (if got \<noteq> expected then Inl (Raise (ArtifactHashMismatch expected got)) else Inr ())"

definition verify_model_dir :: "(bytes \<Rightarrow> string) \<Rightarrow> (string \<Rightarrow> metadata_error + model_metadata) \<Rightarrow> string \<Rightarrow> model_files \<Rightarrow>
    (infer_error, model_metadata) res" where
  "verify_model_dir sha from_json model_dir files =
     (let missing = (\<lambda>n. Inl (Raise (ModelFilesMissing (model_dir @ ''/'' @ n))))
      in if \<not> has_file files METADATA_NAME then missing METADATA_NAME
         else case the (files METADATA_NAME) of
           Inl e \<Rightarrow> Inl (Raise (Runtime e))
         | Inr meta_json \<Rightarrow>
             if \<not> valid_utf8 meta_json then Inl (Raise (Runtime ''stream did not contain valid UTF-8''))
             else (case from_json meta_json of
             Inl e \<Rightarrow> Inl (Raise (Metadata (metadata_to_string e)))
           | Inr md \<Rightarrow>
               if \<not> has_file files ONNX_NAME then missing ONNX_NAME
               else if \<not> has_file files TOKENIZER_NAME then missing TOKENIZER_NAME
               else bind_res (sha256_paths sha files (onnx_parts files)) (\<lambda>onnx_hash.
                    bind_res (check_hash (md_onnx_sha256 md) onnx_hash) (\<lambda>_.
                    bind_res (sha256_paths sha files (filter (has_file files) TOKENIZER_HASH_CANDIDATES)) (\<lambda>tok_hash.
                    bind_res (check_hash (md_tokenizer_sha256 md) tok_hash) (\<lambda>_. Inr md))))))"

section \<open>Loading the embedder\<close>

text \<open>What the libraries return: the session builder, the registration of the device, the session of a graph, the tokenizer of a directory.\<close>

record onnx_libs =
  ol_builder :: "string + unit"
  ol_provider :: "string + unit"
  ol_commit :: "string + onnx_session"
  ol_tokenizer :: "string + tokenizer"

text \<open>The words looked for are the same after a lower-casing of ASCII letters only.\<close>

definition commit_error :: "string \<Rightarrow> infer_error" where
  "commit_error msg = (let low = to_ascii_lowercase msg in
     if contains ''cuda'' low \<or> contains ''gpu'' low \<or> contains ''provider'' low then GpuUnavailable msg else Runtime msg)"

definition raise_with :: "(string \<Rightarrow> infer_error) \<Rightarrow> string + 'a \<Rightarrow> (infer_error, 'a) res" where
  "raise_with f m = (case m of Inl e \<Rightarrow> Inl (Raise (f e)) | Inr a \<Rightarrow> Inr a)"

definition onnx_load :: "(bytes \<Rightarrow> string) \<Rightarrow> (string \<Rightarrow> metadata_error + model_metadata) \<Rightarrow> onnx_libs \<Rightarrow> (nat list \<Rightarrow> string) \<Rightarrow> string \<Rightarrow>
    model_files \<Rightarrow> nat \<Rightarrow> (infer_error, embedder) res" where
  "onnx_load sha from_json L dbg model_dir files max_batch =
     bind_res (verify_model_dir sha from_json model_dir files) (\<lambda>md.
     bind_res (raise_with Tokenizer (ol_tokenizer L)) (\<lambda>tk.
     bind_res (raise_with Runtime (ol_builder L)) (\<lambda>_.
     bind_res (raise_with GpuUnavailable (ol_provider L)) (\<lambda>_.
     bind_res (raise_with commit_error (ol_commit L)) (\<lambda>session.
     Inr (onnx_embedder tk md session dbg max_batch))))))"

section \<open>What loading keeps\<close>

text \<open>A loaded embedder comes from files whose digests are those of its metadata.\<close>

lemma onnx_load_verified:
  assumes "onnx_load sha from_json L dbg model_dir files max_batch = Inr e"
  shows "\<exists>md. verify_model_dir sha from_json model_dir files = Inr md \<and> eb_model_id e = md_model_id md \<and> eb_dims e = md_dims md \<and>
     sha256_paths sha files (onnx_parts files) = Inr (md_onnx_sha256 md) \<and>
     sha256_paths sha files (filter (has_file files) TOKENIZER_HASH_CANDIDATES) = Inr (md_tokenizer_sha256 md)"
  using assms
  by (auto simp: onnx_load_def verify_model_dir_def bind_res_Inr_conv check_hash_def onnx_embedder_def Let_def
      split: if_splits sum.splits)

text \<open>
  The hashed text has no lengths: a graph file that ends with the name and content of a data file has the digest of the two files,
  whatever the hash function.
\<close>

lemma digest_joins_files:
  assumes "files ONNX_NAME = Some (Inr a)" "files ONNX_DATA_NAME = Some (Inr b)"
  shows "sha256_paths sha files (onnx_parts files) =
     sha256_paths sha [ONNX_NAME \<mapsto> Inr (a @ ONNX_DATA_NAME @ [CHR 0x00] @ b)] (onnx_parts [ONNX_NAME \<mapsto> Inr (a @ ONNX_DATA_NAME @ [CHR 0x00] @ b)])"
proof -
  have "sort_names [ONNX_NAME, ONNX_DATA_NAME] = [ONNX_NAME, ONNX_DATA_NAME]" "sort_names [ONNX_NAME] = [ONNX_NAME]" "ONNX_DATA_NAME \<noteq> ONNX_NAME"
    by code_simp+
  then show ?thesis using assms by (simp add: sha256_paths_def onnx_parts_def has_file_def)
qed

end
