(* ===== verification/Device_Search.thy ===== *)
theory Device_Search
  imports Artifacts Dense
begin

text \<open>
  The scorer on the graphics device (\<open>CudaDenseScorer\<close> in \<open>crates/inference/src/dense.rs\<close>) and the dense index built over it (\<open>DenseIndex\<close> in
  \<open>crates/retrieval/src/dense.rs\<close> with the feature \<open>cuda\<close>). The device is a parameter: each call on it returns a value or a message. The device is
  given exactly the rows of the matrix, also after refreshes, and a search ranks the scores it returns as the CPU search ranks its own.
\<close>

section \<open>The device scorer\<close>

text \<open>The device: what opening it and its library, copying to and from it, allocating on it, copying on it and the matrix product return.\<close>

record cuda_device =
  dv_context :: "string option"
  dv_blas :: "string option"
  dv_upload :: "nat \<Rightarrow> string option"
  dv_alloc :: "nat \<Rightarrow> string option"
  dv_copy :: "nat \<Rightarrow> string option"
  dv_gemm :: "int \<Rightarrow> int \<Rightarrow> f16 list \<Rightarrow> f16 list \<Rightarrow> string + f32 list"
  dv_download :: "string option"

record cuda_scorer =
  cu_matrix :: "f16 list option"
  cu_rows :: nat
  cu_dims :: nat
  cu_uploaded_bytes :: nat

definition new_scorer :: cuda_scorer where
  "new_scorer = \<lparr>cu_matrix = None, cu_rows = 0, cu_dims = 0, cu_uploaded_bytes = 0\<rparr>"

definition scorer_new :: "cuda_device \<Rightarrow> (infer_error, cuda_scorer) res" where
  "scorer_new D = (case dv_context D of
     Some e \<Rightarrow> Inl (Raise (GpuUnavailable e))
   | None \<Rightarrow> (case dv_blas D of Some e \<Rightarrow> Inl (Raise (Runtime (''create cuBLAS handle: '' @ e))) | None \<Rightarrow> Inr new_scorer))"

definition as_i32 :: "nat \<Rightarrow> int" where
  "as_i32 n = (int n + 2 ^ 31) mod 2 ^ 32 - 2 ^ 31"

definition device_error :: "string \<Rightarrow> string \<Rightarrow> (infer_error, 'a) res" where
  "device_error context e = Inl (Raise (Runtime (context @ '': '' @ e)))"

definition scorer_prepare :: "cuda_device \<Rightarrow> f16 list \<Rightarrow> nat \<Rightarrow> nat \<Rightarrow> cuda_scorer \<Rightarrow> (infer_error, unit) res \<times> cuda_scorer" where
  "scorer_prepare D m rows dims c =
     (if length m \<noteq> rows * dims
      then (Inl (Raise (Runtime (''dense matrix shape mismatch: '' @ show_nat (length m) @ '' values for '' @ show_nat rows @ ''x'' @ show_nat dims))), c)
      else case dv_upload D (length m) of
             Some e \<Rightarrow> (device_error ''upload dense matrix'' e, c)
           | None \<Rightarrow> (Inr (), \<lparr>cu_matrix = Some m, cu_rows = rows, cu_dims = dims, cu_uploaded_bytes = 2 * length m\<rparr>))"

text \<open>The matrix is taken out of the scorer before the larger one is allocated; an error on the way leaves none.\<close>

definition scorer_append :: "cuda_device \<Rightarrow> f16 list \<Rightarrow> cuda_scorer \<Rightarrow> (infer_error, unit) res \<times> cuda_scorer" where
  "scorer_append D rows c =
     (if cu_dims c = 0 \<or> length rows mod cu_dims c \<noteq> 0
      then (Inl (Raise (Runtime (''appended dense values '' @ show_nat (length rows) @ '' do not match width '' @ show_nat (cu_dims c)))), c)
      else if rows = [] then (Inr (), c)
      else case cu_matrix c of
             None \<Rightarrow> (Inl (Raise (Runtime ''dense scorer is not prepared'')), c)
           | Some old \<Rightarrow>
               let taken = c\<lparr>cu_matrix := None\<rparr>; old_len = cu_rows c * cu_dims c
               in case dv_alloc D (old_len + length rows) of
                    Some e \<Rightarrow> (device_error ''grow dense matrix'' e, taken)
                  | None \<Rightarrow> (case dv_copy D old_len of
                        Some e \<Rightarrow> (device_error ''copy prepared dense rows'' e, taken)
                      | None \<Rightarrow> (case dv_upload D (length rows) of
                            Some e \<Rightarrow> (device_error ''upload appended dense rows'' e, taken)
                          | None \<Rightarrow> (Inr (), c\<lparr>cu_matrix := Some (old @ rows), cu_rows := cu_rows c + length rows div cu_dims c,
                                cu_uploaded_bytes := cu_uploaded_bytes c + 2 * length rows\<rparr>))))"

definition scorer_score_all :: "cuda_device \<Rightarrow> f16 list \<Rightarrow> cuda_scorer \<Rightarrow> (infer_error, f32 list) res" where
  "scorer_score_all D query c =
     (if length query \<noteq> cu_dims c
      then Inl (Raise (Runtime (''dense query width mismatch: expected '' @ show_nat (cu_dims c) @ '', got '' @ show_nat (length query))))
      else if cu_rows c = 0 then Inr []
      else case cu_matrix c of
             None \<Rightarrow> Inl (Raise (Runtime ''dense scorer is not prepared''))
           | Some m \<Rightarrow> (case dv_upload D (length query) of
                 Some e \<Rightarrow> device_error ''upload dense query'' e
               | None \<Rightarrow> (case dv_alloc D (cu_rows c) of
                     Some e \<Rightarrow> device_error ''allocate dense scores'' e
                   | None \<Rightarrow> (case dv_gemm D (as_i32 (cu_rows c)) (as_i32 (cu_dims c)) m query of
                         Inl e \<Rightarrow> device_error ''score dense matrix'' e
                       | Inr scores \<Rightarrow> (case dv_download D of Some e \<Rightarrow> device_error ''download dense scores'' e | None \<Rightarrow> Inr scores)))))"

definition scorer_resident_bytes :: "cuda_scorer \<Rightarrow> nat" where
  "scorer_resident_bytes c = cu_rows c * cu_dims c * 2"

section \<open>The index on the device\<close>

text \<open>The index keeps no copy of the matrix; the scorer does, and it changes even when an operation on it fails.\<close>

type_synonym device_index = "dense_index \<times> cuda_scorer"

definition prepare_on_device :: "cuda_device \<Rightarrow> f16 list \<Rightarrow> nat \<Rightarrow> nat \<Rightarrow> string \<Rightarrow> live_mask \<Rightarrow> (retrieval_error, device_index) res" where
  "prepare_on_device D m rows dims model_id live =
     (if rows \<noteq> length live then Inl (Raise (mask_error (length live) rows))
      else if length m \<noteq> rows * dims
      then Inl (Raise (RDense (''matrix has '' @ show_nat (length m) @ '' values but shape '' @
             show_nat rows @ ''x'' @ show_nat dims @ '' requires '' @ show_nat (rows * dims))))
      else bind_res (map_err RInference (scorer_new D)) (\<lambda>c.
           case scorer_prepare D m rows dims c of
             (Inl f, c) \<Rightarrow> map_err RInference (Inl f)
           | (Inr _, c) \<Rightarrow> Inr (\<lparr>di_matrix = [], di_rows = rows, di_dims = dims, di_model_id = model_id, di_live = live,
                 di_uploaded_bytes = cu_uploaded_bytes c\<rparr>, c)))"

definition search_on_device :: "cuda_device \<Rightarrow> device_index \<Rightarrow> f16 list \<Rightarrow> string \<Rightarrow> nat \<Rightarrow> (retrieval_error, scored_row list) res" where
  "search_on_device D = (\<lambda>(ix, c) query model_id limit.
     if length query \<noteq> di_dims ix then Inl (Raise (RDimensionMismatch (di_dims ix) (length query mod 2 ^ 32)))
     else if model_id \<noteq> di_model_id ix then Inl (Raise (RModelMismatch (di_model_id ix) model_id))
     else if limit = 0 then Inr []
     else bind_res (map_err RInference (scorer_score_all D query c)) (\<lambda>scores. select_scores ix scores limit))"

definition refresh_on_device :: "cuda_device \<Rightarrow> device_index \<Rightarrow> embedding_matrix \<Rightarrow> live_mask \<Rightarrow> (retrieval_error, unit) res \<times> device_index" where
  "refresh_on_device D = (\<lambda>(ix, c) m live.
     if matrix_dims m \<noteq> di_dims ix then (Inl (Raise (RDimensionMismatch (di_dims ix) (matrix_dims m))), ix, c)
     else if matrix_model_id m \<noteq> di_model_id ix then (Inl (Raise (RModelMismatch (di_model_id ix) (matrix_model_id m))), ix, c)
     else if matrix_rows m \<noteq> length live then (Inl (Raise (mask_error (length live) (matrix_rows m))), ix, c)
     else if matrix_rows m < di_rows ix
     then (Inl (Raise (RDense (''matrix row count decreased from '' @ show_nat (di_rows ix) @ '' to '' @
            show_nat (matrix_rows m) @ ''; prepare a new index after compaction''))), ix, c)
     else case lift_store (as_slice m) of
            Inl f \<Rightarrow> (Inl f, ix, c)
          | Inr vals \<Rightarrow>
              if length vals < di_rows ix * di_dims ix then (Inl (Panic ''slice''), ix, c)
              else let appended = drop (di_rows ix * di_dims ix) vals
                   in case scorer_append D appended c of
                        (Inl f, c) \<Rightarrow> (map_err RInference (Inl f), ix, c)
                      | (Inr _, c) \<Rightarrow> (Inr (), ix\<lparr>di_uploaded_bytes := di_uploaded_bytes ix + length appended * 2,
                            di_rows := matrix_rows m, di_live := live\<rparr>, c))"

definition bytes_on_device :: "device_index \<Rightarrow> nat" where
  "bytes_on_device = (\<lambda>(ix, c). scorer_resident_bytes c)"

section \<open>What the device holds\<close>

text \<open>What is on the device: all rows given so far.\<close>

definition scorer_holds :: "f16 list \<Rightarrow> nat \<Rightarrow> cuda_scorer \<Rightarrow> bool" where
  "scorer_holds m dims c \<longleftrightarrow> cu_matrix c = Some m \<and> cu_dims c = dims \<and> length m = cu_rows c * dims"

lemma scorer_prepare_holds: "scorer_prepare D m rows dims c = (Inr (), c') \<Longrightarrow> scorer_holds m dims c'"
  by (auto simp: scorer_prepare_def scorer_holds_def device_error_def split: if_splits option.splits)

lemma scorer_append_holds:
  assumes "scorer_append D rows c = (Inr (), c')" "scorer_holds m dims c"
  shows "scorer_holds (m @ rows) dims c'"
proof -
  have "length rows = length rows div dims * dims" if "length rows mod dims = 0" using that by (metis add_0_right div_mult_mod_eq)
  then show ?thesis using assms
    by (auto simp: scorer_append_def scorer_holds_def device_error_def Let_def distrib_right split: if_splits option.splits)
qed

lemma scorer_resident_bytes_eq: "scorer_holds m dims c \<Longrightarrow> scorer_resident_bytes c = 2 * length m"
  by (simp add: scorer_holds_def scorer_resident_bytes_def)

text \<open>After an append that failed on the device no search is answered until the scorer is prepared again.\<close>

lemma failed_append_unprepares:
  assumes "scorer_holds m dims c" "0 < dims" "rows \<noteq> []" "length rows mod dims = 0" "dv_alloc D (length m + length rows) = Some e"
    "length query = dims" "0 < cu_rows c"
  shows "\<exists>c'. scorer_append D rows c = (device_error ''grow dense matrix'' e, c') \<and>
     scorer_score_all D query c' = Inl (Raise (Runtime ''dense scorer is not prepared''))"
  using assms by (auto simp: scorer_append_def scorer_holds_def scorer_score_all_def Let_def)

text \<open>
  The index and its scorer agree, and the device holds the matrix \<open>m\<close>.
\<close>

definition device_ok :: "f16 list \<Rightarrow> device_index \<Rightarrow> bool" where
  "device_ok m = (\<lambda>(ix, c). scorer_holds m (di_dims ix) c \<and> cu_rows c = di_rows ix \<and> length (di_live ix) = di_rows ix \<and>
     di_uploaded_bytes ix = cu_uploaded_bytes c)"

lemma prepare_on_device_ok: "prepare_on_device D m rows dims model_id live = Inr dx \<Longrightarrow> device_ok m dx"
  by (auto simp: prepare_on_device_def scorer_prepare_def device_error_def device_ok_def scorer_holds_def bind_res_Inr_conv
      split: if_splits option.splits sum.splits)

text \<open>A refresh that succeeds uploads what the device lacks and no more: it then holds the whole matrix of the store.\<close>

lemma refresh_on_device_ok:
  assumes "refresh_on_device D (ix, c) m live = (Inr (), dx)" "device_ok old (ix, c)" "as_slice m = Inr vals"
    "take (length old) vals = old" "length vals = matrix_rows m * matrix_dims m" "0 < di_dims ix"
  shows "device_ok vals dx"
proof -
  have rows: "cu_rows c * di_dims ix = length old" "cu_rows c = di_rows ix" using assms(2) by (simp_all add: device_ok_def scorer_holds_def)
  have vals: "vals = old @ drop (length old) vals" using assms(4) by (metis append_take_drop_id)
  have g: "matrix_dims m = di_dims ix" "matrix_rows m = length live" "di_rows ix \<le> matrix_rows m"
    using assms(1) by (auto simp: refresh_on_device_def split: if_splits)
  obtain c' where c': "scorer_append D (drop (length old) vals) c = (Inr (), c')"
      "dx = (ix\<lparr>di_uploaded_bytes := di_uploaded_bytes ix + length (drop (length old) vals) * 2, di_rows := matrix_rows m, di_live := live\<rparr>, c')"
    using assms(1,3) rows by (auto simp: refresh_on_device_def lift_store_def Let_def split: if_splits prod.splits sum.splits)
  have holds: "scorer_holds vals (di_dims ix) c'"
    by (subst vals) (rule scorer_append_holds [OF c'(1)], use assms(2) in \<open>simp add: device_ok_def\<close>)
  then have "cu_rows c' * di_dims ix = matrix_rows m * di_dims ix" using assms(5) g(1) by (auto simp: scorer_holds_def)
  then have "cu_rows c' = matrix_rows m" using assms(6) by simp
  moreover have "cu_uploaded_bytes c' = cu_uploaded_bytes c + 2 * length (drop (length old) vals)"
    using c'(1) by (auto simp: scorer_append_def device_error_def Let_def split: if_splits option.splits)
  ultimately show ?thesis using holds assms(2) c'(2) g(2) by (simp add: device_ok_def)
qed

text \<open>A search ranks the scores of the device for the live rows.\<close>

lemma search_on_device_ranked:
  assumes "device_ok m (ix, c)" "length q = di_dims ix" "0 < di_rows ix" "dv_upload D (length q) = None" "dv_alloc D (di_rows ix) = None"
    "dv_download D = None" "dv_gemm D (as_i32 (di_rows ix)) (as_i32 (di_dims ix)) m q = Inr scores"
    "\<forall>s \<in> set (candidates (di_live ix) 0 scores). f32_is_finite (sr_score s)"
  shows "search_on_device D (ix, c) q (di_model_id ix) limit = Inr (take limit (sort_key scored_key (candidates (di_live ix) 0 scores)))"
  using assms select_scores_ranked [OF assms(8), of limit]
  by (auto simp: search_on_device_def scorer_score_all_def device_ok_def scorer_holds_def)

text \<open>A device whose product is the sum of the source's CPU loop answers as the CPU index does.\<close>

lemma search_on_device_is_dense_search:
  assumes "device_ok (di_matrix ix) (ix', c)" "ix' = ix\<lparr>di_matrix := []\<rparr>" "0 < di_rows ix" "0 < di_dims ix"
    "\<And>n. dv_upload D n = None" "\<And>n. dv_alloc D n = None" "dv_download D = None"
    "\<And>q. dv_gemm D (as_i32 (di_rows ix)) (as_i32 (di_dims ix)) (di_matrix ix) q = Inr (row_scores ix q)"
  shows "search_on_device D (ix', c) q model limit = dense_search ix q model limit"
  using assms by (auto simp: search_on_device_def dense_search_def search_cpu_def scorer_score_all_def device_ok_def scorer_holds_def
      select_scores_def row_scores_def)

text \<open>The product is asked for the true number of rows up to \<open>2 ^ 31 - 1\<close> of them, and for a negative one from there to \<open>2 ^ 32\<close>.\<close>

lemma as_i32_exact: "n < 2 ^ 31 \<Longrightarrow> as_i32 n = int n"
  by (simp add: as_i32_def)

lemma as_i32_negative:
  assumes "2 ^ 31 \<le> n" "n < 2 ^ 32"
  shows "as_i32 n < 0"
proof -
  have "(int n + 2 ^ 31) mod 2 ^ 32 = (int n - 2 ^ 31 + 2 ^ 32) mod 2 ^ 32" by (simp add: add.commute)
  also have "\<dots> = int n - 2 ^ 31" unfolding mod_add_self2 using assms by (intro mod_pos_pos_trivial) auto
  finally show ?thesis using assms by (simp add: as_i32_def)
qed

end
