(* ===== verification/Mining.thy ===== *)
theory Mining
  imports Chunker Store Lexical Search "HOL-Library.List_Lexorder"
begin

text \<open>
  Mining retrieval labels (\<open>crates/eval/src/mine.rs\<close>, with \<open>error.rs\<close> and the revision check of \<open>corpus.rs\<close>): commits whose subject
  describes the symbols they touch, and symbols with a documentation line. The git library, the line diff and the regular expressions
  are parameters; the chunker and the store are those of the other theories.
\<close>

section \<open>Labels\<close>

datatype eval_error =
    Message string
  | RevisionMismatch string string
  | EGit string
  | EIndex string
  | ERetrieval string
  | EStore string
  | EIo string
  | EJson string

datatype label_source = CommitSubject | Docstring

record eval_label =
  lb_query :: string
  lb_expected :: "(string \<times> string) list"
  lb_source :: label_source
  lb_provenance :: string

datatype reject_reason =
    Merge
  | TooManySymbols nat
  | SubjectTooShort nat
  | MaintenancePattern string
  | NoSymbolsTouched
  | SymbolsNotIndexed nat

fun rule_name :: "reject_reason \<Rightarrow> string" where
  "rule_name Merge = ''merge''"
| "rule_name (TooManySymbols _) = ''too_many_symbols''"
| "rule_name (SubjectTooShort _) = ''subject_too_short''"
| "rule_name (MaintenancePattern _) = ''maintenance_pattern''"
| "rule_name NoSymbolsTouched = ''no_symbols_touched''"
| "rule_name (SymbolsNotIndexed _) = ''symbols_not_indexed''"

record mining_config =
  mn_max_symbols_per_commit :: nat
  mn_min_subject_words :: nat
  mn_maintenance_patterns :: "string list"
  mn_max_commits :: "nat option"
  mn_enforce_pinned_revision :: bool

definition default_mining_config :: mining_config where
  "default_mining_config = \<lparr>mn_max_symbols_per_commit = 3, mn_min_subject_words = 4,
     mn_maintenance_patterns = [''wip'', ''fixup'', ''typo'', ''bump'', ''lint''], mn_max_commits = None,
     mn_enforce_pinned_revision = True\<rparr>"

text \<open>The counters of the rejected commits, one per rule.\<close>

record mining_report =
  mp_commits_examined :: nat
  mp_labels_accepted :: nat
  mp_rejected :: "(string \<times> nat) list"

definition new_mining_report :: mining_report where
  "new_mining_report = \<lparr>mp_commits_examined = 0, mp_labels_accepted = 0, mp_rejected = []\<rparr>"

fun count_up :: "string \<Rightarrow> (string \<times> nat) list \<Rightarrow> (string \<times> nat) list" where
  "count_up k [] = [(k, 1)]"
| "count_up k ((k', n) # cs) = (if k' = k then (k', n + 1) # cs else (k', n) # count_up k cs)"

definition reject :: "reject_reason \<Rightarrow> mining_report \<Rightarrow> mining_report" where
  "reject reason report = report\<lparr>mp_rejected := count_up (rule_name reason) (mp_rejected report)\<rparr>"

definition reconciles :: "mining_report \<Rightarrow> bool" where
  "reconciles report \<longleftrightarrow> mp_labels_accepted report + sum_list (map snd (mp_rejected report)) = mp_commits_examined report"

section \<open>Order\<close>

text \<open>Strings are compared byte by byte; a \<open>BTreeSet\<close> is its elements in order.\<close>

definition byte_key :: "string \<Rightarrow> nat list" where
  "byte_key s = map of_char s"

definition pair_key :: "string \<times> string \<Rightarrow> nat list \<times> nat list" where
  "pair_key p = (byte_key (fst p), byte_key (snd p))"

definition pair_set :: "(string \<times> string) list \<Rightarrow> (string \<times> string) list" where
  "pair_set ps = sort_key pair_key (remdups ps)"

definition by_provenance :: "eval_label list \<Rightarrow> eval_label list" where
  "by_provenance labels = sort_key (\<lambda>l. byte_key (lb_provenance l)) labels"

section \<open>Commits\<close>

record mined_commit =
  mc_id :: string
  mc_parents :: "string list"
  mc_message :: "string + bytes"

datatype change_tag = EqualLine | InsertLine | DeleteLine

record mining_git =
  mg_head :: "string + string"
  mg_walk :: "string \<Rightarrow> string + (string + string) list"
  mg_commit :: "string \<Rightarrow> string + mined_commit"
  mg_tree :: "string \<Rightarrow> string + string"
  mg_diff_trees :: "string option \<Rightarrow> string \<Rightarrow> string + change_detached list"
  mg_lookup :: "string \<Rightarrow> string \<Rightarrow> string + (entry_mode \<times> string) option"
  mg_object :: "string \<Rightarrow> string + bytes"
  mg_diff_lines :: "string \<Rightarrow> string \<Rightarrow> change_tag list"
  mg_regex :: "string \<Rightarrow> string + (string \<Rightarrow> bool)"
  mg_utf8_error :: "bytes \<Rightarrow> string"

type_synonym chunker = "string \<Rightarrow> language \<Rightarrow> string \<Rightarrow> (eval_error, chunk list) res"

text \<open>The chunker of the indexing crate; it returns chunks or panics.\<close>

definition eval_chunker :: "tree_sitter \<Rightarrow> (bytes \<Rightarrow> bytes) \<Rightarrow> lang_config list \<Rightarrow> chunker" where
  "eval_chunker ts blake3 configs path lang source =
     bind_res (map_err (\<lambda>e. EIndex (chunk_to_string e)) (chunk_file ts blake3 configs path lang source)) (\<lambda>fc. Inr (fc_chunks fc))"

definition git_result :: "string + 'a \<Rightarrow> (eval_error, 'a) res" where
  "git_result m = (case m of Inl e \<Rightarrow> Inl (Raise (EGit e)) | Inr a \<Rightarrow> Inr a)"

definition MINED_CORPUS_PINNED_REVISION :: string where
  "MINED_CORPUS_PINNED_REVISION = ''c589f0ed10c643678c4707dd160c21ac7633ebc0''"

definition require_mined_revision :: "string + gix \<Rightarrow> (eval_error, string) res" where
  "require_mined_revision repo = (case repo of
     Inl e \<Rightarrow> Inl (Raise (EGit e))
   | Inr git \<Rightarrow> bind_res (map_err (\<lambda>e. EGit (index_to_string e)) (head_commit git)) (\<lambda>actual.
       if actual \<noteq> MINED_CORPUS_PINNED_REVISION then Inl (Raise (RevisionMismatch MINED_CORPUS_PINNED_REVISION actual))
       else Inr actual))"

definition indexed_symbol_set :: "chunk_store \<Rightarrow> (string \<times> string) list" where
  "indexed_symbol_set s = pair_set (concat (map (\<lambda>r. case get_row s r of
     Some rec \<Rightarrow> if rec_symbol rec = ''<file_prelude>'' then [] else [(rec_file rec, rec_symbol rec)] | None \<Rightarrow> []) (live_rows s)))"

definition compile_maintenance :: "mining_git \<Rightarrow> string list \<Rightarrow> (eval_error, (string \<times> (string \<Rightarrow> bool)) list) res" where
  "compile_maintenance G patterns = map_res (\<lambda>p. case mg_regex G p of
     Inl e \<Rightarrow> Inl (Raise (Message e)) | Inr re \<Rightarrow> Inr (p, re)) patterns"

definition known_pattern :: "string \<Rightarrow> string" where
  "known_pattern name = (case find (\<lambda>k. to_ascii_lowercase name = to_ascii_lowercase k) [''wip'', ''fixup'', ''typo'', ''bump'', ''lint''] of
     Some k \<Rightarrow> k | None \<Rightarrow> ''custom'')"

definition match_maintenance :: "string \<Rightarrow> (string \<times> (string \<Rightarrow> bool)) list \<Rightarrow> string option" where
  "match_maintenance subject patterns = map_option (\<lambda>(name, _). known_pattern name) (find (\<lambda>(_, re). re subject) patterns)"

definition commit_subject :: "mining_git \<Rightarrow> mined_commit \<Rightarrow> (eval_error, string) res" where
  "commit_subject G c = bind_res (git_result (mc_message c)) (\<lambda>raw.
     if \<not> valid_utf8 raw then Inl (Raise (EGit (''commit message utf8: '' @ mg_utf8_error G raw)))
     else Inr (trim (case lines raw of [] \<Rightarrow> [] | l # _ \<Rightarrow> l)))"

definition change_location :: "change_detached \<Rightarrow> bytes" where
  "change_location c = (case c of Addition l _ \<Rightarrow> l | Deletion l _ \<Rightarrow> l | Modification l _ _ \<Rightarrow> l | Rewrite _ l _ _ \<Rightarrow> l)"

definition changed_paths :: "mining_git \<Rightarrow> string option \<Rightarrow> string \<Rightarrow> (eval_error, string list) res" where
  "changed_paths G old_tree new_tree = bind_res (git_result (mg_diff_trees G old_tree new_tree)) (\<lambda>changes.
     Inr (remdups_adj (sort_key byte_key (List.map_filter (\<lambda>c. location_to_string (change_location c)) changes))))"

definition blob_at_tree :: "mining_git \<Rightarrow> string \<Rightarrow> string \<Rightarrow> (eval_error, string option) res" where
  "blob_at_tree G tree path = bind_res (git_result (mg_lookup G tree path)) (\<lambda>entry. case entry of
     None \<Rightarrow> Inr None
   | Some (mode, oid) \<Rightarrow>
       if \<not> blob_or_link mode then Inr None
       else bind_res (git_result (mg_object G oid)) (\<lambda>dat. Inr (if valid_utf8 dat then Some dat else None)))"

definition line_count :: "string \<Rightarrow> nat" where
  "line_count t = (if t = [] then 0 else max (length (lines t)) 1 mod 2 ^ 32)"

fun new_side_lines :: "change_tag list \<Rightarrow> nat \<Rightarrow> nat list" where
  "new_side_lines [] n = []"
| "new_side_lines (EqualLine # cs) n = new_side_lines cs (n + 1)"
| "new_side_lines (InsertLine # cs) n = (n + 1) # new_side_lines cs (n + 1)"
| "new_side_lines (DeleteLine # cs) n = new_side_lines cs n"

definition new_side_changed_lines :: "mining_git \<Rightarrow> string \<Rightarrow> string \<Rightarrow> nat list" where
  "new_side_changed_lines G old new = new_side_lines (mg_diff_lines G old new) 0"

definition touched_in :: "nat list \<Rightarrow> chunk list \<Rightarrow> (string \<times> string) list" where
  "touched_in changed chunks = concat (map (\<lambda>c. let rec = ck_record c in
     if rec_symbol rec = ''<file_prelude>'' then []
     else if list_ex (\<lambda>l. rec_line_start rec \<le> l \<and> l \<le> rec_line_end rec) changed then [(rec_file rec, rec_symbol rec)] else []) chunks)"

definition touched_in_path :: "mining_git \<Rightarrow> chunker \<Rightarrow> string option \<Rightarrow> string \<Rightarrow> string \<Rightarrow> (eval_error, (string \<times> string) list) res" where
  "touched_in_path G chunk old_tree new_tree path = (case language_from_path path of
     None \<Rightarrow> Inr []
   | Some lang \<Rightarrow> bind_res (blob_at_tree G new_tree path) (\<lambda>new_text. case new_text of
       None \<Rightarrow> Inr []
     | Some new_text \<Rightarrow>
       bind_res (case old_tree of
           Some tree \<Rightarrow> bind_res (blob_at_tree G tree path) (\<lambda>t. Inr (case t of Some t \<Rightarrow> t | None \<Rightarrow> []))
         | None \<Rightarrow> Inr []) (\<lambda>old_text.
       let changed = (if old_text = [] then [1..<line_count new_text + 1] else new_side_changed_lines G old_text new_text)
       in if changed = [] then Inr []
          else bind_res (chunk path lang new_text) (\<lambda>chunks. Inr (touched_in changed chunks)))))"

definition touched_symbols :: "mining_git \<Rightarrow> chunker \<Rightarrow> string \<Rightarrow> string option \<Rightarrow> (eval_error, (string \<times> string) list) res" where
  "touched_symbols G chunk commit parent =
     bind_res (git_result (mg_tree G commit)) (\<lambda>new_tree.
     bind_res (case parent of Some p \<Rightarrow> bind_res (git_result (mg_tree G p)) (\<lambda>t. Inr (Some t)) | None \<Rightarrow> Inr None) (\<lambda>old_tree.
     bind_res (changed_paths G old_tree new_tree) (\<lambda>paths.
     bind_res (map_res (touched_in_path G chunk old_tree new_tree) paths) (\<lambda>touched.
     Inr (pair_set (concat touched))))))"

text \<open>What becomes of one commit: the rule that rejects it, or its label.\<close>

definition judge_commit :: "mining_git \<Rightarrow> chunker \<Rightarrow> mining_config \<Rightarrow> (string \<times> string) list \<Rightarrow> (string \<times> (string \<Rightarrow> bool)) list \<Rightarrow>
    mined_commit \<Rightarrow> (eval_error, reject_reason + eval_label) res" where
  "judge_commit G chunk cfg indexed maintenance c =
     (let parent_count = length (mc_parents c)
      in if 1 < parent_count then Inr (Inl Merge)
         else bind_res (commit_subject G c) (\<lambda>subject. case match_maintenance subject maintenance of
           Some pat \<Rightarrow> Inr (Inl (MaintenancePattern pat))
         | None \<Rightarrow>
           let words = length (split_whitespace subject)
           in if words < mn_min_subject_words cfg then Inr (Inl (SubjectTooShort words))
              else bind_res (if parent_count = 1 then bind_res (git_result (mg_commit G (hd (mc_parents c)))) (\<lambda>p. Inr (Some (mc_id p))) else Inr None) (\<lambda>parent.
              bind_res (touched_symbols G chunk (mc_id c) parent) (\<lambda>touched.
              if touched = [] then Inr (Inl NoSymbolsTouched)
              else if mn_max_symbols_per_commit cfg < length touched then Inr (Inl (TooManySymbols (length touched)))
              else let missing = length (filter (\<lambda>pair. pair \<notin> set indexed) touched)
              in if 0 < missing then Inr (Inl (SymbolsNotIndexed missing))
                 else Inr (Inr \<lparr>lb_query = subject, lb_expected = touched, lb_source = CommitSubject, lb_provenance = mc_id c\<rparr>)))))"

fun mine_walk :: "mining_git \<Rightarrow> chunker \<Rightarrow> mining_config \<Rightarrow> (string \<times> string) list \<Rightarrow> (string \<times> (string \<Rightarrow> bool)) list \<Rightarrow>
    (string + string) list \<Rightarrow> mining_report \<Rightarrow> eval_label list \<Rightarrow> (eval_error, mining_report \<times> eval_label list) res" where
  "mine_walk G chunk cfg indexed maintenance [] report labels = Inr (report, labels)"
| "mine_walk G chunk cfg indexed maintenance (info # walk) report labels = bind_res (git_result info) (\<lambda>commit_id.
     if (case mn_max_commits cfg of Some m \<Rightarrow> m \<le> mp_commits_examined report | None \<Rightarrow> False) then Inr (report, labels)
     else let report = report\<lparr>mp_commits_examined := mp_commits_examined report + 1\<rparr>
     in bind_res (git_result (mg_commit G commit_id)) (\<lambda>c.
        bind_res (judge_commit G chunk cfg indexed maintenance c) (\<lambda>verdict. case verdict of
          Inl reason \<Rightarrow> mine_walk G chunk cfg indexed maintenance walk (reject reason report) labels
        | Inr lb \<Rightarrow> mine_walk G chunk cfg indexed maintenance walk
            (report\<lparr>mp_labels_accepted := mp_labels_accepted report + 1\<rparr>) (labels @ [lb]))))"

definition mine_commits :: "mining_git \<Rightarrow> tree_sitter \<Rightarrow> (bytes \<Rightarrow> bytes) \<Rightarrow> string + gix \<Rightarrow> chunk_store \<Rightarrow> mining_config \<Rightarrow>
    (eval_error, eval_label list \<times> mining_report) res" where
  "mine_commits G ts blake3 repo s cfg =
     bind_res (if mn_enforce_pinned_revision cfg then require_mined_revision repo else Inr []) (\<lambda>_.
     bind_res (git_result (mg_head G)) (\<lambda>tip.
     bind_res (map_err (\<lambda>e. EIndex (chunk_to_string e)) (chunker_new ts)) (\<lambda>configs.
     bind_res (compile_maintenance G (mn_maintenance_patterns cfg)) (\<lambda>maintenance.
     bind_res (git_result (mg_walk G tip)) (\<lambda>walk.
     bind_res (mine_walk G (eval_chunker ts blake3 configs) cfg (indexed_symbol_set s) maintenance walk new_mining_report []) (\<lambda>(report, labels).
     Inr (by_provenance labels, report)))))))"

section \<open>Documentation\<close>

text \<open>A directory as reading it gives it: files with their text, directories with the error of reading them or their entries.\<close>

datatype source_entry = SrcFile string "string + string" | SrcDir string "string option" "source_entry list"

definition skipped_name :: "string \<Rightarrow> bool" where
  "skipped_name name \<longleftrightarrow> name \<in> {''.git'', ''target'', ''node_modules''}"

fun walk_sources :: "string \<Rightarrow> source_entry list \<Rightarrow> (eval_error, (string \<times> (string + string)) list) res" where
  "walk_sources dir [] = Inr []"
| "walk_sources dir (SrcFile name t # es) =
     (if skipped_name name then walk_sources dir es
      else bind_res (walk_sources dir es) (\<lambda>fs. Inr ((dir @ name, t) # fs)))"
| "walk_sources dir (SrcDir name err kids # es) =
     (if skipped_name name then walk_sources dir es
      else case err of Some e \<Rightarrow> Inl (Raise (EIo e))
      | None \<Rightarrow> bind_res (walk_sources (dir @ name @ ''/'') kids) (\<lambda>xs. bind_res (walk_sources dir es) (\<lambda>ys. Inr (xs @ ys))))"

text \<open>Paths are ordered by their components.\<close>

definition list_source_files :: "source_entry list \<Rightarrow> (eval_error, (string \<times> (string + string)) list) res" where
  "list_source_files es = bind_res (walk_sources [] es) (\<lambda>fs. Inr (sort_key (\<lambda>f. map byte_key (split_on (CHR ''/'') (fst f))) fs))"

record doc_state =
  dc_report :: mining_report
  dc_labels :: "eval_label list"
  dc_seen :: "(string \<times> string) list"

definition doc_label :: "string \<Rightarrow> string \<times> string \<Rightarrow> eval_label" where
  "doc_label doc key = \<lparr>lb_query = doc, lb_expected = [key], lb_source = Docstring, lb_provenance = fst key @ '':'' @ snd key\<rparr>"

definition accept_doc :: "string \<Rightarrow> string \<times> string \<Rightarrow> doc_state \<Rightarrow> doc_state" where
  "accept_doc doc key st = st\<lparr>dc_labels := dc_labels st @ [doc_label doc key], dc_seen := key # dc_seen st,
     dc_report := (dc_report st)\<lparr>mp_labels_accepted := mp_labels_accepted (dc_report st) + 1\<rparr>\<rparr>"

definition examine :: "doc_state \<Rightarrow> doc_state" where
  "examine st = st\<lparr>dc_report := (dc_report st)\<lparr>mp_commits_examined := mp_commits_examined (dc_report st) + 1\<rparr>\<rparr>"

definition docstring_row :: "chunk_store \<Rightarrow> nat \<Rightarrow> doc_state \<Rightarrow> doc_state" where
  "docstring_row s r st = (let st = examine st in case get_row s r of
     None \<Rightarrow> st
   | Some rec \<Rightarrow>
       if rec_symbol rec = ''<file_prelude>'' then st
       else case rec_doc_first_line rec of
         None \<Rightarrow> st\<lparr>dc_report := reject NoSymbolsTouched (dc_report st)\<rparr>
       | Some doc \<Rightarrow> let key = (rec_file rec, rec_symbol rec) in if key \<in> set (dc_seen st) then st else accept_doc doc key st)"

definition doc_chunk :: "chunk \<Rightarrow> doc_state \<Rightarrow> doc_state" where
  "doc_chunk c st = (let rec = ck_record c in
     if rec_symbol rec = ''<file_prelude>'' then st
     else case rec_doc_first_line rec of
       None \<Rightarrow> st
     | Some doc \<Rightarrow> let key = (rec_file rec, rec_symbol rec) in if key \<in> set (dc_seen st) then st else accept_doc doc key (examine st))"

definition read_text :: "string + string \<Rightarrow> (eval_error, string) res" where
  "read_text t = (case t of Inl e \<Rightarrow> Inl (Raise (EIo e)) | Inr t \<Rightarrow> Inr t)"

definition file_chunks_of :: "chunker \<Rightarrow> string \<times> (string + string) \<Rightarrow> (eval_error, chunk list) res" where
  "file_chunks_of chunk = (\<lambda>(path, t). let rel = replace_char (CHR 0x5C) (CHR ''/'') path in
     case language_from_path path of None \<Rightarrow> Inr [] | Some lang \<Rightarrow> bind_res (read_text t) (\<lambda>t. chunk rel lang t))"

definition mine_docstrings :: "tree_sitter \<Rightarrow> (bytes \<Rightarrow> bytes) \<Rightarrow> source_entry list \<Rightarrow> chunk_store \<Rightarrow>
    (eval_error, eval_label list \<times> mining_report) res" where
  "mine_docstrings ts blake3 es s =
     (let st = fold (docstring_row s) (live_rows s) \<lparr>dc_report = new_mining_report, dc_labels = [], dc_seen = []\<rparr>
      in bind_res (map_err (\<lambda>e. EIndex (chunk_to_string e)) (chunker_new ts)) (\<lambda>configs.
         bind_res (list_source_files es) (\<lambda>fs.
         bind_res (map_res (file_chunks_of (eval_chunker ts blake3 configs)) fs) (\<lambda>css.
         let st = fold doc_chunk (concat css) st in Inr (by_provenance (dc_labels st), dc_report st)))))"

definition strips_doc_line :: "string \<Rightarrow> bool" where
  "strips_doc_line l \<longleftrightarrow> (let t = concat (trim_start (chars l)) in starts_with ''///'' t \<or> starts_with ''//!'' t)"

definition strip_doc_comments :: "string \<Rightarrow> string" where
  "strip_doc_comments body = join_text (filter (\<lambda>l. \<not> strips_doc_line l) (lines body))"

definition held_out :: "chunk \<Rightarrow> (chunk_record \<times> string) list" where
  "held_out c = (let body = strip_doc_comments (ck_body c) in
     if trim body = [] then [] else [((ck_record c)\<lparr>rec_doc_first_line := None\<rparr>, body)])"

definition held_out_document :: "chunk_record \<Rightarrow> string \<Rightarrow> lexical_document" where
  "held_out_document rec body = \<lparr>ld_symbol = rec_symbol rec, ld_signature = rec_signature rec, ld_doc_first_line = None,
     ld_file = rec_file rec, ld_body = body\<rparr>"

text \<open>\<open>opened\<close> is what opening the lexical index of the new store's directory returns.\<close>

definition build_held_out_index :: "tree_sitter \<Rightarrow> (bytes \<Rightarrow> bytes) \<Rightarrow> 'i tantivy \<Rightarrow> embedder \<Rightarrow> source_entry list \<Rightarrow> store_dir \<Rightarrow>
    (retrieval_error, 'i) res \<Rightarrow> (eval_error, chunk_store \<times> 'i) res" where
  "build_held_out_index ts blake3 T emb es dir opened =
     bind_res (map_err (\<lambda>e. EStore (store_to_string e)) (store_create dir (eb_dims emb) (eb_model_id emb))) (\<lambda>s.
     bind_res (map_err (\<lambda>e. ERetrieval (retrieval_to_string e)) opened) (\<lambda>lexical.
     bind_res (map_err (\<lambda>e. EIndex (chunk_to_string e)) (chunker_new ts)) (\<lambda>configs.
     bind_res (list_source_files es) (\<lambda>fs.
     bind_res (map_res (file_chunks_of (eval_chunker ts blake3 configs)) fs) (\<lambda>css.
     let pending = concat (map held_out (concat css))
     in if pending = [] then Inr (s, lexical)
        else bind_res (map_err (\<lambda>e. Message (infer_to_string e)) (eb_embed emb (map snd pending) Document)) (\<lambda>embeddings.
        case insert_batch s (zip (map fst pending) (map em_vector embeddings)) of (out, s) \<Rightarrow>
        bind_res (map_err (\<lambda>e. EStore (store_to_string e)) out) (\<lambda>ids.
        case add_batch T (zip ids (map (\<lambda>(rec, body). held_out_document rec body) pending)) lexical of (added, lexical) \<Rightarrow>
        bind_res (map_err (\<lambda>e. ERetrieval (retrieval_to_string e)) added) (\<lambda>_.
        case lexical_commit T lexical of (committed, lexical) \<Rightarrow>
        bind_res (map_err (\<lambda>e. ERetrieval (retrieval_to_string e)) committed) (\<lambda>_. Inr (s, lexical))))))))))"

end
