(* ===== verification/Evaluation.thy ===== *)
theory Evaluation
  imports Mining Repo_Git
begin

text \<open>
  Evaluation runs (\<open>metrics.rs\<close>, \<open>run.rs\<close>, \<open>proxy.rs\<close> and \<open>handwritten.rs\<close> in \<open>crates/eval\<close>): accuracy and latency of the searcher over
  labels, per ablation and broken down by the labels' source and the length of their query. The measured latency of the \<open>i\<close>-th
  search of a run is \<open>clock i\<close>, in milliseconds.
\<close>

section \<open>Arithmetic\<close>

abbreviation f64_zero :: f64 where "f64_zero \<equiv> 0"
abbreviation f64_one :: f64 where "f64_one \<equiv> 0x3FF0000000000000"
abbreviation f64_half :: f64 where "f64_half \<equiv> 0x3FE0000000000000"
abbreviation f64_p95 :: f64 where "f64_p95 \<equiv> 0x3FEE666666666666"

definition f64_add :: "f64 \<Rightarrow> f64 \<Rightarrow> f64" where
  "f64_add a b = word_of_int (fp_add F64 (uint a) (uint b))"

definition f64_mul :: "f64 \<Rightarrow> f64 \<Rightarrow> f64" where
  "f64_mul a b = word_of_int (fp_mul F64 (uint a) (uint b))"

text \<open>\<open>x.ceil() as usize\<close>: NaN and negative values give 0, what exceeds the range its largest value.\<close>

definition f64_ceil_usize :: "f64 \<Rightarrow> nat" where
  "f64_ceil_usize a =
     (let b = uint a
      in if fp_is_nan F64 b then 0
         else if fp_is_inf F64 b then (if fp_neg F64 b then 0 else 2 ^ 64 - 1)
         else min (nat \<lceil>fp_val F64 b\<rceil>) (2 ^ 64 - 1))"

section \<open>Metrics\<close>

record bytes_before_hit =
  bb_mcp_median :: nat
  bb_baseline_median :: nat
  bb_baseline_command :: string

record metrics =
  mt_labels_scored :: nat
  mt_labels_discarded :: nat
  mt_top_1 :: f64
  mt_top_3 :: f64
  mt_top_10 :: f64
  mt_mrr :: f64
  mt_latency_p50_ms :: f64
  mt_latency_p95_ms :: f64
  mt_peak_gpu_bytes :: nat
  mt_bytes_before_hit :: bytes_before_hit

definition no_bytes :: bytes_before_hit where
  "no_bytes = \<lparr>bb_mcp_median = 0, bb_baseline_median = 0, bb_baseline_command = []\<rparr>"

definition percentile :: "f64 list \<Rightarrow> f64 \<Rightarrow> f64" where
  "percentile sorted_ms fraction =
     (if sorted_ms = [] then f64_zero
      else let n = length sorted_ms;
               rank = min (max (f64_ceil_usize (f64_mul fraction (f64_of_nat n))) 1) n
      in sorted_ms ! (rank - 1))"

fun first_hit :: "(string \<times> string) list \<Rightarrow> nat \<Rightarrow> (string \<times> string) list \<Rightarrow> nat option" where
  "first_hit expected i [] = None"
| "first_hit expected i (c # ranked) = (if c \<in> set expected then Some i else first_hit expected (i + 1) ranked)"

definition reciprocal_rank :: "(string \<times> string) list \<Rightarrow> (string \<times> string) list \<Rightarrow> f64" where
  "reciprocal_rank ranked expected = (case first_hit expected 0 ranked of
     Some i \<Rightarrow> f64_div f64_one (f64_add (f64_of_nat i) f64_one) | None \<Rightarrow> f64_zero)"

definition top_k_hits :: "(string \<times> string) list list \<Rightarrow> (string \<times> string) list list \<Rightarrow> nat \<Rightarrow> nat" where
  "top_k_hits rankings expected k =
     length (filter (\<lambda>(ranked, exp). list_ex (\<lambda>c. c \<in> set exp) (take k ranked)) (zip rankings expected))"

definition top_k_accuracy :: "(string \<times> string) list list \<Rightarrow> (string \<times> string) list list \<Rightarrow> nat \<Rightarrow> (eval_error, f64) res" where
  "top_k_accuracy rankings expected k =
     (if length rankings \<noteq> length expected then Inl (Panic ''assertion failed'')
      else if rankings = [] then Inr f64_zero
      else Inr (f64_div (f64_of_nat (top_k_hits rankings expected k)) (f64_of_nat (length rankings))))"

section \<open>Runs\<close>

datatype ablation = LexicalOnly | DenseOnly | Fused

fun ablation_config :: "ablation \<Rightarrow> fusion_config" where
  "ablation_config LexicalOnly = \<lparr>lexical_depth = 50, dense_depth = 0, rrf_k = 0x42700000\<rparr>"
| "ablation_config DenseOnly = \<lparr>lexical_depth = 0, dense_depth = 50, rrf_k = 0x42700000\<rparr>"
| "ablation_config Fused = default_config"

datatype length_bucket = Short | Medium | Long

definition bucket_from_query :: "string \<Rightarrow> length_bucket" where
  "bucket_from_query query = (let words = length (split_whitespace query) in if words \<le> 4 then Short else if words \<le> 10 then Medium else Long)"

definition partition_labels :: "chunk_store \<Rightarrow> eval_label list \<Rightarrow> eval_label list \<times> nat" where
  "partition_labels s labels =
     (let indexed = concat (map (\<lambda>r. case get_row s r of Some rec \<Rightarrow> [(rec_file rec, rec_symbol rec)] | None \<Rightarrow> []) (live_rows s));
          scorable = (\<lambda>l. list_all (\<lambda>e. e \<in> set indexed) (lb_expected l) \<and> lb_expected l \<noteq> [])
      in (filter scorable labels, length (filter (\<lambda>l. \<not> scorable l) labels)))"

definition ranking_of :: "search_response \<Rightarrow> (string \<times> string) list" where
  "ranking_of resp = map (\<lambda>r. (res_file r, res_symbol r)) (rs_results resp)"

definition sort_latencies :: "f64 list \<Rightarrow> (eval_error, f64 list) res" where
  "sort_latencies ls = (if 1 < length ls \<and> list_ex (\<lambda>l. fp_is_nan F64 (uint l)) ls then Inl (Panic ''called unwrap on None'')
     else Inr (sort_key (\<lambda>l. fp_key F64 (uint l)) ls))"

definition no_metrics :: "nat \<Rightarrow> metrics" where
  "no_metrics discarded = \<lparr>mt_labels_scored = 0, mt_labels_discarded = discarded, mt_top_1 = f64_zero, mt_top_3 = f64_zero,
     mt_top_10 = f64_zero, mt_mrr = f64_zero, mt_latency_p50_ms = f64_zero, mt_latency_p95_ms = f64_zero, mt_peak_gpu_bytes = 0,
     mt_bytes_before_hit = no_bytes\<rparr>"

definition run_ablation :: "'i searcher \<Rightarrow> stage_timings \<Rightarrow> (nat \<Rightarrow> f64) \<Rightarrow> eval_label list \<Rightarrow> ablation \<Rightarrow> nat \<Rightarrow> (eval_error, metrics) res" where
  "run_ablation se tm clock labels abl discarded =
     (if labels = [] then Inr (no_metrics discarded)
      else bind_res (map_res (\<lambda>l. map_err (\<lambda>e. ERetrieval (retrieval_to_string e)) (search se tm (lb_query l) 10 (ablation_config abl))) labels) (\<lambda>resps.
      let rankings = map ranking_of resps; expected = map lb_expected labels;
          rr_sum = foldl (\<lambda>acc (ranked, exp). f64_add acc (reciprocal_rank ranked exp)) f64_zero (zip rankings expected)
      in bind_res (sort_latencies (map clock [0..<length labels])) (\<lambda>latencies.
         bind_res (top_k_accuracy rankings expected 1) (\<lambda>t1.
         bind_res (top_k_accuracy rankings expected 3) (\<lambda>t3.
         bind_res (top_k_accuracy rankings expected 10) (\<lambda>t10.
         Inr \<lparr>mt_labels_scored = length labels, mt_labels_discarded = discarded, mt_top_1 = t1, mt_top_3 = t3, mt_top_10 = t10,
              mt_mrr = f64_div rr_sum (f64_of_nat (length labels)), mt_latency_p50_ms = percentile latencies f64_half,
              mt_latency_p95_ms = percentile latencies f64_p95, mt_peak_gpu_bytes = 0, mt_bytes_before_hit = no_bytes\<rparr>))))))"

text \<open>The metrics of each group of labels that is not empty.\<close>

definition breakdown :: "('k \<Rightarrow> nat \<Rightarrow> f64) \<Rightarrow> 'i searcher \<Rightarrow> stage_timings \<Rightarrow> (eval_label \<Rightarrow> 'k) \<Rightarrow> 'k list \<Rightarrow> eval_label list \<Rightarrow> ablation \<Rightarrow> nat \<Rightarrow>
    (eval_error, ('k \<times> metrics) list) res" where
  "breakdown clock se tm group_of keys labels abl discarded =
     map_res (\<lambda>k. bind_res (run_ablation se tm (clock k) (filter (\<lambda>l. group_of l = k) labels) abl discarded) (\<lambda>mt. Inr (k, mt)))
       (filter (\<lambda>k. filter (\<lambda>l. group_of l = k) labels \<noteq> []) keys)"

definition breakdown_by_source :: "(label_source \<Rightarrow> nat \<Rightarrow> f64) \<Rightarrow> 'i searcher \<Rightarrow> stage_timings \<Rightarrow> eval_label list \<Rightarrow> ablation \<Rightarrow> nat \<Rightarrow>
    (eval_error, (label_source \<times> metrics) list) res" where
  "breakdown_by_source clock se tm labels abl discarded =
     breakdown clock se tm lb_source [CommitSubject, Docstring] labels abl discarded"

definition breakdown_by_length :: "(length_bucket \<Rightarrow> nat \<Rightarrow> f64) \<Rightarrow> 'i searcher \<Rightarrow> stage_timings \<Rightarrow> eval_label list \<Rightarrow> ablation \<Rightarrow> nat \<Rightarrow>
    (eval_error, (length_bucket \<times> metrics) list) res" where
  "breakdown_by_length clock se tm labels abl discarded =
     breakdown clock se tm (\<lambda>l. bucket_from_query (lb_query l)) [Short, Medium, Long] labels abl discarded"

text \<open>What a run was made with; it is only carried along. The fusion settings have the fields of \<open>fusion_config\<close>.\<close>

record run_manifest =
  rm_repo_commit :: string
  rm_indexed_commit :: string
  rm_model_id :: string
  rm_fusion :: fusion_config
  rm_harness_version :: nat
  rm_label_set :: string
  rm_timestamp :: string

record eval_run =
  er_manifest :: run_manifest
  er_per_ablation :: "(ablation \<times> metrics) list"
  er_by_source :: "(label_source \<times> metrics) list"
  er_by_query_length :: "(length_bucket \<times> metrics) list"

text \<open>A later run of an ablation replaces an earlier one.\<close>

definition evaluate :: "(ablation \<Rightarrow> nat \<Rightarrow> f64) \<Rightarrow> (label_source \<Rightarrow> nat \<Rightarrow> f64) \<Rightarrow> (length_bucket \<Rightarrow> nat \<Rightarrow> f64) \<Rightarrow> 'i searcher \<Rightarrow> stage_timings \<Rightarrow>
    chunk_store \<Rightarrow> eval_label list \<Rightarrow> ablation list \<Rightarrow> run_manifest \<Rightarrow> (eval_error, eval_run) res" where
  "evaluate clock_a clock_s clock_l se tm s labels ablations manifest =
     (case partition_labels s labels of (scored, discarded) \<Rightarrow>
      bind_res (map_res (\<lambda>a. bind_res (run_ablation se tm (clock_a a) scored a discarded) (\<lambda>mt. Inr (a, mt))) ablations) (\<lambda>per.
      bind_res (breakdown_by_source clock_s se tm scored Fused discarded) (\<lambda>by_source.
      bind_res (breakdown_by_length clock_l se tm scored Fused discarded) (\<lambda>by_len.
      Inr \<lparr>er_manifest = manifest, er_per_ablation = fold (\<lambda>(a, mt) kvs. (a, mt) # filter (\<lambda>kv. fst kv \<noteq> a) kvs) per [], er_by_source = by_source, er_by_query_length = by_len\<rparr>))))"

section \<open>The hand-written labels\<close>

text \<open>The entries are those of the JSON file, \<open>Inl\<close> the error of reading or parsing it.\<close>

definition load_handwritten :: "eval_error + (string \<times> (string \<times> string) list) list \<Rightarrow> (eval_error, eval_label list) res" where
  "load_handwritten entries_of = (case entries_of of
     Inl e \<Rightarrow> Inl (Raise e)
   | Inr es \<Rightarrow> Inr (map (\<lambda>(i, query, expected). \<lparr>lb_query = query, lb_expected = expected, lb_source = CommitSubject,
         lb_provenance = ''handwritten:'' @ show_nat i\<rparr>) (enumerate 0 es)))"

section \<open>Bytes before the hit\<close>

text \<open>
  What the byte counts read outside the index: the outcome of \<open>rg\<close> for a keyword (its exit code, output and error output, or that it
  cannot be run), the length of a file as its metadata has it, the repository's tree, and \<open>px_json_len\<close>, the length of the serialized fields
  of a result.
\<close>

datatype rg_outcome = RgExit "int option" bytes bytes | RgMissing

record proxy_env =
  px_rg :: "string \<Rightarrow> rg_outcome"
  px_size :: "string \<Rightarrow> nat option"
  px_tree :: "string + source_entry list"
  px_json_len :: "search_result \<Rightarrow> nat"

definition BASELINE_COMMAND :: string where
  "BASELINE_COMMAND = ''rg --files-with-matches -F''"

fun mcp_bytes_to_first_hit :: "(search_result \<Rightarrow> nat) \<Rightarrow> search_result list \<Rightarrow> (string \<times> string) list \<Rightarrow> nat \<Rightarrow> nat" where
  "mcp_bytes_to_first_hit json_len [] expected n = n"
| "mcp_bytes_to_first_hit json_len (r # rs) expected n =
     (let n = n + json_len r
      in if list_ex (\<lambda>(f, s). f = res_file r \<and> s = res_symbol r) expected then n else mcp_bytes_to_first_hit json_len rs expected n)"

definition forward_slashes :: "string \<Rightarrow> string" where
  "forward_slashes p = replace_char (CHR 0x5C) (CHR ''/'') p"

text \<open>The sizes of the files up to and including the expected one; a file without metadata counts nothing.\<close>

fun bytes_until :: "(string \<Rightarrow> nat option) \<Rightarrow> string \<Rightarrow> string list \<Rightarrow> nat \<Rightarrow> nat" where
  "bytes_until size_of expected [] n = n"
| "bytes_until size_of expected (p # ps) n =
     (let n = n + (case size_of p of Some k \<Rightarrow> k | None \<Rightarrow> 0)
      in if forward_slashes p = forward_slashes expected then n else bytes_until size_of expected ps n)"

fun walk_all :: "string \<Rightarrow> source_entry list \<Rightarrow> (eval_error, string list) res" where
  "walk_all dir [] = Inr []"
| "walk_all dir (SrcFile name t # es) =
     (if name = ''.git'' then walk_all dir es else bind_res (walk_all dir es) (\<lambda>fs. Inr ((dir @ name) # fs)))"
| "walk_all dir (SrcDir name err kids # es) =
     (if name = ''.git'' then walk_all dir es
      else case err of Some e \<Rightarrow> Inl (Raise (EIo e))
      | None \<Rightarrow> bind_res (walk_all (dir @ name @ ''/'') kids) (\<lambda>xs. bind_res (walk_all dir es) (\<lambda>ys. Inr (xs @ ys))))"

definition fallback_walk_bytes :: "proxy_env \<Rightarrow> string \<Rightarrow> string \<Rightarrow> (eval_error, nat \<times> string) res" where
  "fallback_walk_bytes px expected_file cmd =
     (case px_tree px of
        Inl e \<Rightarrow> Inl (Raise (EIo e))
      | Inr es \<Rightarrow> bind_res (walk_all [] es) (\<lambda>files.
          Inr (bytes_until (px_size px) expected_file (sort_key (\<lambda>f. map byte_key (split_on (CHR ''/'') f)) files) 0, cmd)))"

definition baseline_bytes_to_file :: "proxy_env \<Rightarrow> string \<Rightarrow> string \<Rightarrow> (eval_error, nat \<times> string) res" where
  "baseline_bytes_to_file px query expected_file =
     (let keyword = (case split_whitespace query of [] \<Rightarrow> query | w # ws \<Rightarrow> w);
          cmd = BASELINE_COMMAND @ '' '' @ keyword
      in case px_rg px keyword of
           RgExit code out err \<Rightarrow>
             if code = Some 0 \<or> code = Some 1 then Inr (bytes_until (px_size px) expected_file (lines (from_utf8_lossy out)) 0, cmd)
             else Inl (Raise (Message (''rg failed: '' @ from_utf8_lossy err)))
         | RgMissing \<Rightarrow> fallback_walk_bytes px expected_file cmd)"

definition label_bytes_before_hit :: "proxy_env \<Rightarrow> 'i searcher \<Rightarrow> stage_timings \<Rightarrow> eval_label \<Rightarrow> fusion_config \<Rightarrow>
    (eval_error, nat \<times> nat \<times> string) res" where
  "label_bytes_before_hit px se tm l config =
     bind_res (map_err (\<lambda>e. ERetrieval (retrieval_to_string e)) (search se tm (lb_query l) 20 config)) (\<lambda>resp.
     let mcp = mcp_bytes_to_first_hit (px_json_len px) (rs_results resp) (lb_expected l) 0;
         expected_file = (case lb_expected l of [] \<Rightarrow> [] | e # es \<Rightarrow> fst e)
     in bind_res (baseline_bytes_to_file px (lb_query l) expected_file) (\<lambda>(baseline, cmd). Inr (mcp, baseline, cmd)))"

text \<open>\<open>x as u64\<close> truncates towards zero.\<close>

definition f64_as_u64 :: "f64 \<Rightarrow> nat" where
  "f64_as_u64 a =
     (let b = uint a
      in if fp_is_nan F64 b then 0
         else if fp_is_inf F64 b then (if fp_neg F64 b then 0 else 2 ^ 64 - 1)
         else min (nat \<lfloor>fp_val F64 b\<rfloor>) (2 ^ 64 - 1))"

definition median_bytes_before_hit :: "proxy_env \<Rightarrow> 'i searcher \<Rightarrow> stage_timings \<Rightarrow> eval_label list \<Rightarrow> fusion_config \<Rightarrow>
    (eval_error, bytes_before_hit) res" where
  "median_bytes_before_hit px se tm labels config =
     bind_res (map_res (\<lambda>l. label_bytes_before_hit px se tm l config) labels) (\<lambda>vals.
     bind_res (sort_latencies (map (\<lambda>v. f64_of_nat (fst v)) vals)) (\<lambda>mcp_vals.
     bind_res (sort_latencies (map (\<lambda>v. f64_of_nat (fst (snd v))) vals)) (\<lambda>base_vals.
     Inr \<lparr>bb_mcp_median = f64_as_u64 (percentile mcp_vals f64_half), bb_baseline_median = f64_as_u64 (percentile base_vals f64_half),
          bb_baseline_command = (if vals = [] then BASELINE_COMMAND else snd (snd (last vals)))\<rparr>)))"

end
