(* ===== verification/Mining_Props.thy ===== *)
theory Mining_Props
  imports Mining Chunker_Props
begin

text \<open>
  Every examined commit is accounted for by the report, and every mined label satisfies the rules it was selected by. A held-out index
  carries no documentation.
\<close>

section \<open>Reports\<close>

lemma sum_count_up [simp]: "sum_list (map snd (count_up k cs)) = Suc (sum_list (map snd cs))"
  by (induction k cs rule: count_up.induct) auto

lemma reconciles_reject:
  "reconciles report \<Longrightarrow> reconciles (reject reason (report\<lparr>mp_commits_examined := Suc (mp_commits_examined report)\<rparr>))"
  by (simp add: reconciles_def reject_def)

lemma reject_fields [simp]:
  "mp_commits_examined (reject reason report) = mp_commits_examined report"
  "mp_labels_accepted (reject reason report) = mp_labels_accepted report"
  by (simp_all add: reject_def)

section \<open>Labels\<close>

definition label_ok :: "mining_config \<Rightarrow> (string \<times> string) list \<Rightarrow> (string \<times> (string \<Rightarrow> bool)) list \<Rightarrow> eval_label \<Rightarrow> bool" where
  "label_ok cfg indexed maintenance l \<longleftrightarrow> lb_expected l \<noteq> [] \<and> length (lb_expected l) \<le> mn_max_symbols_per_commit cfg \<and>
     distinct (lb_expected l) \<and> set (lb_expected l) \<subseteq> set indexed \<and> mn_min_subject_words cfg \<le> length (split_whitespace (lb_query l)) \<and>
     (\<forall>(name, re) \<in> set maintenance. \<not> re (lb_query l)) \<and> lb_source l = CommitSubject"

lemma pair_set_simps [simp]: "set (pair_set ps) = set ps" "distinct (pair_set ps)"
  by (simp_all add: pair_set_def)

lemma touched_symbols_distinct: "touched_symbols G chunk commit parent = Inr touched \<Longrightarrow> distinct touched"
  by (auto simp: touched_symbols_def bind_res_Inr_conv)

lemma match_maintenance_None: "match_maintenance subject ms = None \<longleftrightarrow> (\<forall>(name, re) \<in> set ms. \<not> re subject)"
  by (auto simp: match_maintenance_def find_None_iff)

lemma judge_commit_label:
  assumes "judge_commit G chunk cfg indexed maintenance c = Inr (Inr l)"
  shows "label_ok cfg indexed maintenance l \<and> lb_provenance l = mc_id c"
proof -
  obtain subject parent touched where
    s: "match_maintenance subject maintenance = None" "\<not> length (split_whitespace subject) < mn_min_subject_words cfg"
    and t: "touched_symbols G chunk (mc_id c) parent = Inr touched" "touched \<noteq> []" "\<not> mn_max_symbols_per_commit cfg < length touched"
      "filter (\<lambda>pair. pair \<notin> set indexed) touched = []"
    and l: "l = \<lparr>lb_query = subject, lb_expected = touched, lb_source = CommitSubject, lb_provenance = mc_id c\<rparr>"
    using assms by (auto simp: judge_commit_def Let_def bind_res_Inr_conv split: if_splits option.splits)
  have "set touched \<subseteq> set indexed" using t(4) by (auto simp: filter_empty_conv)
  then show ?thesis
    using s t touched_symbols_distinct [OF t(1)] by (auto simp: l label_ok_def match_maintenance_None)
qed

text \<open>The state of the walk: the counters agree with the commits seen so far and the labels collected.\<close>

definition mining_inv :: "mining_config \<Rightarrow> (string \<times> string) list \<Rightarrow> (string \<times> (string \<Rightarrow> bool)) list \<Rightarrow> mining_report \<Rightarrow> eval_label list \<Rightarrow> bool" where
  "mining_inv cfg indexed maintenance report labels \<longleftrightarrow> reconciles report \<and> mp_labels_accepted report = length labels \<and>
     list_all (label_ok cfg indexed maintenance) labels \<and> (\<forall>m. mn_max_commits cfg = Some m \<longrightarrow> mp_commits_examined report \<le> m)"

lemma mine_walk_inv:
  "mine_walk G chunk cfg indexed maintenance walk report labels = Inr (report', labels') \<Longrightarrow>
   mining_inv cfg indexed maintenance report labels \<Longrightarrow> mining_inv cfg indexed maintenance report' labels'"
proof (induction walk arbitrary: report labels)
  case (Cons info walk)
  show ?case
  proof (cases "case mn_max_commits cfg of Some m \<Rightarrow> m \<le> mp_commits_examined report | None \<Rightarrow> False")
    case True
    then show ?thesis using Cons.prems by (auto simp: bind_res_Inr_conv)
  next
    case False
    let ?r = "report\<lparr>mp_commits_examined := Suc (mp_commits_examined report)\<rparr>"
    obtain commit_id c verdict where v: "git_result info = Inr commit_id" "git_result (mg_commit G commit_id) = Inr c"
      "judge_commit G chunk cfg indexed maintenance c = Inr verdict"
      and go: "(case verdict of Inl reason \<Rightarrow> mine_walk G chunk cfg indexed maintenance walk (reject reason ?r) labels
        | Inr lb \<Rightarrow> mine_walk G chunk cfg indexed maintenance walk (?r\<lparr>mp_labels_accepted := Suc (mp_labels_accepted report)\<rparr>) (labels @ [lb])) =
        Inr (report', labels')"
      using Cons.prems(1) False by (auto simp: bind_res_Inr_conv Let_def)
    have bound: "\<forall>m. mn_max_commits cfg = Some m \<longrightarrow> mp_commits_examined report + 1 \<le> m" using False by (auto split: option.splits)
    show ?thesis
    proof (cases verdict)
      case (Inl reason)
      then show ?thesis using Cons go bound reconciles_reject by (simp add: mining_inv_def)
    next
      case (Inr lb)
      have "label_ok cfg indexed maintenance lb" using judge_commit_label v(3) Inr by blast
      then have "mining_inv cfg indexed maintenance (?r\<lparr>mp_labels_accepted := Suc (mp_labels_accepted report)\<rparr>) (labels @ [lb])"
        using Cons.prems(2) bound by (simp add: mining_inv_def reconciles_def)
      then show ?thesis using Cons.IH go Inr by simp
    qed
  qed
qed simp

lemma mem_indexed_symbol_set:
  "p \<in> set (indexed_symbol_set s) \<longleftrightarrow> (\<exists>r \<in> set (live_rows s). \<exists>rec. get_row s r = Some rec \<and>
     rec_symbol rec \<noteq> ''<file_prelude>'' \<and> p = (rec_file rec, rec_symbol rec))"
proof -
  have "p \<in> set (case get_row s r of Some rec \<Rightarrow> if rec_symbol rec = ''<file_prelude>'' then [] else [(rec_file rec, rec_symbol rec)] | None \<Rightarrow> []) \<longleftrightarrow>
      (\<exists>rec. get_row s r = Some rec \<and> rec_symbol rec \<noteq> ''<file_prelude>'' \<and> p = (rec_file rec, rec_symbol rec))" for r
    by (cases "get_row s r") auto
  then show ?thesis by (simp add: indexed_symbol_set_def)
qed

lemma mem_compile_maintenance:
  "compile_maintenance G ps = Inr ms \<Longrightarrow> p \<in> set ps \<Longrightarrow> mg_regex G p = Inr re \<Longrightarrow> (p, re) \<in> set ms"
  by (induction ps arbitrary: ms) (auto simp: compile_maintenance_def bind_res_Inr_conv)

lemma by_provenance_simps [simp]: "set (by_provenance ls) = set ls" "length (by_provenance ls) = length ls"
  by (simp_all add: by_provenance_def)

text \<open>
  C40: mining accounts for every commit and selects by its rules. When mining commits succeeds, every commit examined is either a
  label or counted under exactly one rule, no more commits are examined than allowed, the labels come in the order of
  their provenance, and each label expects at least one and at most the allowed number of distinct symbols, all of them symbols of
  live chunks of the store, under a subject that is long enough and matches no maintenance pattern.
\<close>

theorem mined_labels_account_for_commits:
  assumes "mine_commits G ts blake3 repo s cfg = Inr (labels, report)"
  shows "reconciles report \<and> mp_labels_accepted report = length labels \<and>
     (\<forall>m. mn_max_commits cfg = Some m \<longrightarrow> mp_commits_examined report \<le> m) \<and>
     sorted (map (\<lambda>l. byte_key (lb_provenance l)) labels) \<and>
     (\<forall>l \<in> set labels. 0 < length (lb_expected l) \<and> length (lb_expected l) \<le> mn_max_symbols_per_commit cfg \<and> distinct (lb_expected l) \<and>
        (\<forall>(path, symbol) \<in> set (lb_expected l). symbol \<noteq> ''<file_prelude>'' \<and>
           (\<exists>r \<in> set (live_rows s). \<exists>rec. get_row s r = Some rec \<and> rec_file rec = path \<and> rec_symbol rec = symbol)) \<and>
        mn_min_subject_words cfg \<le> length (split_whitespace (lb_query l)) \<and>
        (\<forall>p \<in> set (mn_maintenance_patterns cfg). \<forall>re. mg_regex G p = Inr re \<longrightarrow> \<not> re (lb_query l)))"
proof -
  obtain ms configs walk ls where ms: "compile_maintenance G (mn_maintenance_patterns cfg) = Inr ms"
    and w: "mine_walk G (eval_chunker ts blake3 configs) cfg (indexed_symbol_set s) ms walk new_mining_report [] = Inr (report, ls)"
    and ls: "labels = by_provenance ls"
    using assms by (auto simp: mine_commits_def bind_res_Inr_conv)
  have "mining_inv cfg (indexed_symbol_set s) ms new_mining_report []"
    by (simp add: mining_inv_def new_mining_report_def reconciles_def)
  from mine_walk_inv [OF w this] have inv: "mining_inv cfg (indexed_symbol_set s) ms report ls" .
  have ok: "label_ok cfg (indexed_symbol_set s) ms l" if "l \<in> set labels" for l
    using that inv by (simp add: ls mining_inv_def list_all_iff)
  have srt: "sorted (map (\<lambda>l. byte_key (lb_provenance l)) labels)" by (simp add: ls by_provenance_def)
  have sym: "\<forall>(path, symbol) \<in> set (lb_expected l). symbol \<noteq> ''<file_prelude>'' \<and>
      (\<exists>r \<in> set (live_rows s). \<exists>rec. get_row s r = Some rec \<and> rec_file rec = path \<and> rec_symbol rec = symbol)" if "l \<in> set labels" for l
  proof (intro ballI)
    fix q assume "q \<in> set (lb_expected l)"
    then have "q \<in> set (indexed_symbol_set s)" using ok [OF that] by (auto simp: label_ok_def)
    then obtain r rec where "r \<in> set (live_rows s)" "get_row s r = Some rec" "rec_symbol rec \<noteq> ''<file_prelude>''" "q = (rec_file rec, rec_symbol rec)"
      by (auto simp: mem_indexed_symbol_set)
    then show "case q of (path, symbol) \<Rightarrow> symbol \<noteq> ''<file_prelude>'' \<and>
        (\<exists>r \<in> set (live_rows s). \<exists>rec. get_row s r = Some rec \<and> rec_file rec = path \<and> rec_symbol rec = symbol)" by auto
  qed
  have pat: "\<forall>p \<in> set (mn_maintenance_patterns cfg). \<forall>re. mg_regex G p = Inr re \<longrightarrow> \<not> re (lb_query l)" if "l \<in> set labels" for l
  proof (intro ballI allI impI)
    fix p re assume p: "p \<in> set (mn_maintenance_patterns cfg)" "mg_regex G p = Inr re"
    show "\<not> re (lb_query l)" using ok [OF that] mem_compile_maintenance [OF ms p] by (auto simp: label_ok_def)
  qed
  have "0 < length (lb_expected l) \<and> length (lb_expected l) \<le> mn_max_symbols_per_commit cfg \<and> distinct (lb_expected l) \<and>
      mn_min_subject_words cfg \<le> length (split_whitespace (lb_query l))" if "l \<in> set labels" for l
    using ok [OF that] by (simp add: label_ok_def)
  note each = this sym pat
  have rep: "reconciles report" "mp_labels_accepted report = length labels" "\<forall>m. mn_max_commits cfg = Some m \<longrightarrow> mp_commits_examined report \<le> m"
    using inv by (simp_all add: mining_inv_def ls)
  show ?thesis
    by (intro conjI rep srt, rule ballI, frule each(1), frule each(2), drule each(3)) blast
qed

text \<open>Two commits: one adds a documented function that is indexed, the other is a merge.\<close>

definition wit_mining :: mining_git where
  "wit_mining = \<lparr>mg_head = Inr ''c2'', mg_walk = (\<lambda>_. Inr [Inr ''c2'', Inr ''c1'']),
     mg_commit = (\<lambda>i. Inr \<lparr>mc_id = i, mc_parents = (if i = ''c2'' then [''c1'', ''c0''] else []),
       mc_message = Inr (''Add the helper f'' @ [newline])\<rparr>),
     mg_tree = Inr, mg_diff_trees = (\<lambda>_ _. Inr [Addition ''a.rs'' \<lparr>em_is_blob = True, em_is_link = False\<rparr>]),
     mg_lookup = (\<lambda>_ _. Inr (Some (\<lparr>em_is_blob = True, em_is_link = False\<rparr>, ''o''))), mg_object = (\<lambda>_. Inr wit_source),
     mg_diff_lines = (\<lambda>_ _. []), mg_regex = (\<lambda>p. Inr (\<lambda>t. t = p)), mg_utf8_error = (\<lambda>_. [])\<rparr>"

definition wit_mined_store :: chunk_store where
  "wit_mined_store = \<lparr>cs_dir = Map.empty, cs_db_path = DB_NAME, cs_conn = \<lparr>db_chunks = [\<lparr>cr_rowid = 0, cr_rec = ck_record wit_chunk,
       cr_live = True\<rparr>], db_meta = Map.empty\<rparr>, cs_matrix_path = MATRIX_NAME, cs_matrix = None, cs_statements_prepared = 0,
     cs_fail_before_commit = False\<rparr>"

definition wit_config :: mining_config where
  "wit_config = default_mining_config\<lparr>mn_enforce_pinned_revision := False\<rparr>"

definition wit_label :: eval_label where
  "wit_label = \<lparr>lb_query = ''Add the helper f'', lb_expected = [(''a.rs'', ''f'')], lb_source = CommitSubject, lb_provenance = ''c1''\<rparr>"

definition wit_report :: mining_report where
  "wit_report = \<lparr>mp_commits_examined = 2, mp_labels_accepted = 1, mp_rejected = [(''merge'', 1)]\<rparr>"

lemma wit_mining_simps:
  "mg_head wit_mining = Inr ''c2''" "mg_walk wit_mining t = Inr [Inr ''c2'', Inr ''c1'']" "mg_tree wit_mining t = Inr t"
  "mg_commit wit_mining i = Inr \<lparr>mc_id = i, mc_parents = (if i = ''c2'' then [''c1'', ''c0''] else []),
     mc_message = Inr (''Add the helper f'' @ [newline])\<rparr>"
  "mg_regex wit_mining p = Inr (\<lambda>t. t = p)"
  by (simp_all add: wit_mining_def)

lemma wit_chunker: "chunk_file wit_ts wit_hash (rust_config # cs) ''a.rs'' Rust wit_source = Inr \<lparr>fc_chunks = [wit_chunk], fc_diagnostics = []\<rparr>"
  using wit_chunks by (simp add: chunk_file_def)

lemma wit_subject:
  "valid_utf8 (''Add the helper f'' @ [newline])" "trim (case lines (''Add the helper f'' @ [newline]) of [] \<Rightarrow> [] | l # _ \<Rightarrow> l) = ''Add the helper f''"
  "length (split_whitespace ''Add the helper f'') = 4" "valid_utf8 wit_source" "language_from_path ''a.rs'' = Some Rust" "location_to_string ''a.rs'' = Some ''a.rs''"
  "length (lines wit_source) = 2"
  by code_simp+

lemma wit_touched: "touched_symbols wit_mining (eval_chunker wit_ts wit_hash (rust_config # cs)) ''c1'' None = Inr [(''a.rs'', ''f'')]"
proof -
  have p: "changed_paths wit_mining None ''c1'' = Inr [''a.rs'']"
    by (simp add: changed_paths_def wit_mining_def git_result_def change_location_def wit_subject List.map_filter_def)
  have b: "blob_at_tree wit_mining ''c1'' ''a.rs'' = Inr (Some wit_source)"
    by (simp add: blob_at_tree_def wit_mining_def git_result_def blob_or_link_def wit_subject)
  have l: "line_count wit_source = 2" by (simp add: line_count_def wit_subject) (simp add: wit_source_def)
  have r: "rec_symbol (ck_record wit_chunk) = ''f''" "rec_line_start (ck_record wit_chunk) = 1" "rec_line_end (ck_record wit_chunk) = 2"
    "rec_file (ck_record wit_chunk) = ''a.rs''"
    by (simp_all add: wit_chunk_def record_of_def replace_char_def)
  have "touched_in_path wit_mining (eval_chunker wit_ts wit_hash (rust_config # cs)) None ''c1'' ''a.rs'' = Inr [(''a.rs'', ''f'')]"
    by (simp add: touched_in_path_def wit_subject b l eval_chunker_def wit_chunker touched_in_def r numeral_2_eq_2)
  then show ?thesis by (simp add: touched_symbols_def wit_mining_simps git_result_def p pair_set_def)
qed

lemma wit_mined: "mine_commits wit_mining wit_ts wit_hash (Inl []) wit_mined_store wit_config = Inr ([wit_label], wit_report)"
proof -
  let ?ms = "map (\<lambda>p. (p, \<lambda>t. t = p)) [''wip'', ''fixup'', ''typo'', ''bump'', ''lint'']"
  have ms: "compile_maintenance wit_mining (mn_maintenance_patterns wit_config) = Inr ?ms"
    by (simp add: compile_maintenance_def wit_mining_simps wit_config_def default_mining_config_def)
  have ix: "indexed_symbol_set wit_mined_store = [(''a.rs'', ''f'')]"
    by (simp add: indexed_symbol_set_def wit_mined_store_def live_rows_def get_row_def first_row_def row_to_record_def wit_chunk_def
        record_of_def replace_char_def pair_set_def)
  obtain cs where cs: "chunker_new wit_ts = Inr (rust_config # cs)" by (simp add: chunker_new_def wit_ts_def)
  have merge: "judge_commit wit_mining chunk wit_config ix ms \<lparr>mc_id = ''c2'', mc_parents = [''c1'', ''c0''], mc_message = m\<rparr> = Inr (Inl Merge)"
    for chunk ix ms m by (simp add: judge_commit_def)
  have "judge_commit wit_mining (eval_chunker wit_ts wit_hash (rust_config # cs)) wit_config [(''a.rs'', ''f'')] ?ms
      \<lparr>mc_id = ''c1'', mc_parents = [], mc_message = Inr (''Add the helper f'' @ [newline])\<rparr> = Inr (Inr wit_label)"
    using wit_subject(1,2)
    by (simp add: judge_commit_def commit_subject_def git_result_def match_maintenance_def wit_config_def default_mining_config_def
        wit_subject wit_touched wit_label_def)
  then have "mine_walk wit_mining (eval_chunker wit_ts wit_hash (rust_config # cs)) wit_config [(''a.rs'', ''f'')] ?ms [Inr ''c2'', Inr ''c1'']
      new_mining_report [] = Inr (wit_report, [wit_label])"
    using merge by (simp add: git_result_def wit_mining_simps wit_config_def default_mining_config_def new_mining_report_def reject_def
        wit_report_def)
  then show ?thesis
    unfolding mine_commits_def ms ix cs wit_mining_simps git_result_def sum.case bind_res_simps map_err_simps
    by (simp add: wit_config_def by_provenance_def)
qed

theorem mined_labels_account_for_commits_witness:
  "mine_commits wit_mining wit_ts wit_hash (Inl []) wit_mined_store wit_config = Inr ([wit_label], wit_report) \<and> reconciles wit_report \<and>
   length (lb_expected wit_label) \<le> mn_max_symbols_per_commit wit_config"
  using wit_mined mined_labels_account_for_commits [OF wit_mined] by simp

end
