(* ===== verification/Evaluation_Props.thy ===== *)
theory Evaluation_Props
  imports Evaluation Mining_Props Search_Degraded
begin

text \<open>
  An evaluation accounts for every label: each ablation scores the labels whose symbols are indexed and counts the others as discarded,
  and the two breakdowns split the scored ones without overlap. A longer list of results never has fewer hits.
\<close>

section \<open>Metrics\<close>

lemma length_filter_mono: "(\<And>x. P x \<Longrightarrow> Q x) \<Longrightarrow> length (filter P xs) \<le> length (filter Q xs)"
  by (induction xs) (auto simp: le_SucI)

lemma top_k_hits_mono: "j \<le> k \<Longrightarrow> top_k_hits rankings expected j \<le> top_k_hits rankings expected k"
  unfolding top_k_hits_def using set_take_subset_set_take [of j k]
  by (intro length_filter_mono) (fastforce simp: list_ex_iff)

lemma first_hit_iff: "first_hit expected i ranked = Some n \<longleftrightarrow>
    i \<le> n \<and> n - i < length ranked \<and> ranked ! (n - i) \<in> set expected \<and> (\<forall>j < n - i. ranked ! j \<notin> set expected)"
proof (induction ranked arbitrary: i)
  case (Cons c ranked)
  show ?case
  proof (cases "n - i")
    case 0
    then show ?thesis using Cons.IH [of "i + 1"] by auto
  next
    case (Suc d)
    then have "n - (i + 1) = d" "i \<le> n" by simp_all
    then show ?thesis using Cons.IH [of "i + 1"] Suc by (auto simp: less_Suc_eq_0_disj)
  qed
qed simp

section \<open>Groups of labels\<close>

lemma sum_group_sizes:
  "distinct ks \<Longrightarrow> g ` set ls \<subseteq> set ks \<Longrightarrow> (\<Sum>k\<leftarrow>ks. length (filter (\<lambda>l. g l = k) ls)) = length ls"
proof (induction ls)
  case (Cons l ls)
  have "(\<Sum>k\<leftarrow>ks. length (filter (\<lambda>x. g x = k) (l # ls))) = (\<Sum>k\<leftarrow>ks. (if g l = k then 1 else 0) + length (filter (\<lambda>x. g x = k) ls))"
    by (rule arg_cong [of _ _ sum_list], rule map_cong) simp_all
  also have "\<dots> = (\<Sum>k\<leftarrow>ks. if g l = k then 1 else 0) + length ls" using Cons by (simp add: sum_list_addf)
  also have "(\<Sum>k\<leftarrow>ks. if g l = k then 1 else 0 :: nat) = 1"
    using Cons.prems by (simp add: sum_list_distinct_conv_sum_set)
  finally show ?case by simp
qed simp

lemma sum_filter_nonzero: "(\<Sum>k\<leftarrow>filter (\<lambda>k. f k \<noteq> []) ks. length (f k)) = (\<Sum>k\<leftarrow>ks. length (f k))"
  by (induction ks) auto

lemma map_res_pairs:
  assumes "map_res (\<lambda>k. bind_res (f k) (\<lambda>v. Inr (k, v))) ks = Inr kvs"
  shows "map fst kvs = ks" "\<forall>(k, v) \<in> set kvs. f k = Inr v"
  using assms by (induction ks arbitrary: kvs) (auto simp: bind_res_Inr_conv)

lemma map_res_values:
  assumes "map_res (\<lambda>k. bind_res (f k) (\<lambda>v. Inr (k, v))) ks = Inr kvs" "\<And>k v. f k = Inr v \<Longrightarrow> h v = w k"
  shows "map (\<lambda>kv. h (snd kv)) kvs = map w ks"
  using assms(1) by (induction ks arbitrary: kvs) (auto simp: bind_res_Inr_conv assms(2))

lemma run_ablation_counts:
  "run_ablation se tm clock labels abl discarded = Inr mt \<Longrightarrow> mt_labels_scored mt = length labels \<and> mt_labels_discarded mt = discarded"
  by (auto simp: run_ablation_def no_metrics_def bind_res_Inr_conv Let_def split: if_splits)

lemma breakdown_counts:
  assumes "breakdown clock se tm g ks labels abl discarded = Inr kvs" "distinct ks" "g ` set labels \<subseteq> set ks"
  shows "(\<Sum>kv\<leftarrow>kvs. mt_labels_scored (snd kv)) = length labels"
proof -
  have "map (\<lambda>kv. mt_labels_scored (snd kv)) kvs = map (\<lambda>k. length (filter (\<lambda>l. g l = k) labels)) (filter (\<lambda>k. filter (\<lambda>l. g l = k) labels \<noteq> []) ks)"
    by (rule map_res_values [OF assms(1) [unfolded breakdown_def]]) (simp add: run_ablation_counts)
  then show ?thesis using sum_filter_nonzero [of "\<lambda>k. filter (\<lambda>l. g l = k) labels" ks] sum_group_sizes [OF assms(2,3)] by simp
qed

text \<open>A label can be scored when it expects some symbol and every symbol it expects is that of a live row.\<close>

definition label_indexed :: "chunk_store \<Rightarrow> eval_label \<Rightarrow> bool" where
  "label_indexed s l \<longleftrightarrow> lb_expected l \<noteq> [] \<and> (\<forall>e \<in> set (lb_expected l).
     \<exists>r \<in> set (live_rows s). \<exists>rec. get_row s r = Some rec \<and> e = (rec_file rec, rec_symbol rec))"

lemma partition_labels_eq:
  "partition_labels s labels = (filter (label_indexed s) labels, length labels - length (filter (label_indexed s) labels))"
proof -
  let ?ix = "concat (map (\<lambda>r. case get_row s r of Some rec \<Rightarrow> [(rec_file rec, rec_symbol rec)] | None \<Rightarrow> []) (live_rows s))"
  have "e \<in> set ?ix \<longleftrightarrow> (\<exists>r \<in> set (live_rows s). \<exists>rec. get_row s r = Some rec \<and> e = (rec_file rec, rec_symbol rec))" for e
  proof -
    have "e \<in> set (case get_row s r of Some rec \<Rightarrow> [(rec_file rec, rec_symbol rec)] | None \<Rightarrow> []) \<longleftrightarrow>
        (\<exists>rec. get_row s r = Some rec \<and> e = (rec_file rec, rec_symbol rec))" for r by (cases "get_row s r") auto
    then show ?thesis by simp
  qed
  then have "(list_all (\<lambda>e. e \<in> set ?ix) (lb_expected l) \<and> lb_expected l \<noteq> []) = label_indexed s l" for l
    by (auto simp: label_indexed_def list_all_iff)
  then have "partition_labels s labels = (filter (label_indexed s) labels, length (filter (\<lambda>l. \<not> label_indexed s l) labels))"
    unfolding partition_labels_def Let_def by (simp only:)
  then show ?thesis using sum_length_filter_compl [of "label_indexed s" labels] by simp
qed

text \<open>Inserting the metrics in order keeps, for each ablation, the last.\<close>

definition insert_metrics :: "'k \<times> 'v \<Rightarrow> ('k \<times> 'v) list \<Rightarrow> ('k \<times> 'v) list" where
  "insert_metrics = (\<lambda>(a, mt) kvs. (a, mt) # filter (\<lambda>kv. fst kv \<noteq> a) kvs)"

lemma fold_insert_metrics:
  "distinct (map fst acc) \<Longrightarrow> distinct (map fst (fold insert_metrics kvs acc)) \<and>
   fst ` set (fold insert_metrics kvs acc) = fst ` set kvs \<union> fst ` set acc \<and> set (fold insert_metrics kvs acc) \<subseteq> set kvs \<union> set acc"
proof (induction kvs arbitrary: acc)
  case (Cons kv kvs)
  have d: "distinct (map fst (insert_metrics kv acc))" using Cons.prems
    by (cases kv) (auto simp: insert_metrics_def distinct_map intro: inj_on_subset)
  have k: "fst ` set (insert_metrics kv acc) = insert (fst kv) (fst ` set acc)" "set (insert_metrics kv acc) \<subseteq> insert kv (set acc)"
    by (auto simp: insert_metrics_def split: prod.splits)
  show ?case using Cons.IH [OF d] k by auto
qed simp

section \<open>Runs\<close>

lemma evaluate_Inr:
  assumes "evaluate clock_a clock_s clock_l se tm s labels ablations manifest = Inr run"
  obtains per by_source by_len where
    "map_res (\<lambda>a. bind_res (run_ablation se tm (clock_a a) (filter (label_indexed s) labels) a (length labels - length (filter (label_indexed s) labels)))
       (\<lambda>mt. Inr (a, mt))) ablations = Inr per"
    "breakdown_by_source clock_s se tm (filter (label_indexed s) labels) Fused (length labels - length (filter (label_indexed s) labels)) = Inr by_source"
    "breakdown_by_length clock_l se tm (filter (label_indexed s) labels) Fused (length labels - length (filter (label_indexed s) labels)) = Inr by_len"
    "run = \<lparr>er_manifest = manifest, er_per_ablation = fold insert_metrics per [], er_by_source = by_source, er_by_query_length = by_len\<rparr>"
  using assms unfolding evaluate_def partition_labels_eq prod.case insert_metrics_def [symmetric] bind_res_Inr_conv
  by (elim exE conjE) (rule that, assumption+, simp)

text \<open>
  C10: an evaluation that returns accounts for every label. Each requested ablation has exactly one entry, whose scored and discarded labels
  add up to the label set, the scored ones being those with expected symbols that are all indexed; the breakdowns by label source
  and by query length each add up to the scored labels.
\<close>

theorem evaluation_accounts_for_labels:
  assumes "evaluate clock_a clock_s clock_l se tm s labels ablations manifest = Inr run"
  shows "(distinct (map fst (er_per_ablation run)) \<and> fst ` set (er_per_ablation run) = set ablations) \<and>
    (\<forall>(a, mt) \<in> set (er_per_ablation run). mt_labels_scored mt = length (filter (label_indexed s) labels) \<and>
      mt_labels_scored mt + mt_labels_discarded mt = length labels) \<and>
    (\<Sum>kv\<leftarrow>er_by_source run. mt_labels_scored (snd kv)) = length (filter (label_indexed s) labels) \<and>
    (\<Sum>kv\<leftarrow>er_by_query_length run. mt_labels_scored (snd kv)) = length (filter (label_indexed s) labels) \<and>
    er_manifest run = manifest"
proof -
  let ?scored = "filter (label_indexed s) labels" let ?discarded = "length labels - length ?scored"
  obtain per by_source by_len where
    per: "map_res (\<lambda>a. bind_res (run_ablation se tm (clock_a a) ?scored a ?discarded) (\<lambda>mt. Inr (a, mt))) ablations = Inr per"
    and src: "breakdown_by_source clock_s se tm ?scored Fused ?discarded = Inr by_source"
    and len: "breakdown_by_length clock_l se tm ?scored Fused ?discarded = Inr by_len"
    and run: "run = \<lparr>er_manifest = manifest, er_per_ablation = fold insert_metrics per [], er_by_source = by_source, er_by_query_length = by_len\<rparr>"
    using assms by (elim evaluate_Inr)
  note pairs = map_res_pairs [OF per]
  have keys: "fst ` set per = set ablations" by (simp only: list.set_map [symmetric] pairs(1))
  note ins = fold_insert_metrics [of "[]" per, simplified]
  have k1: "distinct (map fst (er_per_ablation run)) \<and> fst ` set (er_per_ablation run) = set ablations"
    using ins keys by (simp add: run)
  have k2: "\<forall>(a, mt) \<in> set (er_per_ablation run). mt_labels_scored mt = length ?scored \<and> mt_labels_scored mt + mt_labels_discarded mt = length labels"
  proof clarify
    fix a mt assume "(a, mt) \<in> set (er_per_ablation run)"
    then have "run_ablation se tm (clock_a a) ?scored a ?discarded = Inr mt" using ins pairs(2) by (auto simp: run)
    from run_ablation_counts [OF this] show "mt_labels_scored mt = length ?scored \<and> mt_labels_scored mt + mt_labels_discarded mt = length labels"
      using length_filter_le [of "label_indexed s" labels] by simp
  qed
  have k3: "(\<Sum>kv\<leftarrow>er_by_source run. mt_labels_scored (snd kv)) = length ?scored"
    using breakdown_counts [OF src [unfolded breakdown_by_source_def]] label_source.exhaust by (simp add: run) blast
  have k4: "(\<Sum>kv\<leftarrow>er_by_query_length run. mt_labels_scored (snd kv)) = length ?scored"
    using breakdown_counts [OF len [unfolded breakdown_by_length_def]] length_bucket.exhaust by (simp add: run) blast
  have k5: "er_manifest run = manifest" by (simp add: run)
  show ?thesis using k1 k2 k3 k4 k5 by blast
qed

definition wit_eval_labels :: "eval_label list" where
  "wit_eval_labels = [wit_label, wit_label\<lparr>lb_expected := [(''a.rs'', ''gone'')]\<rparr>]"

definition wit_manifest :: run_manifest where
  "wit_manifest = \<lparr>rm_repo_commit = ''c2'', rm_indexed_commit = ''c2'', rm_model_id = ''m'', rm_fusion = default_config, rm_harness_version = 1,
     rm_label_set = ''mined'', rm_timestamp = []\<rparr>"

lemma wit_eval_search: "\<exists>resp. search (wit_searcher s) wit_timings q 10 (ablation_config a) = Inr resp"
proof -
  have l: "lexical_search list_engine ([], []) q k = Inr []" for k
    by (cases "build_query q") (simp_all add: lexical_search_def list_engine_def tantivy_error_def)
  have b: "bodies list_engine ([], []) rs = Inr (map (\<lambda>_. None) rs)" for rs
    unfolding bodies_def by (rule map_res_Inr) (simp add: load_document_def list_engine_def tantivy_error_def)
  have d: "dense_search \<lparr>di_matrix = [], di_rows = 0, di_dims = 1, di_model_id = ''m'', di_live = [], di_uploaded_bytes = 0\<rparr> [0x3C00] ''m'' k = Inr []" for k
    by (simp add: dense_search_def search_cpu_def chunks_exact.simps select_scores_def)
  have e: "eb_embed (se_embedder (wit_searcher s)) [q] Query = Inr [\<lparr>em_vector = [0x3C00], em_truncated = False\<rparr>]"
    by (simp add: wit_searcher_def searcher_new_def wit_embedder_def)
  have f: "fuse [] [] (ablation_config a) = []" by (simp add: fuse_def add_list_def)
  have "se_hooks (wit_searcher s) = no_hooks" by (simp add: wit_searcher_def searcher_new_def)
  from search_outcomes [OF this e, of wit_timings 10 "ablation_config a"] show ?thesis
    using l b d f by (simp add: wit_searcher_def searcher_new_def wit_embedder_def finish_search_def assemble_def)
qed

lemma wit_indexed: "filter (label_indexed wit_mined_store) wit_eval_labels = [wit_label]"
proof -
  have "live_rows wit_mined_store = [0]"
    "\<exists>rec. get_row wit_mined_store 0 = Some rec \<and> rec_file rec = ''a.rs'' \<and> rec_symbol rec = ''f''"
    by (simp_all add: wit_mined_store_def live_rows_def get_row_def first_row_def row_to_record_def wit_chunk_def record_of_def
        replace_char_def)
  then have "label_indexed wit_mined_store l \<longleftrightarrow> lb_expected l \<noteq> [] \<and> (\<forall>e \<in> set (lb_expected l). e = (''a.rs'', ''f''))" for l
    unfolding label_indexed_def by force
  then show ?thesis by (simp add: wit_eval_labels_def wit_label_def)
qed

lemma wit_ablation_runs: "\<exists>mt. run_ablation (wit_searcher s) wit_timings (\<lambda>_. f64_one) [l] a n = Inr mt"
  using wit_eval_search [of s "lb_query l" a]
  by (auto simp: run_ablation_def sort_latencies_def top_k_accuracy_def Let_def)

theorem evaluation_accounts_for_labels_witness:
  "\<exists>run. evaluate (\<lambda>_ _. f64_one) (\<lambda>_ _. f64_one) (\<lambda>_ _. f64_one) (wit_searcher wit_mined_store) wit_timings wit_mined_store
       wit_eval_labels [LexicalOnly, Fused] wit_manifest = Inr run \<and>
     fst ` set (er_per_ablation run) = {LexicalOnly, Fused} \<and>
     (\<forall>(a, mt) \<in> set (er_per_ablation run). mt_labels_scored mt = 1 \<and> mt_labels_discarded mt = 1) \<and>
     (\<Sum>kv\<leftarrow>er_by_source run. mt_labels_scored (snd kv)) = 1"
proof -
  have p: "partition_labels wit_mined_store wit_eval_labels = ([wit_label], 1)"
    by (simp add: partition_labels_eq wit_indexed) (simp add: wit_eval_labels_def)
  have "bucket_from_query (lb_query wit_label) = Short" by (simp add: wit_label_def) code_simp
  moreover have "lb_source wit_label = CommitSubject" by (simp add: wit_label_def)
  ultimately obtain run where r: "evaluate (\<lambda>_ _. f64_one) (\<lambda>_ _. f64_one) (\<lambda>_ _. f64_one) (wit_searcher wit_mined_store) wit_timings wit_mined_store
       wit_eval_labels [LexicalOnly, Fused] wit_manifest = Inr run"
    using wit_ablation_runs [of wit_mined_store wit_label LexicalOnly 1] wit_ablation_runs [of wit_mined_store wit_label Fused 1]
    by (auto simp: evaluate_def p breakdown_by_source_def breakdown_by_length_def breakdown_def)
  have n: "length wit_eval_labels = 2" by (simp add: wit_eval_labels_def)
  from evaluation_accounts_for_labels [OF r, unfolded wit_indexed n] r show ?thesis
    by (intro exI [of _ run]) auto
qed

end
