(* ===== verification/Spec2Isabelle.thy ===== *)
theory Spec2Isabelle
  imports Store_Correct Dense Fusion_Order Tokenize Lexical Collector Search_Degraded Content_Hash Exclusions
    Repo_Git Pipeline_Runs Chunker_Props Resident_Props Daemon_Props Binding_Props Mcp_Props
    Inference_Props Device_Search Evaluation_Props
begin

text \<open>
  Verification of the sift-mcp code search server.

  \<^bold>\<open>The program.\<close> sift-mcp indexes the symbols of a git repository and answers natural language and keyword
  queries over them. \<open>crates/indexing\<close> walks a repository, cuts files into chunks and keeps the index up to
  date; \<open>crates/inference\<close> embeds texts; \<open>crates/storage\<close> keeps one SQLite row and one half precision
  vector per chunk; \<open>crates/retrieval\<close> searches vectors and words, fuses both rankings and
  assembles results; \<open>crates/daemon\<close> serves a repository over a socket and \<open>crates/mcp-client\<close> bridges
  it to the Model Context Protocol; \<open>crates/eval\<close> measures retrieval quality.

  \<^bold>\<open>Conventions\<close> (\<open>Sift_Prelude\<close>, \<open>Float_Model\<close>, \<open>Utf8_Text\<close>). A Rust string is the list of its UTF-8 bytes.
  A \<open>Result\<close> is a \<open>res\<close>: a value, a raised error of the crate's own error enumeration, or a panic.
  Unsigned integers are natural numbers with the truncation of every cast written out; half and single
  precision floats are their bit patterns with IEEE rounding. Code outside the repository (SQLite and
  file system calls apart, which are modelled by tables and maps) is an argument: the full-text engine
  \<open>tantivy\<close>, the \<open>embedder\<close>, the hash function, the glob engine, \<open>gix\<close>. What is relied on is a
  named predicate over such an argument (\<open>tantivy_runs\<close>, \<open>embedder_ok\<close>, \<open>globs_documented\<close>), and each has a
  concrete instance.

  \<^bold>\<open>Storage.\<close> \<open>Matrix\<close> is \<open>matrix.rs\<close>: the memory-mapped file of vectors with its header, appending, growing,
  truncating, opening. \<open>Store\<close> is \<open>store.rs\<close>: the record \<open>chunk_store\<close> has the connection (a table of rows), the
  matrix and the directory; one definition per public operation. \<open>Store_Props\<close> has the invariant \<open>store_inv\<close>,
  the abstract content \<open>store_view\<close> and the specification of each operation on it; \<open>Store_Correct\<close>
  proves C1, C2 and C5 to C9: insertion refines the abstract insertion and is atomic, the integrity check is exact
  and holds of every reachable store, crashes during insertion and compaction lose nothing.

  \<^bold>\<open>Retrieval.\<close> \<open>Ranking\<close> has the bounded heap and the ranking order; \<open>Dense\<close> (\<open>dense.rs\<close>) the vector
  search, equal to the exhaustive one (C11) with its error and refresh behaviour (C12, C13); \<open>Fusion\<close> and
  \<open>Fusion_Order\<close> (\<open>fusion.rs\<close>) reciprocal rank fusion (C14, C15); \<open>Tokenize\<close> (\<open>tokenize.rs\<close>) the identifier
  splitting (C16); \<open>Lexical\<close> (\<open>lexical.rs\<close>) the documents and queries (C17), \<open>Collector\<close> opening the index
  and the collector, whose ranking does not depend on the segments of the index (C18); \<open>Search\<close> and
  \<open>Search_Degraded\<close> (\<open>search.rs\<close>, \<open>result.rs\<close>) the composition: previews, live records only, both dispatch modes
  agree, degraded modes (C19 to C23).

  \<^bold>\<open>Indexing.\<close> \<open>Content_Hash\<close> (\<open>language.rs\<close>, \<open>hash.rs\<close>): normalization, on which the hash depends (C24).
  \<open>Exclusions\<close> (\<open>exclusions.rs\<close>): secret files are never indexed (C25). \<open>Repo_Git\<close> (\<open>git.rs\<close>): change lists and
  the status parser (C26). \<open>Pipeline\<close> (\<open>pipeline.rs\<close>): an operation takes an \<open>indexer\<close> (store, lexical index,
  configuration, counters) to a result and an indexer, and the environment \<open>index_env\<close> holds what a run only
  reads. \<open>Lexical_Map\<close>, \<open>Live_Map\<close>, \<open>Pipeline_Sync\<close>, \<open>Pipeline_Correct\<close> and \<open>Pipeline_Runs\<close> build up, operation by
  operation, that the documents of the lexical index are those of the live rows (C27) and that the report's
  counters account for every row (C28), on success and on every failure.

  \<open>Chunker\<close> and \<open>Chunker_Props\<close> (\<open>chunker.rs\<close>): tree-sitter is the record \<open>tree_sitter\<close>; every slice of the source is
  checked, so that a slice off a character boundary is a panic. The chunker returns on every ASCII source (C29), its
  chunks are well formed (C30) and line splitting loses nothing (C31); \<open>trailing_character_panics\<close> is an input on which
  it does panic. A run of the pipeline takes the chunker as a function that returns.

  \<^bold>\<open>Daemon.\<close> \<open>Protocol\<close> (\<open>protocol.rs\<close>, \<open>codec.rs\<close>, \<open>handshake.rs\<close>): messages and length-prefixed frames over a parameter
  \<open>bincode\<close>; a \<open>reader\<close> is the bytes to come and how they end, and the locale \<open>frame_reader\<close> is the contract of the three readers of
  frames (codec, server, client). Frames survive the wire (C32). \<open>Resident\<close> (\<open>resident.rs\<close>): the resident with its store and
  retrievers, the frozen view that answers while an index run owns the store, and the run itself; the view
  answers like the resident (C33). \<open>Daemon\<close> (\<open>server.rs\<close>): the shared state, the loader, the index worker and the server loop as the
  step relation \<open>daemon_step\<close>, one step per critical section. Over the locale \<open>kept\<close> of \<open>Steps\<close>, \<open>Daemon_Props\<close> shows that the
  store has one owner (C34), that index requests end in every run that schedules the worker (C35), and that a
  failed split is never repaired (C36). \<open>Connection\<close> is one connection from bytes read to bytes written, given what it sees
  of the shared state at each request; it answers in order and greets first (C37). \<open>Client\<close> (\<open>client.rs\<close>): requests and
  streams, composed with the connection in C38. \<open>Binding\<close> (\<open>paths.rs\<close>, \<open>Daemon::try_bind\<close>) is how a process becomes the daemon: a file
  tree with permission bits, locks and listeners, and every interleaving of the system calls of any number of processes as the
  step relation \<open>machine_step\<close>; a serving daemon keeps its socket (C4, \<open>Binding_Props\<close>). The
  command line of \<open>bin/sift-daemon.rs\<close> is there too.

  \<^bold>\<open>Tools.\<close> \<open>Mcp\<close> (\<open>crates/mcp-client\<close>): parameter bounds, the daemon connection a server keeps, the four tools, their
  descriptions and the command line, with the JSON texts and the progress channel as arguments. \<open>Mcp_Props\<close>: a search within bounds
  always fits a frame, is resent while the daemon starts and leaves the connection in step (C3); an abandoned index stream
  breaks the next request.

  \<^bold>\<open>Embedding.\<close> \<open>Inference\<close> (\<open>crates/inference\<close>): batching, tokenization with padding and masks, pooling and normalization in
  single precision, the ONNX embedder over a parameter session, the mock. \<open>Inference_Props\<close>: a text's embedding does not depend on
  the texts it is batched with (C39), under the hypothesis that the session ignores masked positions; such an embedder
  satisfies \<open>embedder_ok\<close>, which the pipeline and the searches assume. \<open>Artifacts\<close> (\<open>artifacts.rs\<close>, \<open>metadata.rs\<close>, \<open>OnnxEmbedder::load\<close>):
  a loaded embedder comes from files with the digests of its metadata. \<open>Device_Search\<close> (\<open>dense.rs\<close> of both crates, feature \<open>cuda\<close>): the scorer on
  the graphics device and the index over it; the device holds exactly the rows of the matrix, also after refreshes.

  \<^bold>\<open>Evaluation.\<close> \<open>Mining\<close> (\<open>mine.rs\<close>, \<open>corpus.rs\<close>): labels from commits and documentation, over a parameter \<open>mining_git\<close>; every examined
  commit is accepted or rejected once and labels respect their limits (C40, \<open>Mining_Props\<close>). \<open>Evaluation\<close> (\<open>run.rs\<close>, \<open>metrics.rs\<close>, \<open>proxy.rs\<close>,
  \<open>handwritten.rs\<close>): runs, metrics in double precision and byte counts; a run accounts for every label (C10,
  \<open>Evaluation_Props\<close>).

  \<^bold>\<open>Bounds.\<close> No definition uses fuel: every loop is a recursion with a termination proof (the walk of the
  repository by the size of the directory stack, the loops over a socket by the bytes to come). A loop that waits on the clock
  takes the list of its readings and returns \<open>None\<close>, or \<open>Waiting\<close>, when they run out. Row numbers stay below \<open>2 ^ 63\<close> where the
  store casts them; the theorems that need it say so.

  \<^bold>\<open>Not modelled.\<close> The file formats inside SQLite and tantivy, parsing and printing JSON, process
  management, the stdio transport of the protocol library; elapsed times, delays and logging,
  which influence nothing; locks poisoned by a panic.
\<close>

end
